(* ===== verification/Prelude.thy ===== *)
theory Prelude
  imports Complex_Main "HOL-Library.AList"
begin

text \<open>
  What every component of the model shares: the result type of an operation that may
  raise, insertion-ordered dictionaries as association lists (a Python \<open>dict\<close> keeps the
  order in which its keys were first stored, and \<open>AList.update\<close> does the same), and the
  lemmas on filters and dictionaries that the component proofs use through the
  collections declared here.

  Times are the seconds that \<open>time.time()\<close> returns, taken as exact reals: the rounding
  of the IEEE double is not modelled.
\<close>

named_theorems dict_simps \<open>reading a dictionary after an update\<close>
named_theorems res_simps \<open>computing with results that may be exceptions\<close>

type_synonym time = real

section \<open>Exceptions and results\<close>

text \<open>
  The exception classes that the modelled code raises or catches. \<open>Unmodelled\<close> is none of
  them: it marks the few inputs that a definition leaves out, such as a number where an
  identifier is expected, and no code catches it.
\<close>

datatype exn =
    KeyError string
  | TypeError
  | ValueError
  | AttributeError
  | OverflowError
  | OSError
  | RuntimeError
  | StructError
  | Unmodelled

type_synonym 'a res = "exn + 'a"

definition ebind :: "'e + 'a \<Rightarrow> ('a \<Rightarrow> 'e + 'b) \<Rightarrow> 'e + 'b" where
  "ebind r f = (case r of Inl e \<Rightarrow> Inl e | Inr a \<Rightarrow> f a)"

lemma ebind_Inl [simp, res_simps]: "ebind (Inl e) f = Inl e"
  by (simp add: ebind_def)

lemma ebind_Inr [simp, res_simps]: "ebind (Inr a) f = f a"
  by (simp add: ebind_def)

lemma ebind_eq_Inr: "ebind r f = Inr b \<longleftrightarrow> (\<exists>a. r = Inr a \<and> f a = Inr b)"
  by (cases r) auto

text \<open>Evaluating a comprehension whose element expression may raise: the first error wins.\<close>

fun emap :: "('a \<Rightarrow> 'e + 'b) \<Rightarrow> 'a list \<Rightarrow> 'e + 'b list" where
  "emap f [] = Inr []"
| "emap f (x # xs) = ebind (f x) (\<lambda>y. ebind (emap f xs) (\<lambda>ys. Inr (y # ys)))"

lemma emap_eq_Inr: "emap f xs = Inr ys \<longleftrightarrow> list_all2 (\<lambda>x y. f x = Inr y) xs ys"
  by (induction xs arbitrary: ys) (auto simp: ebind_eq_Inr list_all2_Cons1)

lemma emap_mem: "emap f xs = Inr ys \<Longrightarrow> x \<in> set xs \<Longrightarrow> \<exists>y \<in> set ys. f x = Inr y"
  by (auto simp: emap_eq_Inr list_all2_conv_all_nth in_set_conv_nth)

lemma emap_mem_back: "emap f xs = Inr ys \<Longrightarrow> y \<in> set ys \<Longrightarrow> \<exists>x \<in> set xs. f x = Inr y"
  by (auto simp: emap_eq_Inr list_all2_conv_all_nth in_set_conv_nth) (metis nth_mem)

lemma emap_total: "(\<And>x. x \<in> set xs \<Longrightarrow> f x = Inr (g x)) \<Longrightarrow> emap f xs = Inr (map g xs)"
  by (induction xs) auto

text \<open>A list comprehension whose condition may raise.\<close>

fun efilter :: "('a \<Rightarrow> 'e + bool) \<Rightarrow> 'a list \<Rightarrow> 'e + 'a list" where
  "efilter p [] = Inr []"
| "efilter p (x # xs) =
     ebind (p x) (\<lambda>b. ebind (efilter p xs) (\<lambda>ys. Inr (if b then x # ys else ys)))"

lemma efilter_total:
  "(\<And>x. x \<in> set xs \<Longrightarrow> p x = Inr (q x)) \<Longrightarrow> efilter p xs = Inr (filter q xs)"
  by (induction xs) auto

lemma efilter_Inr_set:
  "efilter p xs = Inr ys \<Longrightarrow> y \<in> set ys \<longleftrightarrow> y \<in> set xs \<and> p y = Inr True"
  by (induction xs arbitrary: ys) (auto simp: ebind_eq_Inr split: if_splits)

lemma efilter_append:
  "efilter p (xs @ ys) = ebind (efilter p xs) (\<lambda>as. ebind (efilter p ys) (\<lambda>bs. Inr (as @ bs)))"
proof (induction xs)
  case Nil
  then show ?case by (cases "efilter p ys") auto
next
  case (Cons x xs)
  then show ?case
    by (cases "p x"; cases "efilter p xs"; cases "efilter p ys") auto
qed

section \<open>Insertion-ordered dictionaries\<close>

type_synonym ('k, 'v) odict = "('k \<times> 'v) list"

abbreviation odict_ok :: "('k, 'v) odict \<Rightarrow> bool" where
  "odict_ok d \<equiv> distinct (map fst d)"

lemma map_of_update [dict_simps]:
  "map_of (AList.update k v d) k' = (if k' = k then Some v else map_of d k')"
  by (simp add: update_conv')

lemma map_of_delete [dict_simps]:
  "map_of (AList.delete k d) k' = (if k' = k then None else map_of d k')"
  by (simp add: delete_conv')

lemma odict_ok_update [simp]: "odict_ok d \<Longrightarrow> odict_ok (AList.update k v d)"
  by (rule distinct_update)

lemma odict_ok_delete [simp]: "odict_ok d \<Longrightarrow> odict_ok (AList.delete k d)"
  by (rule distinct_delete)

lemma odict_ok_filter [simp]: "odict_ok d \<Longrightarrow> odict_ok (filter P d)"
  by (rule distinct_map_filter)

text \<open>A dict comprehension with a condition: \<open>{k: v for k, v in d.items() if P(k, v)}\<close>.\<close>

lemma map_of_filter_items:
  assumes "odict_ok d"
  shows "map_of (filter (\<lambda>(k, v). P k v) d) k =
    (case map_of d k of None \<Rightarrow> None | Some v \<Rightarrow> if P k v then Some v else None)"
  using assms
proof (induction d)
  case Nil
  then show ?case by simp
next
  case (Cons x d)
  obtain a b where x: "x = (a, b)" by (cases x)
  have "map_of d a = None"
    using Cons.prems by (simp add: x map_of_eq_None_iff)
  with Cons show ?case
    by (auto simp: x split: option.splits)
qed

section \<open>Filters over time stamps\<close>

lemma length_filter_mono:
  "(\<And>x. x \<in> set xs \<Longrightarrow> P x \<Longrightarrow> Q x) \<Longrightarrow> length (filter P xs) \<le> length (filter Q xs)"
  by (induction xs) auto

lemma filter_filter_weaker:
  "(\<And>x. x \<in> set xs \<Longrightarrow> P x \<Longrightarrow> Q x) \<Longrightarrow> filter P (filter Q xs) = filter P xs"
  by (induction xs) auto

lemma sorted_start:
  fixes ts :: "time list"
  assumes "sorted ts"
  obtains now where "sorted (now # ts)"
proof (cases ts)
  case Nil
  then show ?thesis using that [of 0] by simp
next
  case (Cons t ts')
  then show ?thesis using that [of t] assms by auto
qed

lemma sorted_append_last: "sorted (xs @ [t]) \<Longrightarrow> x \<in> set xs \<Longrightarrow> x \<le> (t :: 'a :: linorder)"
  by (simp add: sorted_append)

section \<open>Operations on a state that may raise\<close>

text \<open>
  A handler changes the state of its process until it returns or raises; what it changed
  before raising stays changed.
\<close>

type_synonym ('s, 'a) op = "'s \<Rightarrow> 'a res \<times> 's"

definition oret :: "'a \<Rightarrow> ('s, 'a) op" where
  "oret a s = (Inr a, s)"

definition olift :: "'a res \<Rightarrow> ('s, 'a) op" where
  "olift r s = (r, s)"

definition obind :: "('s, 'a) op \<Rightarrow> ('a \<Rightarrow> ('s, 'b) op) \<Rightarrow> ('s, 'b) op" where
  "obind m f s = (case m s of (Inl e, s') \<Rightarrow> (Inl e, s') | (Inr a, s') \<Rightarrow> f a s')"

text \<open>An operation on a part of the state, and one that cannot raise.\<close>

definition on_part :: "('s \<Rightarrow> 'p) \<Rightarrow> ('p \<Rightarrow> 's \<Rightarrow> 's) \<Rightarrow> ('p, 'a) op \<Rightarrow> ('s, 'a) op" where
  "on_part get put m s = (case m (get s) of (r, p) \<Rightarrow> (r, put p s))"

definition osafe :: "('s \<Rightarrow> 'a \<times> 's) \<Rightarrow> ('s, 'a) op" where
  "osafe f s = (case f s of (a, s') \<Rightarrow> (Inr a, s'))"

lemma oret_eq [res_simps]: "oret a s = (r, s') \<longleftrightarrow> r = Inr a \<and> s' = s"
  by (auto simp: oret_def)

lemma olift_eq [res_simps]: "olift q s = (r, s') \<longleftrightarrow> q = r \<and> s' = s"
  by (auto simp: olift_def)

lemma obind_eq_Inr:
  "obind m f s = (Inr b, s') \<longleftrightarrow> (\<exists>a s1. m s = (Inr a, s1) \<and> f a s1 = (Inr b, s'))"
  by (cases "m s"; cases "fst (m s)") (auto simp: obind_def)

lemma obind_olift_Inr [simp]: "obind (olift (Inr a)) f = f a"
  by (simp add: obind_def olift_def fun_eq_iff)

lemma obind_olift_Inl [simp]: "obind (olift (Inl e)) f = olift (Inl e)"
  by (simp add: obind_def olift_def fun_eq_iff)

lemma obind_oret [simp]: "obind (oret a) f = f a"
  by (simp add: obind_def oret_def fun_eq_iff)

text \<open>\<open>keeps g m\<close>: whatever \<open>m\<close> does, and if it raises, the part \<open>g\<close> of the state is as before.\<close>

named_theorems keeps_intros \<open>operations that leave a part of the state alone\<close>

definition keeps :: "('s \<Rightarrow> 'p) \<Rightarrow> ('s, 'a) op \<Rightarrow> bool" where
  "keeps g m \<longleftrightarrow> (\<forall>s. g (snd (m s)) = g s)"

lemma keepsD: "keeps g m \<Longrightarrow> m s = (r, s') \<Longrightarrow> g s' = g s"
  by (metis keeps_def snd_conv)

lemma keeps_oret [keeps_intros]: "keeps g (oret a)"
  by (simp add: keeps_def oret_def)

lemma keeps_olift [keeps_intros]: "keeps g (olift r)"
  by (simp add: keeps_def olift_def)

lemma keeps_obind [keeps_intros]: "keeps g m \<Longrightarrow> (\<And>a. keeps g (f a)) \<Longrightarrow> keeps g (obind m f)"
  by (auto simp: keeps_def obind_def split: prod.splits sum.splits) (metis snd_conv)+

lemma keeps_read [keeps_intros]: "keeps g (\<lambda>s. (f s, s))"
  by (simp add: keeps_def)

lemma keeps_on_part [keeps_intros]:
  "(\<And>p s. g (put p s) = g s) \<Longrightarrow> keeps g (on_part get put m)"
  by (simp add: keeps_def on_part_def split: prod.splits)

lemma keeps_if [keeps_intros]: "(b \<Longrightarrow> keeps g m) \<Longrightarrow> (\<not> b \<Longrightarrow> keeps g n) \<Longrightarrow> keeps g (if b then m else n)"
  by simp

text \<open>\<open>preserves I m\<close>: whatever \<open>m\<close> does, and if it raises, a state where \<open>I\<close> holds is followed by one where it holds.\<close>

named_theorems preserves_intros \<open>operations that preserve an invariant\<close>

definition preserves :: "('s \<Rightarrow> bool) \<Rightarrow> ('s, 'a) op \<Rightarrow> bool" where
  "preserves I m \<longleftrightarrow> (\<forall>s. I s \<longrightarrow> I (snd (m s)))"

lemma preservesI: "(\<And>s r s'. I s \<Longrightarrow> m s = (r, s') \<Longrightarrow> I s') \<Longrightarrow> preserves I m"
  by (metis preserves_def prod.collapse)

lemma preservesD: "preserves I m \<Longrightarrow> I s \<Longrightarrow> I (snd (m s))"
  by (simp add: preserves_def)

lemma preserves_oret [preserves_intros]: "preserves I (oret a)"
  by (simp add: preserves_def oret_def)

lemma preserves_olift [preserves_intros]: "preserves I (olift r)"
  by (simp add: preserves_def olift_def)

lemma preserves_obind [preserves_intros]: "preserves I m \<Longrightarrow> (\<And>a. preserves I (f a)) \<Longrightarrow> preserves I (obind m f)"
  by (auto simp: preserves_def obind_def split: prod.splits sum.splits)

lemma preserves_read [preserves_intros]: "preserves I (\<lambda>s. (f s, s))"
  by (simp add: preserves_def)

lemma preserves_if [preserves_intros]: "(b \<Longrightarrow> preserves I m) \<Longrightarrow> (\<not> b \<Longrightarrow> preserves I n) \<Longrightarrow> preserves I (if b then m else n)"
  by simp

lemma preserves_sum [preserves_intros]:
  "(\<And>a. x = Inl a \<Longrightarrow> preserves I (f a)) \<Longrightarrow> (\<And>b. x = Inr b \<Longrightarrow> preserves I (g b)) \<Longrightarrow> preserves I (case x of Inl a \<Rightarrow> f a | Inr b \<Rightarrow> g b)"
  by (cases x) simp_all

lemma preserves_option [preserves_intros]:
  "(x = None \<Longrightarrow> preserves I m) \<Longrightarrow> (\<And>b. x = Some b \<Longrightarrow> preserves I (g b)) \<Longrightarrow> preserves I (case x of None \<Rightarrow> m | Some b \<Rightarrow> g b)"
  by (cases x) simp_all

lemma preserves_pair [preserves_intros]: "(\<And>a b. preserves I (f a b)) \<Longrightarrow> preserves I (case x of (a, b) \<Rightarrow> f a b)"
  by (cases x) simp

lemma keeps_preserves: "keeps g m \<Longrightarrow> preserves (\<lambda>s. J (g s)) m"
  by (simp add: keeps_def preserves_def)

lemma preserves_on_part:
  "preserves J m \<Longrightarrow> (\<And>p s. get (put p s) = p) \<Longrightarrow> preserves (\<lambda>s. J (get s)) (on_part get put m)"
  by (auto simp: preserves_def on_part_def split: prod.splits)

end
