(* ===== verification/PyStrings.thy ===== *)
theory PyStrings
  imports Prelude
begin

text \<open>
  The Python string operations that the source uses, on character lists.

  A Python \<open>str\<close> is modelled by the list of bytes of its UTF-8 encoding, so that
  \<open>encode\<close> is the identity, \<open>decode\<close> is the identity guarded by the validity check
  \<open>utf8_valid\<close>, and equality, \<open>startswith\<close> and splitting at an ASCII separator
  agree with the operations on code points. \<open>py_len\<close> counts code points. The character
  classes (\<open>isalnum\<close>, white space, case mapping) are those of ASCII.
\<close>

section \<open>Characters\<close>

definition is_space :: "char \<Rightarrow> bool" where
  "is_space c \<longleftrightarrow> (let n = of_char c :: nat in n = 32 \<or> (9 \<le> n \<and> n \<le> 13) \<or> (28 \<le> n \<and> n \<le> 31))"

definition is_digit :: "char \<Rightarrow> bool" where
  "is_digit c \<longleftrightarrow> (let n = of_char c :: nat in 48 \<le> n \<and> n \<le> 57)"

definition is_upper :: "char \<Rightarrow> bool" where
  "is_upper c \<longleftrightarrow> (let n = of_char c :: nat in 65 \<le> n \<and> n \<le> 90)"

definition is_lower :: "char \<Rightarrow> bool" where
  "is_lower c \<longleftrightarrow> (let n = of_char c :: nat in 97 \<le> n \<and> n \<le> 122)"

definition is_alnum :: "char \<Rightarrow> bool" where
  "is_alnum c \<longleftrightarrow> is_digit c \<or> is_upper c \<or> is_lower c"

definition to_upper :: "char \<Rightarrow> char" where
  "to_upper c = (if is_lower c then char_of (of_char c - 32 :: nat) else c)"

definition to_lower :: "char \<Rightarrow> char" where
  "to_lower c = (if is_upper c then char_of (of_char c + 32 :: nat) else c)"

definition upper :: "string \<Rightarrow> string" where
  "upper s = map to_upper s"

definition lower :: "string \<Rightarrow> string" where
  "lower s = map to_lower s"

section \<open>Searching, stripping, splitting\<close>

fun startswith :: "string \<Rightarrow> string \<Rightarrow> bool" where
  "startswith s [] = True"
| "startswith [] (p # ps) = False"
| "startswith (c # cs) (p # ps) = (c = p \<and> startswith cs ps)"

definition endswith :: "string \<Rightarrow> string \<Rightarrow> bool" where
  "endswith s p = startswith (rev s) (rev p)"

text \<open>\<open>p in s\<close> for strings.\<close>

fun contains :: "string \<Rightarrow> string \<Rightarrow> bool" where
  "contains p [] = (p = [])"
| "contains p (c # cs) = (startswith (c # cs) p \<or> contains p cs)"

definition lstrip_by :: "(char \<Rightarrow> bool) \<Rightarrow> string \<Rightarrow> string" where
  "lstrip_by f s = dropWhile f s"

definition rstrip_by :: "(char \<Rightarrow> bool) \<Rightarrow> string \<Rightarrow> string" where
  "rstrip_by f s = rev (dropWhile f (rev s))"

definition strip :: "string \<Rightarrow> string" where
  "strip s = rstrip_by is_space (lstrip_by is_space s)"

definition strip_char :: "char \<Rightarrow> string \<Rightarrow> string" where
  "strip_char c s = rstrip_by (\<lambda>x. x = c) (lstrip_by (\<lambda>x. x = c) s)"

text \<open>The answer at a yes-or-no prompt of the tools.\<close>

definition confirmed :: "string \<Rightarrow> bool" where
  "confirmed answer \<longleftrightarrow> lower (strip answer) \<in> {''y'', ''yes''}"

text \<open>\<open>s.split(sep)\<close> for a one-character separator: never empty, keeps empty pieces.\<close>

fun split_on :: "char \<Rightarrow> string \<Rightarrow> string list" where
  "split_on sep [] = [[]]"
| "split_on sep (c # cs) =
     (if c = sep then [] # split_on sep cs
      else (case split_on sep cs of [] \<Rightarrow> [[c]] | w # ws \<Rightarrow> (c # w) # ws))"

fun join_with :: "string \<Rightarrow> string list \<Rightarrow> string" where
  "join_with sep [] = []"
| "join_with sep [w] = w"
| "join_with sep (w # v # ws) = w @ sep @ join_with sep (v # ws)"

lemma startswith_append [simp]: "startswith (p @ s) p"
  by (induction p) auto

lemma startswith_iff: "startswith s p \<longleftrightarrow> (\<exists>t. s = p @ t)"
  by (induction s p rule: startswith.induct) auto

lemma contains_iff: "contains p s \<longleftrightarrow> (\<exists>a b. s = a @ p @ b)"
proof (induction p s rule: contains.induct)
  case (1 p)
  then show ?case by auto
next
  case (2 p c cs)
  note IH = 2
  show ?case
  proof
    assume "contains p (c # cs)"
    then consider "startswith (c # cs) p" | "contains p cs" by auto
    then show "\<exists>a b. c # cs = a @ p @ b"
    proof cases
      case 1
      then show ?thesis by (metis append_Nil startswith_iff)
    next
      case 2
      then obtain a b where "cs = a @ p @ b" using IH by blast
      then have "c # cs = (c # a) @ p @ b" by simp
      then show ?thesis by blast
    qed
  next
    assume "\<exists>a b. c # cs = a @ p @ b"
    then obtain a b where ab: "c # cs = a @ p @ b" by blast
    show "contains p (c # cs)"
    proof (cases a)
      case Nil
      with ab have "startswith (c # cs) p" by (auto simp: startswith_iff)
      then show ?thesis by simp
    next
      case (Cons x xs)
      with ab IH show ?thesis by auto
    qed
  qed
qed

lemma split_on_nonempty [simp]: "split_on sep s \<noteq> []"
  by (induction sep s rule: split_on.induct) (auto split: list.splits)

lemma split_on_no_sep: "sep \<notin> set s \<Longrightarrow> split_on sep s = [s]"
  by (induction sep s rule: split_on.induct) auto

lemma split_on_append:
  "sep \<notin> set w \<Longrightarrow> split_on sep (w @ sep # s) = w # split_on sep s"
  by (induction w) (auto split: list.splits)

lemma split_on_join:
  assumes "ws \<noteq> []" and "\<forall>w \<in> set ws. sep \<notin> set w"
  shows "split_on sep (join_with [sep] ws) = ws"
  using assms
  by (induction "[sep]" ws rule: join_with.induct) (auto simp: split_on_no_sep split_on_append)

lemma join_split_on: "join_with [sep] (split_on sep s) = s"
proof (induction sep s rule: split_on.induct)
  case (1 sep)
  then show ?case by simp
next
  case (2 sep c cs)
  obtain w ws where w: "split_on sep cs = w # ws"
    by (cases "split_on sep cs") auto
  with 2 show ?case by (cases ws) auto
qed

lemma split_on_pieces: "w \<in> set (split_on sep s) \<Longrightarrow> sep \<notin> set w"
  by (induction sep s arbitrary: w rule: split_on.induct) (auto split: if_splits list.splits)

section \<open>Numbers in decimal\<close>

definition digit_char :: "nat \<Rightarrow> char" where
  "digit_char d = char_of (48 + d)"

definition digit_val :: "char \<Rightarrow> nat" where
  "digit_val c = of_char c - 48"

fun dec_nat :: "nat \<Rightarrow> string" where
  "dec_nat n = (if n < 10 then [digit_char n] else dec_nat (n div 10) @ [digit_char (n mod 10)])"

declare dec_nat.simps [simp del]

text \<open>\<open>str(i)\<close> for an integer.\<close>

definition dec_int :: "int \<Rightarrow> string" where
  "dec_int i = (if i < 0 then CHR ''-'' # dec_nat (nat (- i)) else dec_nat (nat i))"

text \<open>
  \<open>int(s)\<close> for a string: surrounding white space, one optional sign, then digits in
  which single underscores may separate digits. \<open>None\<close> is the \<open>ValueError\<close>. The
  flag of \<open>int_digits\<close> says whether the last character read was a digit.
\<close>

fun int_digits :: "bool \<Rightarrow> nat \<Rightarrow> string \<Rightarrow> nat option" where
  "int_digits prev acc [] = (if prev then Some acc else None)"
| "int_digits prev acc (c # cs) =
     (if is_digit c then int_digits True (10 * acc + digit_val c) cs
      else if c = CHR ''_'' \<and> prev then int_digits False acc cs
      else None)"

definition py_int :: "string \<Rightarrow> int option" where
  "py_int s =
     (case strip s of
        [] \<Rightarrow> None
      | c # cs \<Rightarrow>
          if c = CHR ''-'' then map_option (\<lambda>n. - int n) (int_digits False 0 cs)
          else if c = CHR ''+'' then map_option int (int_digits False 0 cs)
          else map_option int (int_digits False 0 (c # cs)))"

lemma digit_char_props:
  assumes "d < 10"
  shows "is_digit (digit_char d)" "digit_val (digit_char d) = d"
    "\<not> is_space (digit_char d)" "digit_char d \<noteq> CHR ''-''" "digit_char d \<noteq> CHR ''+''"
    "digit_char d \<noteq> CHR ''_''" "digit_char d \<noteq> CHR ''|''"
proof -
  have n: "(of_char (digit_char d) :: nat) = 48 + d"
    using assms by (simp add: digit_char_def)
  show "is_digit (digit_char d)" "digit_val (digit_char d) = d" "\<not> is_space (digit_char d)"
    using assms n by (auto simp: is_digit_def digit_val_def is_space_def)
  show "digit_char d \<noteq> CHR ''-''" "digit_char d \<noteq> CHR ''+''"
    "digit_char d \<noteq> CHR ''_''" "digit_char d \<noteq> CHR ''|''"
    using assms n by (auto dest!: arg_cong [where f = "of_char :: char \<Rightarrow> nat"])
qed

lemma digit_char_literals [simp]:
  "digit_char 0 = CHR ''0''" "digit_char 1 = CHR ''1''" "digit_char (Suc 0) = CHR ''1''"
  "digit_char 2 = CHR ''2''" "digit_char 3 = CHR ''3''" "digit_char 4 = CHR ''4''"
  "digit_char 5 = CHR ''5''" "digit_char 6 = CHR ''6''" "digit_char 7 = CHR ''7''"
  "digit_char 8 = CHR ''8''" "digit_char 9 = CHR ''9''"
  by (simp_all add: digit_char_def char_of_def bit_0)

lemma dec_nat_digits: "c \<in> set (dec_nat n) \<Longrightarrow> \<exists>d < 10. c = digit_char d"
proof (induction n rule: dec_nat.induct)
  case (1 n)
  show ?case
  proof (cases "n < 10")
    case True
    with "1.prems" show ?thesis by (subst (asm) dec_nat.simps) auto
  next
    case False
    with "1.prems" consider "c \<in> set (dec_nat (n div 10))" | "c = digit_char (n mod 10)"
      by (subst (asm) dec_nat.simps) auto
    then show ?thesis
    proof cases
      case 1
      with False "1.IH" show ?thesis by blast
    next
      case 2
      then show ?thesis by (intro exI [of _ "n mod 10"]) simp
    qed
  qed
qed

lemma dec_nat_nonempty [simp]: "dec_nat n \<noteq> []"
  by (subst dec_nat.simps) simp

lemma int_digits_append:
  "int_digits prev acc xs = Some m \<Longrightarrow> xs \<noteq> [] \<Longrightarrow> d < 10 \<Longrightarrow>
   int_digits prev acc (xs @ [digit_char d]) = Some (10 * m + d)"
proof (induction prev acc xs rule: int_digits.induct)
  case (1 prev acc)
  then show ?case by simp
next
  case (2 prev acc c cs)
  then show ?case
    by (cases cs) (auto simp: digit_char_props split: if_splits)
qed

lemma int_digits_dec_nat: "int_digits False 0 (dec_nat n) = Some n"
proof (induction n rule: dec_nat.induct)
  case (1 n)
  show ?case
  proof (cases "n < 10")
    case True
    then show ?thesis by (subst dec_nat.simps) (simp add: digit_char_props)
  next
    case False
    with 1 have "int_digits False 0 (dec_nat (n div 10)) = Some (n div 10)" by simp
    then have "int_digits False 0 (dec_nat (n div 10) @ [digit_char (n mod 10)])
        = Some (10 * (n div 10) + n mod 10)"
      by (rule int_digits_append) simp_all
    with False show ?thesis by (subst dec_nat.simps) simp
  qed
qed

lemma strip_no_space:
  assumes "\<forall>c \<in> set s. \<not> is_space c"
  shows "strip s = s"
proof -
  have dw: "dropWhile is_space t = t" if "\<forall>c \<in> set t. \<not> is_space c" for t
    using that by (cases t) auto
  from assms dw [of s] dw [of "rev s"] show ?thesis
    by (simp add: strip_def rstrip_by_def lstrip_by_def)
qed

lemma dec_int_chars:
  "c \<in> set (dec_int i) \<Longrightarrow> c = CHR ''-'' \<or> (\<exists>d < 10. c = digit_char d)"
  by (auto simp: dec_int_def dest: dec_nat_digits split: if_splits)

text \<open>A text that \<open>strip\<close> leaves alone begins and ends with other characters than spaces, and conversely.\<close>

lemma strip_ends:
  assumes "strip s = s" and "s \<noteq> []"
  shows "\<not> is_space (hd s) \<and> \<not> is_space (last s)"
proof -
  have "length (strip s) \<le> length (dropWhile is_space s)"
    by (simp add: strip_def rstrip_by_def lstrip_by_def) (metis length_dropWhile_le length_rev)
  then have "length s \<le> length (dropWhile is_space s)" using assms(1) by simp
  moreover have "length s = length (takeWhile is_space s) + length (dropWhile is_space s)"
    by (metis length_append takeWhile_dropWhile_id)
  ultimately have "takeWhile is_space s = []" by simp
  then have l: "\<not> is_space (hd s)" using assms(2) by (cases s) (auto split: if_splits)
  then have "lstrip_by is_space s = s" using assms(2) by (cases s) (auto simp: lstrip_by_def)
  then have "dropWhile is_space (rev s) = rev s" using assms(1) by (simp add: strip_def rstrip_by_def rev_swap)
  then have "\<not> is_space (hd (rev s))" using assms(2) by (metis hd_dropWhile rev_is_Nil_conv)
  with l show ?thesis using assms(2) by (simp add: hd_rev)
qed

lemma strip_id:
  assumes "\<not> is_space (hd s)" and "\<not> is_space (last s)"
  shows "strip s = s"
proof (cases "s = []")
  case False
  have "dropWhile is_space s = s" using assms(1) False by (cases s) auto
  moreover have "dropWhile is_space (rev s) = rev s" using assms(2) False by (cases s rule: rev_cases) auto
  ultimately show ?thesis by (simp add: strip_def rstrip_by_def lstrip_by_def)
qed (simp add: strip_def rstrip_by_def lstrip_by_def)

lemma strip_dec_int: "strip (dec_int i) = dec_int i"
  by (rule strip_no_space)
    (auto dest!: dec_int_chars simp: digit_char_props, simp add: is_space_def)

lemma bar_notin_dec_int: "CHR ''|'' \<notin> set (dec_int i)"
  by (auto dest!: dec_int_chars simp: digit_char_props dest: sym)

text \<open>\<open>int(str(i)) == i\<close>.\<close>

lemma py_int_dec_int: "py_int (dec_int i) = Some i"
proof (cases "i < 0")
  case True
  then show ?thesis
    by (simp add: py_int_def strip_dec_int) (simp add: dec_int_def int_digits_dec_nat)
next
  case False
  obtain c cs where c: "dec_nat (nat i) = c # cs"
    by (cases "dec_nat (nat i)") auto
  then obtain d where "d < 10" "c = digit_char d"
    using dec_nat_digits [of c "nat i"] by auto
  then have "c \<noteq> CHR ''-''" "c \<noteq> CHR ''+''" by (simp_all add: digit_char_props)
  with False c int_digits_dec_nat [of "nat i"] show ?thesis
    by (simp add: py_int_def strip_dec_int) (simp add: dec_int_def)
qed

lemma dec_int_inj: "dec_int i = dec_int j \<Longrightarrow> i = j"
  by (metis option.inject py_int_dec_int)

section \<open>UTF-8\<close>

text \<open>\<open>len(s)\<close> of the encoded string: the bytes that do not continue a code point.\<close>

definition is_cont :: "char \<Rightarrow> bool" where
  "is_cont c \<longleftrightarrow> (let n = of_char c :: nat in 128 \<le> n \<and> n < 192)"

definition py_len :: "string \<Rightarrow> nat" where
  "py_len s = length (filter (\<lambda>c. \<not> is_cont c) s)"

text \<open>\<open>s[:n]\<close>, which counts code points.\<close>

fun py_take :: "nat \<Rightarrow> string \<Rightarrow> string" where
  "py_take n [] = []"
| "py_take n (c # s) =
     (if is_cont c then c # py_take n s
      else case n of 0 \<Rightarrow> [] | Suc m \<Rightarrow> c # py_take m s)"

lemma py_len_py_take: "py_len (py_take n s) \<le> n"
  by (induction n s rule: py_take.induct) (auto simp: py_len_def split: nat.splits)

text \<open>\<open>s.zfill(n)\<close>: pads with zeros on the left, after a leading sign.\<close>

definition zfill :: "string \<Rightarrow> nat \<Rightarrow> string" where
  "zfill s n =
     (case s of
        c # cs \<Rightarrow>
          if c = CHR ''-'' \<or> c = CHR ''+'' then c # replicate (n - py_len s) (CHR ''0'') @ cs
          else replicate (n - py_len s) (CHR ''0'') @ s
      | [] \<Rightarrow> replicate n (CHR ''0''))"

text \<open>Strict decoding: no overlong form, no surrogate, nothing above U+10FFFF.\<close>

fun utf8_valid :: "nat list \<Rightarrow> bool" where
  "utf8_valid [] = True"
| "utf8_valid (a # s) =
     (if a < 128 then utf8_valid s
      else case s of
        [] \<Rightarrow> False
      | b # s1 \<Rightarrow>
          if 194 \<le> a \<and> a < 224 then 128 \<le> b \<and> b < 192 \<and> utf8_valid s1
          else case s1 of
            [] \<Rightarrow> False
          | c # s2 \<Rightarrow>
              if 224 \<le> a \<and> a < 240 then
                (if a = 224 then 160 else 128) \<le> b \<and> b < (if a = 237 then 160 else 192) \<and>
                128 \<le> c \<and> c < 192 \<and> utf8_valid s2
              else case s2 of
                [] \<Rightarrow> False
              | d # s3 \<Rightarrow>
                  240 \<le> a \<and> a < 245 \<and>
                  (if a = 240 then 144 else 128) \<le> b \<and> b < (if a = 244 then 144 else 192) \<and>
                  128 \<le> c \<and> c < 192 \<and> 128 \<le> d \<and> d < 192 \<and> utf8_valid s3)"

text \<open>\<open>bytes.decode("utf-8")\<close>: \<open>None\<close> is the \<open>UnicodeDecodeError\<close>.\<close>

definition utf8_decode :: "string \<Rightarrow> string option" where
  "utf8_decode s = (if utf8_valid (map of_char s) then Some s else None)"

text \<open>
  Decoding that does not fail: \<open>errors="ignore"\<close> drops the bytes that do not belong to a well-formed sequence, \<open>errors="replace"\<close> puts
  U+FFFD in their place (one for each byte here, where Python may put one for several that belong together).
\<close>

definition sequence_length :: "nat list \<Rightarrow> nat" where
  "sequence_length ns =
     (case filter (\<lambda>k. k \<le> length ns \<and> utf8_valid (take k ns)) [1, 2, 3, 4] of [] \<Rightarrow> 0 | k # _ \<Rightarrow> k)"

fun decode_from :: "string \<Rightarrow> nat \<Rightarrow> string \<Rightarrow> string" where
  "decode_from rep k [] = []"
| "decode_from rep (Suc k) (c # s) = c # decode_from rep k s"
| "decode_from rep 0 (c # s) =
     (case sequence_length (map of_char (take 4 (c # s))) of 0 \<Rightarrow> rep @ decode_from rep 0 s | Suc k \<Rightarrow> c # decode_from rep k s)"

definition decode_lenient :: "string \<Rightarrow> string \<Rightarrow> string" where
  "decode_lenient rep bytes = decode_from rep 0 bytes"

definition replacement_char :: string where
  "replacement_char = [CHR 0xEF, CHR 0xBF, CHR 0xBD]"

definition ascii :: "string \<Rightarrow> bool" where
  "ascii s \<longleftrightarrow> (\<forall>c \<in> set s. (of_char c :: nat) < 128)"

lemma utf8_decode_ascii: "ascii s \<Longrightarrow> utf8_decode s = Some s"
proof -
  have "\<forall>n \<in> set ns. n < 128 \<Longrightarrow> utf8_valid ns" for ns
    by (induction ns) auto
  then show "ascii s \<Longrightarrow> utf8_decode s = Some s"
    by (auto simp: utf8_decode_def ascii_def)
qed

lemma decode_lenient_ascii: "ascii s \<Longrightarrow> decode_lenient rep s = s"
proof -
  have "ascii s \<Longrightarrow> decode_from rep 0 s = s"
    by (induction s) (auto simp: sequence_length_def ascii_def)
  then show "ascii s \<Longrightarrow> decode_lenient rep s = s" by (simp add: decode_lenient_def)
qed

lemma py_len_ascii: "ascii s \<Longrightarrow> py_len s = length s"
proof -
  assume "ascii s"
  then have "filter (\<lambda>c. \<not> is_cont c) s = s"
    by (auto simp: ascii_def is_cont_def filter_id_conv)
  then show ?thesis by (simp add: py_len_def)
qed

text \<open>Well-formed text splits at every ASCII character.\<close>

lemma utf8_valid_split: "x < 128 \<Longrightarrow> utf8_valid (a @ x # r) \<longleftrightarrow> utf8_valid a \<and> utf8_valid r"
proof (induction a rule: utf8_valid.induct)
  case (2 n s)
  show ?case
  proof (cases s)
    case (Cons b s1)
    note c1 = Cons
    show ?thesis
    proof (cases s1)
      case (Cons c s2)
      show ?thesis using 2 by (cases s2) (auto simp: c1 Cons split: list.splits)
    qed (use 2 in \<open>auto simp: c1 split: list.splits\<close>)
  qed (use 2 in \<open>auto split: list.splits\<close>)
qed simp

lemma ascii_append [simp]: "ascii (s @ t) \<longleftrightarrow> ascii s \<and> ascii t"
  by (auto simp: ascii_def)

lemma ascii_Cons [simp]: "ascii (c # s) \<longleftrightarrow> (of_char c :: nat) < 128 \<and> ascii s"
  by (auto simp: ascii_def)

lemma ascii_Nil [simp]: "ascii []"
  by (simp add: ascii_def)

text \<open>A file in text mode: the line ends CR and CR LF read as LF.\<close>

fun universal_newlines :: "string \<Rightarrow> string" where
  "universal_newlines (c # d # s) =
     (if c = CHR 0x0D then CHR 0x0A # (if d = CHR 0x0A then universal_newlines s else universal_newlines (d # s))
      else c # universal_newlines (d # s))"
| "universal_newlines [c] = [if c = CHR 0x0D then CHR 0x0A else c]"
| "universal_newlines [] = []"

lemma universal_newlines_append:
  "c \<noteq> CHR 0x0D \<Longrightarrow> c \<noteq> CHR 0x0A \<Longrightarrow> universal_newlines (a @ c # b) = universal_newlines a @ c # universal_newlines b"
proof (induction a rule: universal_newlines.induct)
  case 3
  then show ?case by (cases b) auto
qed (cases b; auto)+

lemma universal_newlines_plain:
  "list_all (\<lambda>c. c \<noteq> CHR 0x0D \<and> c \<noteq> CHR 0x0A) m \<Longrightarrow> universal_newlines (a @ m @ b) = universal_newlines a @ m @ universal_newlines b"
  if "m \<noteq> []"
  using that
proof (induction m arbitrary: a)
  case (Cons c m)
  show ?case
  proof (cases "m = []")
    case False
    have "universal_newlines (a @ c # m @ b) = universal_newlines a @ c # universal_newlines ([] @ m @ b)"
      using Cons.prems universal_newlines_append [of c a "m @ b"] by simp
    then show ?thesis using Cons.IH [of "[]"] Cons.prems False by simp
  qed (use Cons.prems universal_newlines_append [of c a b] in simp)
qed simp

lemma length_universal_newlines: "length (universal_newlines s) \<le> length s"
  by (induction s rule: universal_newlines.induct) auto

lemma ascii_universal_newlines: "ascii s \<Longrightarrow> ascii (universal_newlines s)"
  by (induction s rule: universal_newlines.induct) auto

lemma ascii_dec_int: "ascii (dec_int i)"
  by (auto simp: ascii_def digit_char_def dest!: dec_int_chars)

lemma py_take_ascii: "ascii s \<Longrightarrow> py_take n s = take n s"
proof (induction n s rule: py_take.induct)
  case (2 n c s)
  then show ?case by (auto simp: is_cont_def Let_def split: nat.splits)
qed simp

end
