(* ===== verification/PyValues.thy ===== *)
theory PyValues
  imports PyStrings
begin

text \<open>
  The dynamically typed values that reach the code as parsed JSON: request bodies, token
  claims, policy entries, stored records, audit events. Each primitive the source applies
  to such a value (\<open>bool(x)\<close>, \<open>isinstance(x, (int, float))\<close>, \<open><\<close>, \<open>in\<close>,
  \<open>int(x)\<close>, \<open>d.get(k)\<close>, \<open>d[k]\<close>) is a function here, and raises where Python
  raises. A \<open>bool\<close> is a number, as it is in Python, and the floats carry the infinities
  and NaN, which the JSON parser of the standard library accepts.
\<close>

datatype pyfloat = Fin real | PosInf | NegInf | NaN

datatype pyval =
    PyNone
  | PyBool bool
  | PyInt int
  | PyFloat pyfloat
  | PyStr string
  | PyList "pyval list"
  | PyDict "(string \<times> pyval) list"

type_synonym dict = "(string, pyval) odict"

section \<open>Numbers\<close>

fun flt_lt :: "pyfloat \<Rightarrow> pyfloat \<Rightarrow> bool" where
  "flt_lt (Fin x) (Fin y) = (x < y)"
| "flt_lt NegInf (Fin y) = True"
| "flt_lt NegInf PosInf = True"
| "flt_lt (Fin x) PosInf = True"
| "flt_lt _ _ = False"

fun flt_eq :: "pyfloat \<Rightarrow> pyfloat \<Rightarrow> bool" where
  "flt_eq (Fin x) (Fin y) = (x = y)"
| "flt_eq PosInf PosInf = True"
| "flt_eq NegInf NegInf = True"
| "flt_eq _ _ = False"

definition flt_le :: "pyfloat \<Rightarrow> pyfloat \<Rightarrow> bool" where
  "flt_le x y = (flt_lt x y \<or> flt_eq x y)"

text \<open>\<open>x - y\<close> where \<open>x\<close> is finite.\<close>

fun flt_minus_from :: "real \<Rightarrow> pyfloat \<Rightarrow> pyfloat" where
  "flt_minus_from x (Fin y) = Fin (x - y)"
| "flt_minus_from x PosInf = NegInf"
| "flt_minus_from x NegInf = PosInf"
| "flt_minus_from x NaN = NaN"

text \<open>The numeric value of an object for which \<open>isinstance(x, (int, float))\<close> holds.\<close>

fun num_of :: "pyval \<Rightarrow> pyfloat option" where
  "num_of (PyBool b) = Some (Fin (if b then 1 else 0))"
| "num_of (PyInt i) = Some (Fin (of_int i))"
| "num_of (PyFloat f) = Some f"
| "num_of _ = None"

definition is_number :: "pyval \<Rightarrow> bool" where
  "is_number v \<longleftrightarrow> num_of v \<noteq> None"

text \<open>Comparisons in which one side is a number: anything else is a \<open>TypeError\<close>.\<close>

definition num_lt :: "pyval \<Rightarrow> pyval \<Rightarrow> bool res" where
  "num_lt a b = (case (num_of a, num_of b) of
     (Some x, Some y) \<Rightarrow> Inr (flt_lt x y) | _ \<Rightarrow> Inl TypeError)"

definition num_le :: "pyval \<Rightarrow> pyval \<Rightarrow> bool res" where
  "num_le a b = (case (num_of a, num_of b) of
     (Some x, Some y) \<Rightarrow> Inr (flt_le x y) | _ \<Rightarrow> Inl TypeError)"

definition trunc :: "real \<Rightarrow> int" where
  "trunc x = (if 0 \<le> x then \<lfloor>x\<rfloor> else \<lceil>x\<rceil>)"

fun int_of_float :: "pyfloat \<Rightarrow> int res" where
  "int_of_float (Fin x) = Inr (trunc x)"
| "int_of_float NaN = Inl ValueError"
| "int_of_float _ = Inl OverflowError"

text \<open>\<open>int(v)\<close>.\<close>

fun int_of :: "pyval \<Rightarrow> int res" where
  "int_of (PyBool b) = Inr (if b then 1 else 0)"
| "int_of (PyInt i) = Inr i"
| "int_of (PyFloat f) = int_of_float f"
| "int_of (PyStr s) = (case py_int s of None \<Rightarrow> Inl ValueError | Some i \<Rightarrow> Inr i)"
| "int_of _ = Inl TypeError"

section \<open>Truth, equality, iteration, membership\<close>

fun py_truth :: "pyval \<Rightarrow> bool" where
  "py_truth PyNone = False"
| "py_truth (PyBool b) = b"
| "py_truth (PyInt i) = (i \<noteq> 0)"
| "py_truth (PyFloat f) = (f \<noteq> Fin 0)"
| "py_truth (PyStr s) = (s \<noteq> [])"
| "py_truth (PyList vs) = (vs \<noteq> [])"
| "py_truth (PyDict d) = (d \<noteq> [])"

text \<open>\<open>a or b\<close>.\<close>

definition py_or :: "pyval \<Rightarrow> pyval \<Rightarrow> pyval" where
  "py_or a b = (if py_truth a then a else b)"

text \<open>Equality of hashable values: numbers by value, everything else by constructor.\<close>

definition py_eq :: "pyval \<Rightarrow> pyval \<Rightarrow> bool" where
  "py_eq a b = (case (num_of a, num_of b) of
     (Some x, Some y) \<Rightarrow> flt_eq x y | _ \<Rightarrow> a = b)"

fun hashable :: "pyval \<Rightarrow> bool" where
  "hashable (PyList _) = False"
| "hashable (PyDict _) = False"
| "hashable _ = True"

text \<open>
  The elements \<open>for x in v\<close> visits. A string yields its characters: one byte each, which
  is its code point for ASCII strings.
\<close>

fun py_iter :: "pyval \<Rightarrow> pyval list res" where
  "py_iter (PyList vs) = Inr vs"
| "py_iter (PyStr s) = Inr (map (\<lambda>c. PyStr [c]) s)"
| "py_iter (PyDict d) = Inr (map (\<lambda>(k, _). PyStr k) d)"
| "py_iter _ = Inl TypeError"

text \<open>\<open>set(v)\<close>: every element must be hashable.\<close>

definition py_set :: "pyval \<Rightarrow> pyval list res" where
  "py_set v = ebind (py_iter v) (\<lambda>vs. if list_all hashable vs then Inr vs else Inl TypeError)"

text \<open>\<open>m in s\<close> for a set \<open>s\<close>.\<close>

definition set_has :: "pyval list \<Rightarrow> pyval \<Rightarrow> bool res" where
  "set_has vs m = (if hashable m then Inr (list_ex (py_eq m) vs) else Inl TypeError)"

section \<open>Dictionaries\<close>

definition dget :: "dict \<Rightarrow> string \<Rightarrow> pyval" where
  "dget d k = (case map_of d k of None \<Rightarrow> PyNone | Some v \<Rightarrow> v)"

definition dget_or :: "dict \<Rightarrow> string \<Rightarrow> pyval \<Rightarrow> pyval" where
  "dget_or d k dflt = (case map_of d k of None \<Rightarrow> dflt | Some v \<Rightarrow> v)"

text \<open>\<open>d[k]\<close>.\<close>

definition dreq :: "dict \<Rightarrow> string \<Rightarrow> pyval res" where
  "dreq d k = (case map_of d k of None \<Rightarrow> Inl (KeyError k) | Some v \<Rightarrow> Inr v)"

abbreviation dset :: "string \<Rightarrow> pyval \<Rightarrow> dict \<Rightarrow> dict" where
  "dset \<equiv> AList.update"

text \<open>\<open>d.update(other)\<close>.\<close>

definition dupdate :: "dict \<Rightarrow> dict \<Rightarrow> dict" where
  "dupdate d other = fold (\<lambda>(k, v) e. dset k v e) other d"

definition as_dict :: "pyval \<Rightarrow> dict res" where
  "as_dict v = (case v of PyDict d \<Rightarrow> Inr d | _ \<Rightarrow> Inl AttributeError)"

lemma dget_dset [dict_simps]: "dget (dset k v d) k' = (if k' = k then v else dget d k')"
  by (simp add: dget_def dict_simps)

lemma dget_or_dset [dict_simps]:
  "dget_or (dset k v d) k' dflt = (if k' = k then v else dget_or d k' dflt)"
  by (simp add: dget_or_def dict_simps)

lemma dreq_dset [dict_simps]:
  "dreq (dset k v d) k' = (if k' = k then Inr v else dreq d k')"
  by (simp add: dreq_def dict_simps)

lemma dget_Cons [dict_simps]: "dget ((k, v) # d) k' = (if k' = k then v else dget d k')"
  by (simp add: dget_def)

lemma dget_Nil [dict_simps]: "dget [] k = PyNone"
  by (simp add: dget_def)

lemma dget_or_Cons [dict_simps]:
  "dget_or ((k, v) # d) k' dflt = (if k' = k then v else dget_or d k' dflt)"
  by (simp add: dget_or_def)

lemma dget_or_Nil [dict_simps]: "dget_or [] k dflt = dflt"
  by (simp add: dget_or_def)

lemma dreq_Cons [dict_simps]:
  "dreq ((k, v) # d) k' = (if k' = k then Inr v else dreq d k')"
  by (simp add: dreq_def)

lemma dreq_Nil [dict_simps]: "dreq [] k = Inl (KeyError k)"
  by (simp add: dreq_def)

lemma dget_None_if: "map_of d k = None \<Longrightarrow> dget d k = PyNone"
  by (simp add: dget_def)

lemma dget_Some_if: "map_of d k = Some v \<Longrightarrow> dget d k = v"
  by (simp add: dget_def)

lemma dreq_eq_Inr: "dreq d k = Inr v \<longleftrightarrow> map_of d k = Some v"
  by (auto simp: dreq_def split: option.splits)

lemma map_of_dupdate:
  "odict_ok other \<Longrightarrow>
   map_of (dupdate d other) k = (case map_of other k of None \<Rightarrow> map_of d k | Some v \<Rightarrow> Some v)"
proof (induction other arbitrary: d)
  case Nil
  then show ?case by (simp add: dupdate_def)
next
  case (Cons x other)
  obtain a b where x: "x = (a, b)" by (cases x)
  have a: "map_of other a = None"
    using Cons.prems by (simp add: x map_of_eq_None_iff)
  have "map_of (dupdate d (x # other)) k = map_of (dupdate (dset a b d) other) k"
    by (simp add: dupdate_def x)
  also have "\<dots> = (case map_of other k of None \<Rightarrow> map_of (dset a b d) k | Some v \<Rightarrow> Some v)"
    using Cons by simp
  finally show ?case
    using a by (auto simp: x dict_simps split: option.splits)
qed

lemma py_eq_str [simp]: "py_eq v (PyStr s) \<longleftrightarrow> v = PyStr s" "py_eq (PyStr s) v \<longleftrightarrow> v = PyStr s"
  by (auto simp: py_eq_def split: option.splits)

lemma py_truth_not_None: "py_truth v \<Longrightarrow> v \<noteq> PyNone"
  by auto

lemma flt_lt_trans: "flt_lt x y \<Longrightarrow> flt_lt y z \<Longrightarrow> flt_lt x z"
  by (cases x; cases y; cases z) auto

lemma flt_lt_irrefl [simp]: "\<not> flt_lt x x"
  by (cases x) auto

lemma num_lt_eq_Inr:
  "num_lt a b = Inr c \<longleftrightarrow> (\<exists>x y. num_of a = Some x \<and> num_of b = Some y \<and> c = flt_lt x y)"
  by (auto simp: num_lt_def split: option.splits)

lemma num_lt_total: "is_number a \<Longrightarrow> is_number b \<Longrightarrow> \<exists>c. num_lt a b = Inr c"
  by (auto simp: num_lt_def is_number_def)

end
