(* ===== verification/Config.thy ===== *)
theory Config
  imports PyValues
begin

text \<open>
  \<open>common/config.py\<close>: the settings every component reads. The module reads them from the
  environment once, at import; here \<open>config_of_env\<close> maps an environment to a record,
  and the components take the record as an argument. The paths under the project root are
  constants of the components that open them.
\<close>

type_synonym env = "string \<rightharpoonup> string"

text \<open>\<open>os.environ.get(name, default)\<close>.\<close>

definition env_get :: "env \<Rightarrow> string \<Rightarrow> string \<Rightarrow> string" where
  "env_get e k dflt = (case e k of None \<Rightarrow> dflt | Some v \<Rightarrow> v)"

text \<open>\<open>int(os.environ.get(name, default))\<close>, a \<open>ValueError\<close> at import if it is no number.\<close>

definition env_int :: "env \<Rightarrow> string \<Rightarrow> string \<Rightarrow> int res" where
  "env_int e k dflt = (case py_int (env_get e k dflt) of None \<Rightarrow> Inl ValueError | Some i \<Rightarrow> Inr i)"

text \<open>\<open>os.environ.get(name, default) not in ("0", "false", "False")\<close>.\<close>

definition env_flag :: "env \<Rightarrow> string \<Rightarrow> string \<Rightarrow> bool" where
  "env_flag e k dflt = (env_get e k dflt \<notin> {''0'', ''false'', ''False''})"

text \<open>Where each service is dialled and where it listens.\<close>

record network =
  idp_addr :: "string \<times> int \<times> string"
  gateway_addr :: "string \<times> int \<times> string"
  docs_addr :: "string \<times> int \<times> string"
  finance_addr :: "string \<times> int \<times> string"
  extra_sans :: "string list"

text \<open>The dial address, the port and the bind address of one service.\<close>

definition addr_of_env :: "env \<Rightarrow> string \<Rightarrow> string \<Rightarrow> (string \<times> int \<times> string) res" where
  "addr_of_env e svc port =
     (let host = env_get e (''ZTNA_'' @ svc @ ''_HOST'') ''127.0.0.1'' in
      ebind (env_int e (''ZTNA_'' @ svc @ ''_PORT'') port) (\<lambda>p.
        Inr (host, p, env_get e (''ZTNA_'' @ svc @ ''_BIND_HOST'') host)))"

definition network_of_env :: "env \<Rightarrow> network res" where
  "network_of_env e =
     ebind (addr_of_env e ''IDP'' ''9000'') (\<lambda>idp.
     ebind (addr_of_env e ''GATEWAY'' ''9200'') (\<lambda>gw.
     ebind (addr_of_env e ''DOCS_APP'' ''9101'') (\<lambda>docs.
     ebind (addr_of_env e ''FINANCE_APP'' ''9102'') (\<lambda>fin.
       Inr \<lparr>idp_addr = idp, gateway_addr = gw, docs_addr = docs, finance_addr = fin,
            extra_sans = filter (\<lambda>x. x \<noteq> []) (map strip (split_on (CHR '','') (env_get e ''ZTNA_CERT_SANS'' [])))\<rparr>))))"

record config =
  token_ttl :: int
  login_max_attempts :: int
  login_window :: int
  login_lockout :: int
  mtls_enabled :: bool
  require_device_approval :: bool
  token_binding_enabled :: bool
  proof_max_age :: int
  step_up_enabled :: bool
  cert_expiry_warn_days :: int
  state_backend :: string
  auth_backend :: string
  shutdown_grace :: int
  docs_port :: int
  finance_port :: int
  docs_host :: string
  finance_host :: string
  docs_bind_host :: string
  finance_bind_host :: string
  ldap_server :: string
  ldap_base_dn :: string
  ldap_user_dn_template :: string
  ldap_role_attribute :: string
  ca_validity_days :: int
  service_cert_validity_days :: int
  json_logs :: bool
  log_level_name :: string

definition config_of_env :: "env \<Rightarrow> config res" where
  "config_of_env e =
     ebind (network_of_env e) (\<lambda>net.
     ebind (env_int e ''ZTNA_TOKEN_TTL_SECONDS'' ''45'') (\<lambda>ttl.
     ebind (env_int e ''ZTNA_LOGIN_MAX_ATTEMPTS'' ''5'') (\<lambda>attempts.
     ebind (env_int e ''ZTNA_LOGIN_WINDOW_SECONDS'' ''300'') (\<lambda>window.
     ebind (env_int e ''ZTNA_LOGIN_LOCKOUT_SECONDS'' ''300'') (\<lambda>lockout.
     ebind (env_int e ''ZTNA_PROOF_MAX_AGE_SECONDS'' ''30'') (\<lambda>age.
     ebind (env_int e ''ZTNA_CA_VALIDITY_DAYS'' ''825'') (\<lambda>ca.
     ebind (env_int e ''ZTNA_SERVICE_CERT_VALIDITY_DAYS'' ''90'') (\<lambda>svc.
     ebind (env_int e ''ZTNA_CERT_EXPIRY_WARN_DAYS'' ''21'') (\<lambda>warn.
     ebind (env_int e ''ZTNA_SHUTDOWN_GRACE_SECONDS'' ''10'') (\<lambda>grace.
     Inr \<lparr>
       token_ttl = ttl,
       login_max_attempts = attempts,
       login_window = window,
       login_lockout = lockout,
       mtls_enabled = env_flag e ''ZTNA_MTLS_ENABLED'' ''1'',
       require_device_approval = env_flag e ''ZTNA_REQUIRE_DEVICE_APPROVAL'' ''1'',
       token_binding_enabled = env_flag e ''ZTNA_TOKEN_BINDING'' ''1'',
       proof_max_age = age,
       step_up_enabled = env_flag e ''ZTNA_STEP_UP'' ''1'',
       cert_expiry_warn_days = warn,
       state_backend = env_get e ''ZTNA_STATE_BACKEND'' ''file'',
       auth_backend = env_get e ''ZTNA_AUTH_BACKEND'' ''local'',
       shutdown_grace = grace,
       docs_port = fst (snd (docs_addr net)),
       finance_port = fst (snd (finance_addr net)),
       docs_host = fst (docs_addr net),
       finance_host = fst (finance_addr net),
       docs_bind_host = snd (snd (docs_addr net)),
       finance_bind_host = snd (snd (finance_addr net)),
       ldap_server = env_get e ''ZTNA_LDAP_SERVER'' ''ldaps://dc.example.local'',
       ldap_base_dn = env_get e ''ZTNA_LDAP_BASE_DN'' ''dc=example,dc=local'',
       ldap_user_dn_template = env_get e ''ZTNA_LDAP_USER_DN_TEMPLATE''
         ''cn={username},ou=Users,dc=example,dc=local'',
       ldap_role_attribute = env_get e ''ZTNA_LDAP_ROLE_ATTRIBUTE'' ''memberOf'',
       ca_validity_days = ca,
       service_cert_validity_days = svc,
       json_logs = env_flag e ''ZTNA_JSON_LOGS'' ''0'',
       log_level_name = upper (env_get e ''ZTNA_LOG_LEVEL'' ''INFO'')
     \<rparr>))))))))))"

text \<open>The directory groups that name a role.\<close>

definition LDAP_GROUP_ROLE_MAP :: "(string \<times> string) list" where
  "LDAP_GROUP_ROLE_MAP = [
     (''CN=ZTNA-Interns,OU=Groups,DC=example,DC=local'', ''intern''),
     (''CN=ZTNA-Employees,OU=Groups,DC=example,DC=local'', ''employee''),
     (''CN=ZTNA-FinanceManagers,OU=Groups,DC=example,DC=local'', ''finance_manager''),
     (''CN=ZTNA-Admins,OU=Groups,DC=example,DC=local'', ''admin'')]"

text \<open>The settings of an empty environment, as literals.\<close>

definition default_config :: config where
  "default_config = \<lparr>
     token_ttl = 45, login_max_attempts = 5, login_window = 300, login_lockout = 300,
     mtls_enabled = True, require_device_approval = True, token_binding_enabled = True,
     proof_max_age = 30, step_up_enabled = True, cert_expiry_warn_days = 21,
     state_backend = ''file'', auth_backend = ''local'', shutdown_grace = 10,
     docs_port = 9101, finance_port = 9102,
     docs_host = ''127.0.0.1'', finance_host = ''127.0.0.1'',
     docs_bind_host = ''127.0.0.1'', finance_bind_host = ''127.0.0.1'',
     ldap_server = ''ldaps://dc.example.local'', ldap_base_dn = ''dc=example,dc=local'',
     ldap_user_dn_template = ''cn={username},ou=Users,dc=example,dc=local'',
     ldap_role_attribute = ''memberOf'', ca_validity_days = 825, service_cert_validity_days = 90,
     json_logs = False, log_level_name = ''INFO''\<rparr>"

lemma default_config_is_empty_env: "config_of_env Map.empty = Inr default_config"
proof -
  have i: "env_int Map.empty k (dec_int i) = Inr i" for k i
    by (simp add: env_int_def env_get_def py_int_dec_int)
  have d: "dec_int 9101 = ''9101''" "dec_int 9102 = ''9102''" "dec_int 45 = ''45''"
    "dec_int 5 = ''5''" "dec_int 300 = ''300''" "dec_int 30 = ''30''" "dec_int 21 = ''21''"
    "dec_int 10 = ''10''" "dec_int 9000 = ''9000''" "dec_int 9200 = ''9200''" "dec_int 825 = ''825''" "dec_int 90 = ''90''"
    by (simp_all add: dec_int_def dec_nat.simps)
  note n = i [of _ 9101] i [of _ 9102] i [of _ 45] i [of _ 5] i [of _ 300] i [of _ 30]
    i [of _ 21] i [of _ 10] i [of _ 9000] i [of _ 9200] i [of _ 825] i [of _ 90]
  have u: "upper ''INFO'' = ''INFO''" by (simp add: upper_def to_upper_def is_lower_def)
  show ?thesis
    by (simp add: config_of_env_def network_of_env_def addr_of_env_def n [unfolded d] u
        default_config_def env_flag_def env_get_def Let_def)
qed

text \<open>\<open>ROLE_LEVELS\<close> and \<open>RESOURCES\<close>.\<close>

definition ROLE_LEVELS :: "(string \<times> int) list" where
  "ROLE_LEVELS = [(''intern'', 1), (''employee'', 2), (''finance_manager'', 3), (''admin'', 4)]"

definition RESOURCES :: "config \<Rightarrow> (string \<times> dict) list" where
  "RESOURCES cfg = [
     (''docs-app'', [
        (''host'', PyStr (docs_host cfg)),
        (''bind_host'', PyStr (docs_bind_host cfg)),
        (''port'', PyInt (docs_port cfg)),
        (''sensitivity'', PyStr ''low''),
        (''min_role_level'', PyInt 1),
        (''min_device_trust'', PyInt 50),
        (''require_attestation'', PyBool False),
        (''require_mtls'', PyBool True)]),
     (''finance-app'', [
        (''host'', PyStr (finance_host cfg)),
        (''bind_host'', PyStr (finance_bind_host cfg)),
        (''port'', PyInt (finance_port cfg)),
        (''sensitivity'', PyStr ''high''),
        (''min_role_level'', PyInt 3),
        (''min_device_trust'', PyInt 80),
        (''require_attestation'', PyBool True),
        (''require_mtls'', PyBool True)])]"

text \<open>\<open>ROLE_LEVELS.get(role, 0)\<close>: an unhashable role is a \<open>TypeError\<close>.\<close>

definition role_level :: "pyval \<Rightarrow> int res" where
  "role_level role =
     (case role of
        PyStr s \<Rightarrow> Inr (case map_of ROLE_LEVELS s of None \<Rightarrow> 0 | Some l \<Rightarrow> l)
      | _ \<Rightarrow> if hashable role then Inr 0 else Inl TypeError)"

lemma role_level_simps [simp]:
  "role_level (PyStr ''intern'') = Inr 1" "role_level (PyStr ''employee'') = Inr 2"
  "role_level (PyStr ''finance_manager'') = Inr 3" "role_level (PyStr ''admin'') = Inr 4"
  by (simp_all add: role_level_def ROLE_LEVELS_def)

end
