(* ===== verification/RateLimiter.thy ===== *)
theory RateLimiter
  imports Config
begin

text \<open>
  \<open>common/rate_limiter.py\<close>: login failure counting and lockout, keyed on the user name.

  The module state \<open>_state\<close> is a dictionary from user names to entries; \<open>_get\<close> inserts
  a fresh entry on first use, as \<open>setdefault\<close> does. Each operation reads the clock at
  most once, and takes that reading as its argument \<open>now\<close>.

  The second half states what the limiter is for: whatever attempts are made one after
  the other, no window of \<open>min(LOGIN_WINDOW_SECONDS, LOGIN_LOCKOUT_SECONDS)\<close> seconds
  admits more than \<open>LOGIN_MAX_ATTEMPTS\<close> wrong guesses at one account; and what it does
  not give: attempts that overlap all pass the check before any of them is counted.
\<close>

section \<open>The module\<close>

record rl_entry =
  failures :: "time list"
  locked_until :: "time option"

type_synonym limiter = "(string, rl_entry) odict"

definition fresh_entry :: rl_entry where
  "fresh_entry = \<lparr>failures = [], locked_until = None\<rparr>"

definition rl_get :: "string \<Rightarrow> limiter \<Rightarrow> rl_entry \<times> limiter" where
  "rl_get u s = (case map_of s u of
     Some e \<Rightarrow> (e, s)
   | None \<Rightarrow> (fresh_entry, AList.update u fresh_entry s))"

definition is_locked_out :: "string \<Rightarrow> time \<Rightarrow> limiter \<Rightarrow> (bool \<times> time) \<times> limiter" where
  "is_locked_out u now s =
     (let (e, s1) = rl_get u s in
      case locked_until e of
        None \<Rightarrow> ((False, 0), s1)
      | Some l \<Rightarrow>
          if now \<ge> l
          then ((False, 0), AList.update u (e\<lparr>locked_until := None, failures := []\<rparr>) s1)
          else ((True, l - now), s1))"

definition record_failure :: "config \<Rightarrow> string \<Rightarrow> time \<Rightarrow> limiter \<Rightarrow> limiter" where
  "record_failure cfg u now s =
     (let (e, s1) = rl_get u s;
          fs = filter (\<lambda>t. now - t < of_int (login_window cfg)) (failures e) @ [now];
          e1 = e\<lparr>failures := fs\<rparr>;
          e2 = (if int (length fs) \<ge> login_max_attempts cfg
                then e1\<lparr>locked_until := Some (now + of_int (login_lockout cfg))\<rparr> else e1)
      in AList.update u e2 s1)"

definition record_success :: "string \<Rightarrow> limiter \<Rightarrow> limiter" where
  "record_success u s =
     (let (e, s1) = rl_get u s
      in AList.update u (e\<lparr>failures := [], locked_until := None\<rparr>) s1)"

definition reset_all :: "limiter \<Rightarrow> limiter" where
  "reset_all s = []"

section \<open>One account\<close>

text \<open>The entry that the code sees for a user, and what each operation does to it.\<close>

definition entry_of :: "limiter \<Rightarrow> string \<Rightarrow> rl_entry" where
  "entry_of s u = (case map_of s u of None \<Rightarrow> fresh_entry | Some e \<Rightarrow> e)"

definition entry_locked :: "time \<Rightarrow> rl_entry \<Rightarrow> bool" where
  "entry_locked now e = (case locked_until e of None \<Rightarrow> False | Some l \<Rightarrow> now < l)"

definition entry_check :: "time \<Rightarrow> rl_entry \<Rightarrow> rl_entry" where
  "entry_check now e = (case locked_until e of
     None \<Rightarrow> e | Some l \<Rightarrow> if now \<ge> l then fresh_entry else e)"

definition entry_fail :: "config \<Rightarrow> time \<Rightarrow> rl_entry \<Rightarrow> rl_entry" where
  "entry_fail cfg now e =
     (let fs = filter (\<lambda>t. now - t < of_int (login_window cfg)) (failures e) @ [now]
      in e\<lparr>failures := fs,
           locked_until := (if int (length fs) \<ge> login_max_attempts cfg
                            then Some (now + of_int (login_lockout cfg)) else locked_until e)\<rparr>)"

lemma entry_of_rl_get [simp]:
  "fst (rl_get u s) = entry_of s u" "entry_of (snd (rl_get u s)) u' = entry_of s u'"
  by (auto simp: rl_get_def entry_of_def dict_simps split: option.splits)

lemma entry_of_update [simp]:
  "entry_of (AList.update u e s) u' = (if u' = u then e else entry_of s u')"
  by (simp add: entry_of_def dict_simps)

lemma is_locked_out_result:
  "fst (is_locked_out u now s) =
     (entry_locked now (entry_of s u),
      if entry_locked now (entry_of s u) then the (locked_until (entry_of s u)) - now else 0)"
  by (auto simp: is_locked_out_def entry_locked_def Let_def split_beta split: option.splits)

lemma entry_of_is_locked_out:
  "entry_of (snd (is_locked_out u now s)) u' =
     (if u' = u then entry_check now (entry_of s u) else entry_of s u')"
  by (auto simp: is_locked_out_def entry_check_def fresh_entry_def Let_def split_beta
      split: option.splits)

lemma entry_of_record_failure:
  "entry_of (record_failure cfg u now s) u' =
     (if u' = u then entry_fail cfg now (entry_of s u) else entry_of s u')"
  by (simp add: record_failure_def entry_fail_def Let_def split_beta)

lemma entry_of_record_success:
  "entry_of (record_success u s) u' = (if u' = u then fresh_entry else entry_of s u')"
  by (simp add: record_success_def fresh_entry_def Let_def split_beta)

lemma entry_of_reset_all [simp]: "entry_of (reset_all s) u = fresh_entry"
  by (simp add: reset_all_def entry_of_def)

section \<open>State indexed by a key\<close>

text \<open>
  A contract for state that is split by a key: an operation on one key acts on that key's
  entry by a local step and leaves the entries of the others as they are. What a sequence
  of operations does to one key is then what the operations on that key do.
\<close>

locale keyed_machine =
  fixes look :: "'s \<Rightarrow> 'k \<Rightarrow> 'e"
    and act :: "'k \<Rightarrow> 'a \<Rightarrow> 's \<Rightarrow> 's"
    and local_step :: "'a \<Rightarrow> 'e \<Rightarrow> 'e"
  assumes look_act: "look (act k a s) k' = (if k' = k then local_step a (look s k) else look s k')"
begin

lemma look_run:
  "look (fold (\<lambda>(k, a). act k a) evs s) k =
   fold (\<lambda>(k', a). local_step a) (filter (\<lambda>(k', a). k' = k) evs) (look s k)"
  by (induction evs arbitrary: s) (auto simp: look_act)

lemma look_run_other:
  "\<forall>(k', a) \<in> set evs. k' \<noteq> k \<Longrightarrow> look (fold (\<lambda>(k, a). act k a) evs s) k = look s k"
  by (subst look_run) (metis (mono_tags, lifting) case_prod_conv filter_False fold_simps(1) surj_pair split_beta)

lemma look_run_mixed:
  assumes "filter (\<lambda>(k', a). k' = k) evs = filter (\<lambda>(k', a). k' = k) evs'" and "look s k = look s' k"
  shows "look (fold (\<lambda>(k, a). act k a) evs s) k = look (fold (\<lambda>(k, a). act k a) evs' s') k"
  by (simp add: look_run assms)

end

datatype rl_event = Check time | Failure time | Success

fun limiter_event :: "config \<Rightarrow> string \<Rightarrow> rl_event \<Rightarrow> limiter \<Rightarrow> limiter" where
  "limiter_event cfg u (Check t) s = snd (is_locked_out u t s)"
| "limiter_event cfg u (Failure t) s = record_failure cfg u t s"
| "limiter_event cfg u Success s = record_success u s"

fun entry_event :: "config \<Rightarrow> rl_event \<Rightarrow> rl_entry \<Rightarrow> rl_entry" where
  "entry_event cfg (Check t) e = entry_check t e"
| "entry_event cfg (Failure t) e = entry_fail cfg t e"
| "entry_event cfg Success e = fresh_entry"

interpretation rl: keyed_machine entry_of "limiter_event cfg" "entry_event cfg" for cfg
proof unfold_locales
  fix k a s k'
  show "entry_of (limiter_event cfg k a s) k' =
      (if k' = k then entry_event cfg a (entry_of s k) else entry_of s k')"
    by (cases a) (simp_all add: entry_of_is_locked_out entry_of_record_failure entry_of_record_success)
qed

section \<open>Reachable entries\<close>

text \<open>
  An account is locked only after \<open>LOGIN_MAX_ATTEMPTS\<close> failures: an entry without a lock
  always holds fewer. Every operation keeps this, in any order and at any times.
\<close>

definition entry_ok :: "config \<Rightarrow> rl_entry \<Rightarrow> bool" where
  "entry_ok cfg e \<longleftrightarrow>
     (locked_until e = None \<longrightarrow> int (length (failures e)) < login_max_attempts cfg)"

lemma entry_ok_fresh: "0 < login_max_attempts cfg \<Longrightarrow> entry_ok cfg fresh_entry"
  by (simp add: entry_ok_def fresh_entry_def)

lemma entry_ok_event:
  "0 < login_max_attempts cfg \<Longrightarrow> entry_ok cfg e \<Longrightarrow> entry_ok cfg (entry_event cfg ev e)"
  by (cases ev)
    (auto simp: entry_ok_def entry_check_def entry_fail_def fresh_entry_def Let_def
      split: option.splits if_splits)

lemma entry_ok_fold:
  "0 < login_max_attempts cfg \<Longrightarrow> entry_ok cfg e \<Longrightarrow>
   entry_ok cfg (fold (\<lambda>(k, ev). entry_event cfg ev) evs e)"
proof (induction evs arbitrary: e)
  case (Cons x evs)
  then show ?case by (cases x) (simp add: entry_ok_event)
qed simp

section \<open>The bound on guesses\<close>

text \<open>
  One wrong guess as \<open>handle_login\<close> makes it: \<open>is_locked_out\<close> at its first reading of the
  clock, and, unless that refuses, \<open>record_failure\<close> at a later one. \<open>guess_run\<close> makes a
  list of guesses at any accounts one after the other and returns those that were admitted
  to the password check, each with the time it was counted.
\<close>

fun guess_run ::
  "config \<Rightarrow> (string \<times> time \<times> time) list \<Rightarrow> limiter \<Rightarrow> (string \<times> time) list \<times> limiter" where
  "guess_run cfg [] s = ([], s)"
| "guess_run cfg ((u, tc, tr) # gs) s =
     (let (r, s1) = is_locked_out u tc s in
      if fst r then guess_run cfg gs s1
      else let (adm, s2) = guess_run cfg gs (record_failure cfg u tr s1) in ((u, tr) # adm, s2))"

definition chronological :: "(string \<times> time \<times> time) list \<Rightarrow> bool" where
  "chronological gs \<longleftrightarrow> sorted (concat (map (\<lambda>(u, tc, tr). [tc, tr]) gs))"

definition guess_window :: "config \<Rightarrow> time" where
  "guess_window cfg = min (of_int (login_window cfg)) (of_int (login_lockout cfg))"

definition limits_positive :: "config \<Rightarrow> bool" where
  "limits_positive cfg \<longleftrightarrow>
     0 < login_max_attempts cfg \<and> 0 < login_window cfg \<and> 0 < login_lockout cfg"

text \<open>
  The invariant of one account between guesses: \<open>h\<close> are the times of the guesses admitted so
  far, \<open>now\<close> is not after the next reading of the clock.
\<close>

definition guard_inv :: "config \<Rightarrow> time \<Rightarrow> time list \<Rightarrow> rl_entry \<Rightarrow> bool" where
  "guard_inv cfg now h e \<longleftrightarrow>
     int (length (failures e)) \<le> login_max_attempts cfg \<and>
     entry_ok cfg e \<and>
     (\<forall>a \<in> set h. a \<le> now) \<and>
     (\<forall>l. locked_until e = Some l \<longrightarrow> (\<forall>a \<in> set h. a + of_int (login_lockout cfg) \<le> l)) \<and>
     filter (\<lambda>a. now - guess_window cfg < a) h = filter (\<lambda>a. now - guess_window cfg < a) (failures e)"

lemma guard_inv_fresh: "limits_positive cfg \<Longrightarrow> guard_inv cfg now [] fresh_entry"
  by (simp add: guard_inv_def limits_positive_def entry_ok_fresh) (simp add: fresh_entry_def)

lemma guard_inv_later:
  assumes "guard_inv cfg now h e" and "now \<le> t"
  shows "guard_inv cfg t h e"
proof -
  let ?n = "\<lambda>a. now - guess_window cfg < a" and ?t = "\<lambda>a. t - guess_window cfg < a"
  have "filter ?t h = filter ?t (filter ?n h)"
    using assms(2) by (subst filter_filter_weaker) auto
  also have "\<dots> = filter ?t (filter ?n (failures e))"
    using assms(1) by (simp add: guard_inv_def)
  also have "\<dots> = filter ?t (failures e)"
    using assms(2) by (subst filter_filter_weaker) auto
  finally show ?thesis
    using assms by (force simp: guard_inv_def)
qed

lemma guard_inv_check:
  assumes "limits_positive cfg" and "guard_inv cfg now h e" and "now \<le> t" and "\<not> entry_locked t e"
  shows "guard_inv cfg t h (entry_check t e)" "locked_until (entry_check t e) = None"
proof -
  show "locked_until (entry_check t e) = None"
    using assms(4) by (auto simp: entry_locked_def entry_check_def fresh_entry_def split: option.splits)
  show "guard_inv cfg t h (entry_check t e)"
  proof (cases "locked_until e")
    case None
    with assms show ?thesis by (simp add: entry_check_def guard_inv_later)
  next
    case (Some l)
    with assms(4) have l: "l \<le> t" by (simp add: entry_locked_def)
    have old: "a \<le> t - guess_window cfg" if "a \<in> set h" for a
    proof -
      have "a + of_int (login_lockout cfg) \<le> l"
        using assms(2) Some that by (simp add: guard_inv_def)
      with l show ?thesis by (simp add: guess_window_def min_def split: if_splits)
    qed
    then have "filter (\<lambda>a. t - guess_window cfg < a) h = []"
      by (force simp: filter_empty_conv)
    moreover have "\<forall>a \<in> set h. a \<le> t"
      using assms(2,3) by (force simp: guard_inv_def)
    ultimately show ?thesis
      using assms(1) l Some
      by (simp add: guard_inv_def entry_check_def entry_ok_fresh limits_positive_def)
        (simp add: fresh_entry_def)
  qed
qed

lemma guard_inv_fail:
  assumes "limits_positive cfg" and "guard_inv cfg now h e" and "now \<le> t" and "locked_until e = None"
  shows "guard_inv cfg t (h @ [t]) (entry_fail cfg t e)"
proof -
  let ?t = "\<lambda>a. t - guess_window cfg < a"
  have inv: "guard_inv cfg t h e" using assms(2,3) by (rule guard_inv_later)
  define kept where "kept = filter (\<lambda>a. t - a < of_int (login_window cfg)) (failures e)"
  have "length kept \<le> length (failures e)" by (simp add: kept_def)
  moreover have "int (length (failures e)) < login_max_attempts cfg"
    using inv assms(4) by (simp add: guard_inv_def entry_ok_def)
  ultimately have len: "int (length (kept @ [t])) \<le> login_max_attempts cfg" by simp
  have "0 < guess_window cfg"
    using assms(1) by (simp add: guess_window_def limits_positive_def)
  moreover have "filter ?t kept = filter ?t h"
  proof -
    have "filter ?t kept = filter ?t (failures e)"
      unfolding kept_def by (rule filter_filter_weaker) (simp add: guess_window_def)
    then show ?thesis using inv by (simp add: guard_inv_def)
  qed
  ultimately have rec: "filter ?t (h @ [t]) = filter ?t (kept @ [t])" by simp
  have le: "\<forall>a \<in> set h. a \<le> t" using inv by (simp add: guard_inv_def)
  have f: "failures (entry_fail cfg t e) = kept @ [t]"
    "locked_until (entry_fail cfg t e) =
       (if int (length (kept @ [t])) \<ge> login_max_attempts cfg
        then Some (t + of_int (login_lockout cfg)) else None)"
    using assms(4) by (simp_all add: entry_fail_def kept_def Let_def)
  show ?thesis
    using len rec le by (auto simp: guard_inv_def entry_ok_def f split: if_splits)
qed

fun guesses :: "config \<Rightarrow> (time \<times> time) list \<Rightarrow> rl_entry \<Rightarrow> time list" where
  "guesses cfg [] e = []"
| "guesses cfg ((tc, tr) # gs) e =
     (if entry_locked tc e then guesses cfg gs (entry_check tc e)
      else tr # guesses cfg gs (entry_fail cfg tr (entry_check tc e)))"

lemma guess_run_guesses:
  "map snd (filter (\<lambda>g. fst g = u) (fst (guess_run cfg gs s))) =
   guesses cfg (map snd (filter (\<lambda>g. fst g = u) gs)) (entry_of s u)"
proof (induction gs arbitrary: s)
  case Nil
  then show ?case by simp
next
  case (Cons g gs)
  obtain v tc tr where g: "g = (v, tc, tr)" by (cases g) auto
  obtain lk ra s1 where c: "is_locked_out v tc s = ((lk, ra), s1)"
    by (metis surj_pair)
  have lk: "lk = entry_locked tc (entry_of s v)"
    using is_locked_out_result [of v tc s] c by simp
  have s1: "entry_of s1 u = (if u = v then entry_check tc (entry_of s v) else entry_of s u)"
    using entry_of_is_locked_out [of v tc s u] c by simp
  show ?case
    by (auto simp: g c lk s1 Cons.IH Let_def split_beta entry_of_record_failure)
qed

lemma guesses_bound:
  assumes "limits_positive cfg" and "guard_inv cfg now h e"
    and "sorted (now # concat (map (\<lambda>(tc, tr). [tc, tr]) gs))"
    and "int (length (filter (\<lambda>x. t - guess_window cfg < x \<and> x \<le> t) h)) \<le> login_max_attempts cfg"
  shows "int (length (filter (\<lambda>x. t - guess_window cfg < x \<and> x \<le> t) (h @ guesses cfg gs e)))
    \<le> login_max_attempts cfg"
  using assms
proof (induction cfg gs e arbitrary: now h rule: guesses.induct)
  case (1 cfg e)
  then show ?case by simp
next
  case (2 cfg tc tr gs e)
  let ?in = "\<lambda>x. t - guess_window cfg < x \<and> x \<le> t"
  have ord: "now \<le> tc" "tc \<le> tr" "sorted (tr # concat (map (\<lambda>(tc, tr). [tc, tr]) gs))"
    "sorted (tc # concat (map (\<lambda>(tc, tr). [tc, tr]) gs))"
    using "2.prems"(3) by auto
  show ?case
  proof (cases "entry_locked tc e")
    case True
    then have "entry_check tc e = e"
      by (auto simp: entry_locked_def entry_check_def split: option.splits)
    moreover have "guard_inv cfg tc h e"
      using "2.prems"(2) ord(1) by (rule guard_inv_later)
    ultimately show ?thesis
      using True "2.IH"(1) "2.prems"(1,4) ord(4) by simp
  next
    case False
    note chk = guard_inv_check [OF "2.prems"(1,2) ord(1) False]
    let ?e = "entry_fail cfg tr (entry_check tc e)"
    have inv: "guard_inv cfg tr (h @ [tr]) ?e"
      using "2.prems"(1) chk(1) ord(2) chk(2) by (rule guard_inv_fail)
    have "int (length (filter ?in (h @ [tr]))) \<le> login_max_attempts cfg"
    proof (cases "tr \<le> t")
      case True
      have "length (filter ?in (h @ [tr])) \<le> length (filter (\<lambda>a. tr - guess_window cfg < a) (h @ [tr]))"
        using True by (intro length_filter_mono) auto
      also have "\<dots> = length (filter (\<lambda>a. tr - guess_window cfg < a) (failures ?e))"
        using inv by (simp add: guard_inv_def)
      also have "\<dots> \<le> length (failures ?e)" by simp
      finally show ?thesis using inv by (simp add: guard_inv_def)
    next
      case False
      then show ?thesis using "2.prems"(4) by simp
    qed
    from "2.IH"(2) [OF False "2.prems"(1) inv ord(3) this] show ?thesis
      using False by simp
  qed
qed

lemma chronological_user:
  assumes "chronological gs"
  shows "sorted (concat (map (\<lambda>(tc, tr). [tc, tr]) (map snd (filter (\<lambda>g. fst g = u) gs))))"
  using assms unfolding chronological_def
proof (induction gs)
  case (Cons g gs)
  then show ?case
    by (cases g) (auto simp: image_iff split: if_splits)
qed simp



text \<open>The results of the checks in a list of operations of any threads: \<open>True\<close> is admitted.\<close>

fun check_results :: "config \<Rightarrow> (string \<times> rl_event) list \<Rightarrow> limiter \<Rightarrow> bool list" where
  "check_results cfg [] s = []"
| "check_results cfg ((u, Check t) # evs) s =
     (\<not> fst (fst (is_locked_out u t s))) # check_results cfg evs (snd (is_locked_out u t s))"
| "check_results cfg ((u, ev) # evs) s = check_results cfg evs (limiter_event cfg u ev s)"

lemma check_results_all_checks:
  "locked_until (entry_of s u) = None \<Longrightarrow>
   check_results cfg (replicate n (u, Check t) @ evs) s =
   replicate n True @ check_results cfg evs (fold (\<lambda>(k, ev). limiter_event cfg k ev) (replicate n (u, Check t)) s)"
proof (induction n arbitrary: s)
  case (Suc n)
  have "\<not> entry_locked t (entry_of s u)"
    using Suc.prems by (simp add: entry_locked_def)
  moreover have "locked_until (entry_of (snd (is_locked_out u t s)) u) = None"
    using Suc.prems by (simp add: entry_of_is_locked_out entry_check_def)
  ultimately show ?case
    using Suc.IH by (simp add: is_locked_out_result)
qed simp

lemma check_results_failures:
  "check_results cfg (replicate n (u, Failure t)) s = []"
  by (induction n arbitrary: s) simp_all

text \<open>
  The check and the count are two critical sections, so logins that overlap are not
  limited: for every \<open>n\<close> there is a schedule, all \<open>n\<close> checks before the first failure is
  counted, in which all \<open>n\<close> guesses at one account are admitted.
\<close>

theorem overlapping_guesses_unbounded:
  "check_results cfg (replicate n (u, Check t) @ replicate n (u, Failure t)) (reset_all s) =
   replicate n True"
proof -
  have "locked_until (entry_of (reset_all s) u) = None" by (simp add: fresh_entry_def)
  from check_results_all_checks [OF this] show ?thesis
    by (simp add: check_results_failures)
qed

section \<open>When an account is locked\<close>

lemma entry_fails_keep:
  assumes "sorted ts" and "ts \<noteq> []" and "last ts - hd ts < of_int (login_window cfg)"
  shows "\<exists>old. failures (fold (entry_fail cfg) ts e) = old @ ts"
  using assms
proof (induction ts rule: rev_induct)
  case Nil
  then show ?case by simp
next
  case (snoc t ts)
  show ?case
  proof (cases "ts = []")
    case True
    then show ?thesis by (simp add: entry_fail_def Let_def)
  next
    case False
    then have hd: "hd (ts @ [t]) = hd ts" by simp
    have le: "last ts \<le> t" using snoc.prems(1) False by (simp add: sorted_append)
    then have "last ts - hd ts < of_int (login_window cfg)"
      using snoc.prems(3) hd by simp
    then obtain old where old: "failures (fold (entry_fail cfg) ts e) = old @ ts"
      using snoc.IH snoc.prems(1) False by (auto simp: sorted_append)
    have "t - x < of_int (login_window cfg)" if "x \<in> set ts" for x
    proof -
      have "hd ts \<le> x"
        using that snoc.prems(1) by (cases ts) (auto simp: sorted_append)
      then show ?thesis using snoc.prems(3) hd by simp
    qed
    then have "filter (\<lambda>x. t - x < of_int (login_window cfg)) ts = ts"
      by (simp add: filter_id_conv)
    moreover have "failures (entry_fail cfg t e1) =
        filter (\<lambda>x. t - x < of_int (login_window cfg)) (failures e1) @ [t]" for e1
      by (simp add: entry_fail_def Let_def)
    ultimately show ?thesis by (simp add: old)
  qed
qed

lemma entry_of_failures:
  "entry_of (fold (record_failure cfg u) ts s) u' =
   (if u' = u then fold (entry_fail cfg) ts (entry_of s u) else entry_of s u')"
  by (induction ts arbitrary: s) (auto simp: entry_of_record_failure)

text \<open>
  \<open>LOGIN_MAX_ATTEMPTS\<close> failures within the window lock the account, whatever was
  recorded before, until \<open>LOGIN_LOCKOUT_SECONDS\<close> after the last one; the check then reports
  the remaining seconds, and from that instant on it admits again and the record is clear.
  No other account is affected.
\<close>

theorem lockout_after_max_failures:
  assumes "sorted ts" and "ts \<noteq> []" and "login_max_attempts cfg \<le> int (length ts)"
    and "last ts - hd ts < of_int (login_window cfg)"
  shows "fst (is_locked_out u now (fold (record_failure cfg u) ts s)) =
           (let l = last ts + of_int (login_lockout cfg)
            in if now < l then (True, l - now) else (False, 0)) \<and>
         entry_of (snd (is_locked_out u now (fold (record_failure cfg u) ts s))) u =
           (if now < last ts + of_int (login_lockout cfg)
            then entry_of (fold (record_failure cfg u) ts s) u else fresh_entry) \<and>
         (u' = u \<or> fst (is_locked_out u' now (fold (record_failure cfg u) ts s)) =
                    fst (is_locked_out u' now s))"
proof -
  obtain t0 t where ts: "ts = t0 @ [t]"
    using assms(2) by (metis append_butlast_last_id)
  let ?e = "fold (entry_fail cfg) ts (entry_of s u)"
  obtain old where "failures ?e = old @ ts"
    using entry_fails_keep [OF assms(1,2,4)] by blast
  then have "login_max_attempts cfg \<le> int (length (failures ?e))"
    using assms(3) by simp
  then have "locked_until ?e = Some (last ts + of_int (login_lockout cfg))"
    by (auto simp: ts entry_fail_def Let_def)
  then show ?thesis
    by (auto simp: is_locked_out_result entry_of_is_locked_out entry_of_failures entry_locked_def
        entry_check_def Let_def)
qed

theorem lockout_after_max_failures_witness:
  "fst (is_locked_out ''bob'' 100
      (fold (record_failure default_config ''bob'') [1, 2, 3, 4, 5] [])) = (True, 205)"
proof -
  have "login_max_attempts default_config \<le> int (length [1 :: real, 2, 3, 4, 5])"
    by (simp add: default_config_def)
  moreover have "last [1 :: real, 2, 3, 4, 5] - hd [1, 2, 3, 4, 5] < of_int (login_window default_config)"
    by (simp add: default_config_def)
  ultimately show ?thesis
    using lockout_after_max_failures [of "[1, 2, 3, 4, 5]" default_config "''bob''" 100 "[]" "''bob''"]
    by (simp add: default_config_def Let_def)
qed

text \<open>The failures recorded for a user by a list of operations.\<close>

fun is_failure_of :: "string \<Rightarrow> string \<times> rl_event \<Rightarrow> bool" where
  "is_failure_of u (v, Failure t) = (v = u)"
| "is_failure_of u _ = False"

lemma entry_event_count:
  assumes "locked_until e = None"
    and "int (length (failures e) + length (filter (is_failure_of u) [(u, ev)])) < login_max_attempts cfg"
  shows "locked_until (entry_event cfg ev e) = None"
    and "length (failures (entry_event cfg ev e)) \<le>
       length (failures e) + length (filter (is_failure_of u) [(u, ev)])"
proof -
  have "locked_until (entry_event cfg ev e) = None \<and>
    length (failures (entry_event cfg ev e)) \<le>
       length (failures e) + length (filter (is_failure_of u) [(u, ev)])"
  proof (cases ev)
    case (Failure t)
    have "1 + int (length (failures e)) < login_max_attempts cfg"
      using assms(2) Failure by simp
    then have "1 + int (length (filter (\<lambda>x. t - x < of_int (login_window cfg)) (failures e)))
        < login_max_attempts cfg"
      by (rule le_less_trans [rotated]) simp
    then show ?thesis
      using assms(1) Failure by (simp add: entry_fail_def Let_def)
  qed (use assms in \<open>simp_all add: entry_check_def fresh_entry_def\<close>)
  then show "locked_until (entry_event cfg ev e) = None"
    and "length (failures (entry_event cfg ev e)) \<le>
       length (failures e) + length (filter (is_failure_of u) [(u, ev)])"
    by simp_all
qed

lemma entry_events_count:
  assumes "locked_until e = None"
    and "int (length (failures e) + length (filter (is_failure_of u) evs)) < login_max_attempts cfg"
    and "\<forall>x \<in> set evs. fst x = u"
  shows "locked_until (fold (\<lambda>(k, ev). entry_event cfg ev) evs e) = None"
  using assms
proof (induction evs arbitrary: e)
  case (Cons x evs)
  obtain ev where x: "x = (u, ev)"
    using Cons.prems(3) by (cases x) auto
  have "int (length (failures e) + length (filter (is_failure_of u) [(u, ev)])) < login_max_attempts cfg"
    using Cons.prems(2) by (simp add: x split: if_splits)
  note step = entry_event_count [OF Cons.prems(1) this]
  have "int (length (failures (entry_event cfg ev e)) + length (filter (is_failure_of u) evs))
      < login_max_attempts cfg"
    using step(2) Cons.prems(2) by (simp add: x split: if_splits)
  from Cons.IH [OF step(1) this] show ?case
    using Cons.prems(3) by (simp add: x)
qed simp

text \<open>
  An account is never locked by fewer than \<open>LOGIN_MAX_ATTEMPTS\<close> failures of its own,
  however many operations on other accounts, checks and successes are interleaved with
  them and whatever the clock reads.
\<close>

theorem no_lockout_below_max:
  assumes "int (length (filter (is_failure_of u) evs)) < login_max_attempts cfg"
  shows "fst (is_locked_out u now (fold (\<lambda>(k, ev). limiter_event cfg k ev) evs (reset_all s))) = (False, 0)"
proof -
  let ?evs = "filter (\<lambda>(k', ev). k' = u) evs"
  have same: "filter (is_failure_of u) ?evs = filter (is_failure_of u) evs"
    by (intro filter_filter_weaker) (auto elim!: is_failure_of.elims)
  have "locked_until (fold (\<lambda>(k, ev). entry_event cfg ev) ?evs fresh_entry) = None"
    using assms by (intro entry_events_count [where u = u])
      (auto simp: fresh_entry_def same simp del: filter_filter)
  then show ?thesis
    by (simp add: is_locked_out_result rl.look_run entry_locked_def)
qed

theorem no_lockout_below_max_witness:
  "fst (is_locked_out ''bob'' 9 (fold (\<lambda>(k, ev). limiter_event default_config k ev)
     [(''bob'', Failure 1), (''eve'', Failure 2), (''bob'', Check 3), (''bob'', Failure 4)]
     (reset_all []))) = (False, 0)"
  by (rule no_lockout_below_max) (simp add: default_config_def)

section \<open>Pruning\<close>

text \<open>
  A reference limiter that never forgets a failure until it is cleared, and counts those in
  the window each time. The module drops the others instead.
\<close>

fun ref_event :: "config \<Rightarrow> rl_event \<Rightarrow> rl_entry \<Rightarrow> rl_entry" where
  "ref_event cfg (Check t) e = entry_check t e"
| "ref_event cfg (Failure t) e =
     (let recent = Suc (length (filter (\<lambda>x. t - x < of_int (login_window cfg)) (failures e)))
      in e\<lparr>failures := failures e @ [t],
           locked_until := (if int recent \<ge> login_max_attempts cfg
                            then Some (t + of_int (login_lockout cfg)) else locked_until e)\<rparr>)"
| "ref_event cfg Success e = fresh_entry"

fun event_times :: "rl_event \<Rightarrow> time list" where
  "event_times (Check t) = [t]"
| "event_times (Failure t) = [t]"
| "event_times Success = []"

definition same_window :: "config \<Rightarrow> time \<Rightarrow> rl_entry \<Rightarrow> rl_entry \<Rightarrow> bool" where
  "same_window cfg now e r \<longleftrightarrow>
     locked_until e = locked_until r \<and>
     filter (\<lambda>x. now - x < of_int (login_window cfg)) (failures e) =
     filter (\<lambda>x. now - x < of_int (login_window cfg)) (failures r)"

lemma same_window_later:
  assumes "same_window cfg now e r" and "now \<le> t"
  shows "same_window cfg t e r"
proof -
  have "filter (\<lambda>x. t - x < of_int (login_window cfg)) xs =
      filter (\<lambda>x. t - x < of_int (login_window cfg)) (filter (\<lambda>x. now - x < of_int (login_window cfg)) xs)"
    for xs
    using assms(2) by (subst filter_filter_weaker) auto
  with assms(1) show ?thesis by (metis same_window_def)
qed

lemma same_window_event:
  assumes "same_window cfg now e r" and "\<forall>t \<in> set (event_times ev). now \<le> t"
  shows "same_window cfg (case event_times ev of [] \<Rightarrow> now | t # _ \<Rightarrow> t) (entry_event cfg ev e) (ref_event cfg ev r)"
proof (cases ev)
  case (Check t)
  then have "same_window cfg t e r" using assms same_window_later by auto
  with Check show ?thesis
    by (auto simp: same_window_def entry_check_def split: option.splits)
next
  case (Failure t)
  then have "same_window cfg t e r" using assms same_window_later by auto
  with Failure show ?thesis
    by (simp add: same_window_def entry_fail_def Let_def)
next
  case Success
  then show ?thesis by (simp add: same_window_def)
qed

lemma same_window_run:
  assumes "same_window cfg now e r" and "sorted (now # concat (map event_times evs))"
  shows "\<exists>now'. same_window cfg now' (fold (entry_event cfg) evs e) (fold (ref_event cfg) evs r)"
  using assms
proof (induction evs arbitrary: now e r)
  case (Cons ev evs)
  let ?t = "case event_times ev of [] \<Rightarrow> now | t # _ \<Rightarrow> t"
  have "\<forall>t \<in> set (event_times ev). now \<le> t" using Cons.prems(2) by simp
  then have "same_window cfg ?t (entry_event cfg ev e) (ref_event cfg ev r)"
    by (rule same_window_event [OF Cons.prems(1)])
  moreover have "sorted (?t # concat (map event_times evs))"
    using Cons.prems(2) by (cases ev) auto
  ultimately show ?case using Cons.IH by simp
qed auto

text \<open>
  C20: Dropping old failures is unobservable: as long as the clock does not run backwards,
  the module locks and unlocks an account exactly when the limiter that keeps every failure
  and counts those in the window does.
\<close>

theorem pruning_unobservable:
  assumes "sorted (concat (map event_times evs))"
  shows "entry_locked now (entry_of (fold (limiter_event cfg u) evs (reset_all s)) u) =
         entry_locked now (fold (ref_event cfg) evs fresh_entry)"
proof -
  obtain t0 where srt: "sorted (t0 # concat (map event_times evs))"
    using assms by (rule sorted_start)
  have "same_window cfg t0 fresh_entry fresh_entry" by (simp add: same_window_def)
  from same_window_run [OF this srt]
  have lock: "locked_until (fold (entry_event cfg) evs fresh_entry) =
      locked_until (fold (ref_event cfg) evs fresh_entry)"
    by (auto simp: same_window_def)
  have "entry_of (fold (limiter_event cfg u) evs s0) u = fold (entry_event cfg) evs (entry_of s0 u)" for s0
    by (induction evs arbitrary: s0) (simp_all add: rl.look_act)
  with lock show ?thesis by (simp add: entry_locked_def)
qed

theorem pruning_unobservable_witness:
  "entry_locked 20 (entry_of (fold (limiter_event default_config ''bob'')
      [Failure 1, Failure 2, Check 3, Failure 400] (reset_all [])) ''bob'') =
   entry_locked 20 (fold (ref_event default_config) [Failure 1, Failure 2, Check 3, Failure 400] fresh_entry)"
  by (rule pruning_unobservable) simp

end
