(* ===== verification/Storage.thy ===== *)
theory Storage
  imports Config
begin

text \<open>
  \<open>common/storage.py\<close>: the atomic JSON writer that every state file goes through, the two
  key/value backends, and the contract they share (locale \<open>kv_store\<close>), interpreted on both.

  The file system is a record: the parsed content of each path, and the outcomes of the
  system calls still to come. A write asks the script for the fate of the temporary file
  and of each \<open>os.replace\<close>; an exhausted script means success. Theorems quantify over the
  script, so they hold for every pattern of failures. Writing a JSON value and parsing it
  back is the identity on \<open>pyval\<close>, as the \<open>json\<close> module documents for the values stored here.
\<close>

section \<open>Files\<close>

datatype pyfile = Unparsable | Json pyval

datatype tmp_result = TmpWritten | TmpOpenFails | TmpWriteFails

datatype replace_result = ReplaceOk | PermissionDenied | OtherOSError

record disk =
  files :: "string \<rightharpoonup> pyfile"
  tmp_script :: "tmp_result list"
  replace_script :: "replace_result list"
  pid :: string
  slept :: time

definition next_tmp :: "disk \<Rightarrow> tmp_result \<times> disk" where
  "next_tmp d = (case tmp_script d of
     [] \<Rightarrow> (TmpWritten, d) | r # rs \<Rightarrow> (r, d\<lparr>tmp_script := rs\<rparr>))"

definition next_replace :: "disk \<Rightarrow> replace_result \<times> disk" where
  "next_replace d = (case replace_script d of
     [] \<Rightarrow> (ReplaceOk, d) | r # rs \<Rightarrow> (r, d\<lparr>replace_script := rs\<rparr>))"

definition tmp_name :: "string \<Rightarrow> disk \<Rightarrow> string" where
  "tmp_name path d = path @ ''.'' @ pid d @ ''.tmp''"

text \<open>
  The retry loop of \<open>atomic_write_json\<close>: at most \<open>n\<close> more attempts; a permission error
  sleeps and doubles the delay, any other error ends the loop.
\<close>

fun replace_loop :: "nat \<Rightarrow> time \<Rightarrow> string \<Rightarrow> string \<Rightarrow> disk \<Rightarrow> bool \<times> disk" where
  "replace_loop 0 delay tmp path d = (False, d)"
| "replace_loop (Suc n) delay tmp path d =
     (case next_replace d of
        (ReplaceOk, d1) \<Rightarrow> (True, d1\<lparr>files := (files d1)(path := files d1 tmp, tmp := None)\<rparr>)
      | (PermissionDenied, d1) \<Rightarrow>
          replace_loop n (2 * delay) tmp path (d1\<lparr>slept := slept d1 + delay\<rparr>)
      | (OtherOSError, d1) \<Rightarrow> (False, d1))"

definition atomic_write_json :: "string \<Rightarrow> pyval \<Rightarrow> disk \<Rightarrow> unit res \<times> disk" where
  "atomic_write_json path data d =
     (let tmp = tmp_name path d in
      case next_tmp d of
        (TmpOpenFails, d1) \<Rightarrow> (Inl OSError, d1)
      | (TmpWriteFails, d1) \<Rightarrow> (Inl OSError, d1\<lparr>files := (files d1)(tmp \<mapsto> Unparsable)\<rparr>)
      | (TmpWritten, d1) \<Rightarrow>
          (let d2 = d1\<lparr>files := (files d1)(tmp \<mapsto> Json data)\<rparr> in
           case replace_loop 6 (2 / 100) tmp path d2 of
             (True, d3) \<Rightarrow> (Inr (), d3)
           | (False, d3) \<Rightarrow> (Inl OSError, d3\<lparr>files := (files d3)(tmp := None)\<rparr>)))"

lemma next_tmp_frame [simp]:
  "files (snd (next_tmp d)) = files d" "slept (snd (next_tmp d)) = slept d"
  "pid (snd (next_tmp d)) = pid d" "replace_script (snd (next_tmp d)) = replace_script d"
  by (simp_all add: next_tmp_def split: list.splits)

lemma next_replace_frame [simp]:
  "files (snd (next_replace d)) = files d" "slept (snd (next_replace d)) = slept d"
  "pid (snd (next_replace d)) = pid d"
  by (simp_all add: next_replace_def split: list.splits)

lemma replace_loop_files:
  "replace_loop n delay tmp path d = (ok, d') \<Longrightarrow>
   files d' = (if ok then (files d)(path := files d tmp, tmp := None) else files d) \<and> pid d' = pid d"
proof (induction n delay tmp path d rule: replace_loop.induct)
  case (2 n delay tmp path d)
  obtain r d1 where r: "next_replace d = (r, d1)" by fastforce
  have d1: "files d1 = files d" "pid d1 = pid d"
    using next_replace_frame [of d] r by simp_all
  show ?case
  proof (cases r)
    case PermissionDenied
    then show ?thesis using "2.IH" [OF r [symmetric]] "2.prems" r d1 by simp
  qed (use "2.prems" r d1 in auto)
qed auto

lemma replace_loop_slept:
  "0 \<le> delay \<Longrightarrow> replace_loop n delay tmp path d = (ok, d') \<Longrightarrow>
   slept d \<le> slept d' \<and> slept d' \<le> slept d + delay * (2 ^ n - 1)"
proof (induction n delay tmp path d rule: replace_loop.induct)
  case (2 n delay tmp path d)
  obtain r d1 where r: "next_replace d = (r, d1)" by fastforce
  have d1: "slept d1 = slept d"
    using next_replace_frame [of d] r by simp
  have pow: "0 \<le> delay * (2 ^ Suc n - 1)" "delay + 2 * delay * (2 ^ n - 1) = delay * (2 ^ Suc n - 1)"
  proof -
    have "(1 :: real) \<le> 2 ^ Suc n" by (rule one_le_power) simp
    with "2.prems"(1) show "0 \<le> delay * (2 ^ Suc n - 1)" by (intro mult_nonneg_nonneg) simp_all
  qed (simp add: algebra_simps)
  show ?case
  proof (cases r)
    case PermissionDenied
    then show ?thesis
      using "2.IH" [OF r [symmetric]] "2.prems" r d1 pow by simp
  qed (use "2.prems" r d1 pow in \<open>auto split: if_splits\<close>)
qed auto

lemma tmp_name_neq:
  assumes "endswith path ''n''"
  shows "tmp_name path' d \<noteq> path"
proof
  assume "tmp_name path' d = path"
  then have "endswith (path' @ ''.'' @ pid d @ ''.tmp'') ''n''"
    using assms by (simp add: tmp_name_def)
  then show False by (simp add: endswith_def)
qed

text \<open>What a write does to the files, whatever the script says.\<close>

lemma atomic_write_files:
  assumes "atomic_write_json path data d = (r, d')"
  shows "r = Inr () \<Longrightarrow> files d' = (files d)(path \<mapsto> Json data, tmp_name path d := None)"
    and "r = Inl e \<Longrightarrow> q \<noteq> tmp_name path d \<Longrightarrow> files d' q = files d q"
    and "r = Inr () \<or> r = Inl OSError"
    and "pid d' = pid d"
proof -
  let ?tmp = "tmp_name path d"
  have neq: "?tmp \<noteq> path" by (simp add: tmp_name_def)
  obtain t d1 where t: "next_tmp d = (t, d1)" by fastforce
  have d1: "files d1 = files d" "pid d1 = pid d"
    using next_tmp_frame [of d] t by simp_all
  obtain ok d3 where l:
    "replace_loop 6 (2 / 100) ?tmp path (d1\<lparr>files := (files d1)(?tmp \<mapsto> Json data)\<rparr>) = (ok, d3)"
    by fastforce
  note f = replace_loop_files [OF l]
  show "r = Inr () \<Longrightarrow> files d' = (files d)(path \<mapsto> Json data, ?tmp := None)"
    using assms t l f d1 neq
    by (cases t; cases ok) (auto simp: atomic_write_json_def Let_def fun_upd_twist)
  show "r = Inl e \<Longrightarrow> q \<noteq> ?tmp \<Longrightarrow> files d' q = files d q"
    using assms t l f d1
    by (cases t; cases ok) (auto simp: atomic_write_json_def Let_def)
  show "r = Inr () \<or> r = Inl OSError"
    using assms t l
    by (cases t; cases ok) (auto simp: atomic_write_json_def Let_def)
  show "pid d' = pid d"
    using assms t l f d1
    by (cases t; cases ok) (auto simp: atomic_write_json_def Let_def)
qed

text \<open>For files whose names end as JSON files do, the temporary file plays no part.\<close>

lemma atomic_write_read:
  assumes "atomic_write_json path data d = (r, d')" and "endswith q ''n''"
  shows "files d' q = (if r = Inr () \<and> q = path then Some (Json data) else files d q)"
proof -
  have neq: "tmp_name path d \<noteq> q" using assms(2) by (rule tmp_name_neq)
  from atomic_write_files(3) [OF assms(1)] show ?thesis
  proof
    assume "r = Inr ()"
    with atomic_write_files(1) [OF assms(1)] neq show ?thesis by auto
  next
    assume "r = Inl OSError"
    with atomic_write_files(2) [OF assms(1), of OSError q] neq show ?thesis by auto
  qed
qed

section \<open>The contract of a backend\<close>

text \<open>
  What every caller of a backend relies on. \<open>look\<close> is the stored value, if there is one;
  \<open>slot\<close> is what a namespace is stored under, so two namespaces with the same slot share
  their entries. A write that reports success is visible and changes nothing else, a write
  that raises changes nothing.
\<close>

datatype kv_op = Put string string pyval | Remove string string | Replace string dict

fun kv_op_ns :: "kv_op \<Rightarrow> string" where
  "kv_op_ns (Put ns k v) = ns"
| "kv_op_ns (Remove ns k) = ns"
| "kv_op_ns (Replace ns m) = ns"

text \<open>The abstract table: a partial map for every namespace.\<close>

fun kv_step :: "kv_op \<Rightarrow> (string \<Rightarrow> string \<rightharpoonup> pyval) \<Rightarrow> string \<Rightarrow> string \<rightharpoonup> pyval" where
  "kv_step (Put ns k v) f = f(ns := (f ns)(k \<mapsto> v))"
| "kv_step (Remove ns k) f = f(ns := (f ns)(k := None))"
| "kv_step (Replace ns m) f = f(ns := map_of m)"

fun kv_exec ::
  "('s \<Rightarrow> string \<Rightarrow> string \<Rightarrow> pyval \<Rightarrow> unit res \<times> 's) \<Rightarrow> ('s \<Rightarrow> string \<Rightarrow> string \<Rightarrow> unit res \<times> 's) \<Rightarrow>
   ('s \<Rightarrow> string \<Rightarrow> dict \<Rightarrow> unit res \<times> 's) \<Rightarrow> kv_op \<Rightarrow> 's \<Rightarrow> unit res \<times> 's" where
  "kv_exec put remove replace (Put ns k v) s = put s ns k v"
| "kv_exec put remove replace (Remove ns k) s = remove s ns k"
| "kv_exec put remove replace (Replace ns m) s = replace s ns m"

fun kv_run ::
  "('s \<Rightarrow> string \<Rightarrow> string \<Rightarrow> pyval \<Rightarrow> unit res \<times> 's) \<Rightarrow> ('s \<Rightarrow> string \<Rightarrow> string \<Rightarrow> unit res \<times> 's) \<Rightarrow>
   ('s \<Rightarrow> string \<Rightarrow> dict \<Rightarrow> unit res \<times> 's) \<Rightarrow> kv_op list \<Rightarrow> 's \<Rightarrow> unit res \<times> 's" where
  "kv_run put remove replace [] s = (Inr (), s)"
| "kv_run put remove replace (op # ops) s =
     (case kv_exec put remove replace op s of
        (Inl e, s1) \<Rightarrow> (Inl e, s1)
      | (Inr _, s1) \<Rightarrow> kv_run put remove replace ops s1)"

locale kv_store =
  fixes look :: "'s \<Rightarrow> string \<Rightarrow> string \<Rightarrow> pyval option"
    and slot :: "'s \<Rightarrow> string \<Rightarrow> string"
    and get :: "'s \<Rightarrow> string \<Rightarrow> string \<Rightarrow> pyval \<Rightarrow> pyval"
    and put :: "'s \<Rightarrow> string \<Rightarrow> string \<Rightarrow> pyval \<Rightarrow> unit res \<times> 's"
    and remove :: "'s \<Rightarrow> string \<Rightarrow> string \<Rightarrow> unit res \<times> 's"
    and everything :: "'s \<Rightarrow> string \<Rightarrow> dict"
    and replace :: "'s \<Rightarrow> string \<Rightarrow> dict \<Rightarrow> unit res \<times> 's"
  assumes get_look: "get s ns k dflt = (case look s ns k of None \<Rightarrow> dflt | Some v \<Rightarrow> v)"
    and put_ok: "put s ns k v = (Inr (), s') \<Longrightarrow>
      look s' ns' k' = (if slot s ns' = slot s ns \<and> k' = k then Some v else look s ns' k')"
    and put_err: "put s ns k v = (Inl e, s') \<Longrightarrow> look s' ns' k' = look s ns' k'"
    and remove_ok: "remove s ns k = (Inr (), s') \<Longrightarrow>
      look s' ns' k' = (if slot s ns' = slot s ns \<and> k' = k then None else look s ns' k')"
    and remove_err: "remove s ns k = (Inl e, s') \<Longrightarrow> look s' ns' k' = look s ns' k'"
    and everything_look: "map_of (everything s ns) k = look s ns k"
    and replace_ok: "replace s ns m = (Inr (), s') \<Longrightarrow>
      look s' ns' k' = (if slot s ns' = slot s ns then map_of m k' else look s ns' k')"
    and replace_err: "replace s ns m = (Inl e, s') \<Longrightarrow> look s' ns' k' = look s ns' k'"
begin

lemma get_after_put: "put s ns k v = (Inr (), s') \<Longrightarrow> get s' ns k dflt = v"
  by (simp add: get_look put_ok)

lemma get_after_put_other:
  "put s ns k v = (r, s') \<Longrightarrow> slot s ns' \<noteq> slot s ns \<or> k' \<noteq> k \<Longrightarrow> get s' ns' k' dflt = get s ns' k' dflt"
  by (cases r) (auto simp: get_look put_ok put_err)

lemma get_after_failed_put: "put s ns k v = (Inl e, s') \<Longrightarrow> get s' ns' k' dflt = get s ns' k' dflt"
  by (simp add: get_look put_err)

lemma get_after_remove: "remove s ns k = (Inr (), s') \<Longrightarrow> get s' ns k dflt = dflt"
  by (simp add: get_look remove_ok)

text \<open>
  A run of operations that reports success has, on namespaces that the backend keeps
  apart, the effect of the same operations on an abstract table.
\<close>

lemma exec_refines:
  assumes "kv_exec put remove replace op s = (Inr (), s')"
    and "kv_op_ns op \<in> N" and "\<And>s. inj_on (slot s) N" and "ns \<in> N"
  shows "look s' ns = kv_step op (look s) ns"
proof (rule ext)
  fix k
  have slot: "slot s ns = slot s (kv_op_ns op) \<longleftrightarrow> ns = kv_op_ns op"
    using assms(2-4) by (meson inj_on_eq_iff)
  show "look s' ns k = kv_step op (look s) ns k"
    using assms(1) slot put_ok remove_ok replace_ok by (cases op) auto
qed

lemma run_refines:
  assumes "kv_run put remove replace ops s = (Inr (), s')"
    and "kv_op_ns ` set ops \<subseteq> N" and "\<And>s. inj_on (slot s) N" and "ns \<in> N"
    and "\<And>ns. ns \<in> N \<Longrightarrow> look s ns = f ns"
  shows "look s' ns = fold kv_step ops f ns"
  using assms
proof (induction ops arbitrary: s f)
  case (Cons op ops)
  obtain r s1 where op: "kv_exec put remove replace op s = (r, s1)" by fastforce
  have ok: "r = Inr ()" "kv_run put remove replace ops s1 = (Inr (), s')"
    using Cons.prems(1) op by (auto split: sum.splits)
  have "look s1 n = kv_step op f n" if "n \<in> N" for n
  proof -
    have "look s1 n = kv_step op (look s) n"
      using exec_refines [of op s s1 N n] op ok(1) Cons.prems(2,3) that by simp
    also have "\<dots> = kv_step op f n"
      using Cons.prems(2,5) that by (cases op) auto
    finally show ?thesis .
  qed
  then show ?case
    using Cons.IH [OF ok(2), of "kv_step op f"] Cons.prems(2-4) by simp
qed simp

end

section \<open>The backends\<close>

type_synonym memory = "(string, dict) odict"

definition mem_ns :: "memory \<Rightarrow> string \<Rightarrow> dict" where
  "mem_ns m ns = (case map_of m ns of None \<Rightarrow> [] | Some e \<Rightarrow> e)"

definition mem_get :: "memory \<Rightarrow> string \<Rightarrow> string \<Rightarrow> pyval \<Rightarrow> pyval" where
  "mem_get m ns k dflt = dget_or (mem_ns m ns) k dflt"

definition mem_set :: "memory \<Rightarrow> string \<Rightarrow> string \<Rightarrow> pyval \<Rightarrow> unit res \<times> memory" where
  "mem_set m ns k v = (Inr (), AList.update ns (dset k v (mem_ns m ns)) m)"

text \<open>
  \<open>self._data.get(namespace, {}).pop(key, None)\<close>: for an unknown namespace the entry is popped
  from a dictionary that is dropped at once.
\<close>

definition mem_delete :: "memory \<Rightarrow> string \<Rightarrow> string \<Rightarrow> unit res \<times> memory" where
  "mem_delete m ns k =
     (Inr (), case map_of m ns of None \<Rightarrow> m | Some e \<Rightarrow> AList.update ns (AList.delete k e) m)"

definition mem_all :: "memory \<Rightarrow> string \<Rightarrow> dict" where
  "mem_all m ns = mem_ns m ns"

definition mem_replace :: "memory \<Rightarrow> string \<Rightarrow> dict \<Rightarrow> unit res \<times> memory" where
  "mem_replace m ns e = (Inr (), AList.update ns e m)"

definition file_safe :: "string \<Rightarrow> string" where
  "file_safe ns = filter (\<lambda>c. is_alnum c \<or> c \<in> {CHR ''-'', CHR ''_''}) ns"

definition file_path :: "string \<Rightarrow> string \<Rightarrow> string" where
  "file_path dir ns = dir @ ''/'' @ file_safe ns @ ''.json''"

definition file_load :: "string \<Rightarrow> disk \<Rightarrow> string \<Rightarrow> dict" where
  "file_load dir d ns = (case files d (file_path dir ns) of
     None \<Rightarrow> []
   | Some Unparsable \<Rightarrow> []
   | Some (Json v) \<Rightarrow> (case v of PyDict e \<Rightarrow> e | _ \<Rightarrow> []))"

definition file_save :: "string \<Rightarrow> disk \<Rightarrow> string \<Rightarrow> dict \<Rightarrow> unit res \<times> disk" where
  "file_save dir d ns e = atomic_write_json (file_path dir ns) (PyDict e) d"

definition file_get :: "string \<Rightarrow> disk \<Rightarrow> string \<Rightarrow> string \<Rightarrow> pyval \<Rightarrow> pyval" where
  "file_get dir d ns k dflt = dget_or (file_load dir d ns) k dflt"

definition file_set :: "string \<Rightarrow> disk \<Rightarrow> string \<Rightarrow> string \<Rightarrow> pyval \<Rightarrow> unit res \<times> disk" where
  "file_set dir d ns k v = file_save dir d ns (dset k v (file_load dir d ns))"

definition file_delete :: "string \<Rightarrow> disk \<Rightarrow> string \<Rightarrow> string \<Rightarrow> unit res \<times> disk" where
  "file_delete dir d ns k =
     (let e = file_load dir d ns in
      if k \<in> fst ` set e then file_save dir d ns (AList.delete k e) else (Inr (), d))"

definition file_all :: "string \<Rightarrow> disk \<Rightarrow> string \<Rightarrow> dict" where
  "file_all dir d ns = file_load dir d ns"

definition file_replace :: "string \<Rightarrow> disk \<Rightarrow> string \<Rightarrow> dict \<Rightarrow> unit res \<times> disk" where
  "file_replace dir d ns e = file_save dir d ns e"

text \<open>The first component of \<open>health()\<close>; the detail text is not modelled.\<close>

definition file_health :: "string \<Rightarrow> time \<Rightarrow> disk \<Rightarrow> bool \<times> disk" where
  "file_health dir now d =
     (case file_set dir d ''_healthcheck'' ''__health__'' (PyFloat (Fin now)) of
        (Inl e, d1) \<Rightarrow> (False, d1)
      | (Inr _, d1) \<Rightarrow>
          (case file_delete dir d1 ''_healthcheck'' ''__health__'' of
             (Inl e, d2) \<Rightarrow> (False, d2)
           | (Inr _, d2) \<Rightarrow> (True, d2)))"

section \<open>Both backends meet the contract\<close>

definition mem_look :: "memory \<Rightarrow> string \<Rightarrow> string \<Rightarrow> pyval option" where
  "mem_look m ns k = map_of (mem_ns m ns) k"

definition file_look :: "string \<Rightarrow> disk \<Rightarrow> string \<Rightarrow> string \<Rightarrow> pyval option" where
  "file_look dir d ns k = map_of (file_load dir d ns) k"

interpretation memory_kv: kv_store mem_look "\<lambda>_ ns. ns" mem_get mem_set mem_delete mem_all mem_replace
  by unfold_locales
    (auto simp: mem_look_def mem_get_def mem_set_def mem_delete_def mem_all_def mem_replace_def
      mem_ns_def dget_or_def dict_simps split: option.splits if_splits)

lemma file_path_eq: "file_path dir ns = file_path dir ns' \<longleftrightarrow> file_safe ns = file_safe ns'"
  by (simp add: file_path_def)

lemma file_path_not_tmp: "tmp_name p d \<noteq> file_path dir ns"
  by (rule tmp_name_neq) (simp add: file_path_def endswith_def)

lemma file_load_save:
  assumes "file_save dir d ns e = (r, d')"
  shows "r = Inr () \<Longrightarrow>
      file_load dir d' ns' = (if file_safe ns' = file_safe ns then e else file_load dir d ns')"
    and "r = Inl x \<Longrightarrow> file_load dir d' ns' = file_load dir d ns'"
  using atomic_write_files [OF assms [unfolded file_save_def]] file_path_not_tmp [symmetric]
  by (auto simp: file_load_def file_path_eq)

lemma file_save_cases: "file_save dir d ns e = (r, d') \<Longrightarrow> r = Inr () \<or> r = Inl OSError"
  unfolding file_save_def by (rule atomic_write_files(3))

lemma file_look_save:
  assumes "file_save dir d ns e = (r, d')"
  shows "r = Inr () \<Longrightarrow> file_look dir d' ns' k =
      (if file_safe ns' = file_safe ns then map_of e k else file_look dir d ns' k)"
    and "r = Inl x \<Longrightarrow> file_look dir d' ns' k = file_look dir d ns' k"
  using file_load_save [OF assms, where ns' = ns'] by (simp_all add: file_look_def)

lemma file_look_slot: "file_safe ns' = file_safe ns \<Longrightarrow> map_of (file_load dir d ns) k = file_look dir d ns' k"
  by (simp add: file_look_def file_load_def file_path_def)

interpretation file_kv: kv_store "file_look dir" "\<lambda>_. file_safe" "file_get dir" "file_set dir"
    "file_delete dir" "file_all dir" "file_replace dir" for dir
proof unfold_locales
  fix s s' :: disk and ns ns' k k' v e m
  show "file_get dir s ns k v = (case file_look dir s ns k of None \<Rightarrow> v | Some v \<Rightarrow> v)"
    by (simp add: file_get_def file_look_def dget_or_def)
  show "file_look dir s' ns' k' =
      (if file_safe ns' = file_safe ns \<and> k' = k then Some v else file_look dir s ns' k')"
    if "file_set dir s ns k v = (Inr (), s')"
    using file_look_save(1) [OF that [unfolded file_set_def] refl, of ns' k']
      file_look_slot [of ns' ns dir s k']
    by (auto simp: dict_simps)
  show "file_look dir s' ns' k' = file_look dir s ns' k'"
    if "file_set dir s ns k v = (Inl e, s')"
    by (rule file_look_save(2) [OF that [unfolded file_set_def] refl])
  show "file_look dir s' ns' k' =
      (if file_safe ns' = file_safe ns \<and> k' = k then None else file_look dir s ns' k')"
    if del: "file_delete dir s ns k = (Inr (), s')"
  proof (cases "k \<in> fst ` set (file_load dir s ns)")
    case True
    then have "file_save dir s ns (AList.delete k (file_load dir s ns)) = (Inr (), s')"
      using del by (simp add: file_delete_def)
    from file_look_save(1) [OF this refl, of ns' k'] file_look_slot [of ns' ns dir s k']
    show ?thesis by (auto simp: dict_simps)
  next
    case False
    then have "s' = s" using del by (simp add: file_delete_def)
    moreover have "file_look dir s ns' k = None" if "file_safe ns' = file_safe ns"
      using False file_look_slot [OF that, of dir s k] by (metis map_of_eq_None_iff)
    ultimately show ?thesis by auto
  qed
  show "file_look dir s' ns' k' = file_look dir s ns' k'"
    if "file_delete dir s ns k = (Inl e, s')"
  proof -
    from that have "file_save dir s ns (AList.delete k (file_load dir s ns)) = (Inl e, s')"
      by (simp add: file_delete_def Let_def split: if_splits)
    then show ?thesis by (rule file_look_save(2)) simp
  qed
  show "map_of (file_all dir s ns) k = file_look dir s ns k"
    by (simp add: file_all_def file_look_def)
  show "file_look dir s' ns' k' =
      (if file_safe ns' = file_safe ns then map_of m k' else file_look dir s ns' k')"
    if "file_replace dir s ns m = (Inr (), s')"
    by (rule file_look_save(1) [OF that [unfolded file_replace_def] refl])
  show "file_look dir s' ns' k' = file_look dir s ns' k'"
    if "file_replace dir s ns m = (Inl e, s')"
    by (rule file_look_save(2) [OF that [unfolded file_replace_def] refl])
qed

section \<open>The configured backend\<close>

datatype backend = MemoryBackend memory | FileBackend string

record store =
  backend :: backend
  disk :: disk

text \<open>
  \<open>get_backend()\<close> on first use: an empty setting counts as \<open>file\<close>, an unknown one raises.
\<close>

definition get_backend :: "config \<Rightarrow> string \<Rightarrow> backend res" where
  "get_backend cfg state_dir =
     (let kind = lower (if state_backend cfg = [] then ''file'' else state_backend cfg) in
      if kind = ''memory'' then Inr (MemoryBackend [])
      else if kind = ''file'' then Inr (FileBackend state_dir)
      else Inl ValueError)"

fun store_get :: "store \<Rightarrow> string \<Rightarrow> string \<Rightarrow> pyval \<Rightarrow> pyval" where
  "store_get st ns k dflt = (case backend st of
     MemoryBackend m \<Rightarrow> mem_get m ns k dflt | FileBackend dir \<Rightarrow> file_get dir (disk st) ns k dflt)"

fun store_all :: "store \<Rightarrow> string \<Rightarrow> dict" where
  "store_all st ns = (case backend st of
     MemoryBackend m \<Rightarrow> mem_all m ns | FileBackend dir \<Rightarrow> file_all dir (disk st) ns)"

fun store_set :: "store \<Rightarrow> string \<Rightarrow> string \<Rightarrow> pyval \<Rightarrow> unit res \<times> store" where
  "store_set st ns k v = (case backend st of
     MemoryBackend m \<Rightarrow> (let (r, m') = mem_set m ns k v in (r, st\<lparr>backend := MemoryBackend m'\<rparr>))
   | FileBackend dir \<Rightarrow> (let (r, d) = file_set dir (disk st) ns k v in (r, st\<lparr>disk := d\<rparr>)))"

fun store_delete :: "store \<Rightarrow> string \<Rightarrow> string \<Rightarrow> unit res \<times> store" where
  "store_delete st ns k = (case backend st of
     MemoryBackend m \<Rightarrow> (let (r, m') = mem_delete m ns k in (r, st\<lparr>backend := MemoryBackend m'\<rparr>))
   | FileBackend dir \<Rightarrow> (let (r, d) = file_delete dir (disk st) ns k in (r, st\<lparr>disk := d\<rparr>)))"

fun store_replace :: "store \<Rightarrow> string \<Rightarrow> dict \<Rightarrow> unit res \<times> store" where
  "store_replace st ns e = (case backend st of
     MemoryBackend m \<Rightarrow> (let (r, m') = mem_replace m ns e in (r, st\<lparr>backend := MemoryBackend m'\<rparr>))
   | FileBackend dir \<Rightarrow> (let (r, d) = file_replace dir (disk st) ns e in (r, st\<lparr>disk := d\<rparr>)))"

definition store_look :: "store \<Rightarrow> string \<Rightarrow> string \<Rightarrow> pyval option" where
  "store_look st ns k = (case backend st of
     MemoryBackend m \<Rightarrow> mem_look m ns k | FileBackend dir \<Rightarrow> file_look dir (disk st) ns k)"

definition store_slot :: "store \<Rightarrow> string \<Rightarrow> string" where
  "store_slot st ns = (case backend st of MemoryBackend m \<Rightarrow> ns | FileBackend dir \<Rightarrow> file_safe ns)"

interpretation store_kv: kv_store store_look store_slot store_get store_set store_delete store_all store_replace
proof unfold_locales
  fix s s' :: store and ns ns' k k' v e m
  note defs = store_look_def store_slot_def Let_def split_beta
  note splits = backend.splits
  show "store_get s ns k v = (case store_look s ns k of None \<Rightarrow> v | Some v \<Rightarrow> v)"
    by (simp add: defs memory_kv.get_look file_kv.get_look split: splits)
  show "map_of (store_all s ns) k = store_look s ns k"
    by (simp add: defs memory_kv.everything_look file_kv.everything_look split: splits)
  show "store_look s' ns' k' =
      (if store_slot s ns' = store_slot s ns \<and> k' = k then Some v else store_look s ns' k')"
    if "store_set s ns k v = (Inr (), s')"
    using that memory_kv.put_ok file_kv.put_ok by (auto simp: defs prod_eq_iff split: splits)
  show "store_look s' ns' k' = store_look s ns' k'" if "store_set s ns k v = (Inl e, s')"
    using that memory_kv.put_err file_kv.put_err by (auto simp: defs prod_eq_iff split: splits)
  show "store_look s' ns' k' =
      (if store_slot s ns' = store_slot s ns \<and> k' = k then None else store_look s ns' k')"
    if "store_delete s ns k = (Inr (), s')"
    using that memory_kv.remove_ok file_kv.remove_ok by (auto simp: defs prod_eq_iff split: splits)
  show "store_look s' ns' k' = store_look s ns' k'" if "store_delete s ns k = (Inl e, s')"
    using that memory_kv.remove_err file_kv.remove_err by (auto simp: defs prod_eq_iff split: splits)
  show "store_look s' ns' k' =
      (if store_slot s ns' = store_slot s ns then map_of m k' else store_look s ns' k')"
    if "store_replace s ns m = (Inr (), s')"
    using that memory_kv.replace_ok file_kv.replace_ok by (auto simp: defs prod_eq_iff split: splits)
  show "store_look s' ns' k' = store_look s ns' k'" if "store_replace s ns m = (Inl e, s')"
    using that memory_kv.replace_err file_kv.replace_err by (auto simp: defs prod_eq_iff split: splits)
qed

declare store_get.simps [simp del] store_all.simps [simp del] store_set.simps [simp del]
  store_delete.simps [simp del] store_replace.simps [simp del]

section \<open>Properties\<close>

lemma atomic_write_slept:
  assumes "atomic_write_json path data d = (r, d')"
  shows "slept d \<le> slept d'" "slept d' \<le> slept d + 126 / 100"
proof -
  obtain t d1 where t: "next_tmp d = (t, d1)" by fastforce
  have d1: "slept d1 = slept d"
    using next_tmp_frame(2) [of d] t by simp
  obtain ok d3 where l: "replace_loop 6 (2 / 100) (tmp_name path d) path
      (d1\<lparr>files := (files d1)(tmp_name path d \<mapsto> Json data)\<rparr>) = (ok, d3)"
    by fastforce
  have "slept d \<le> slept d3 \<and> slept d3 \<le> slept d + 126 / 100"
    using replace_loop_slept [OF _ l] d1 by simp
  then show "slept d \<le> slept d'" "slept d' \<le> slept d + 126 / 100"
    using assms t l d1 by (cases t; cases ok; auto simp: atomic_write_json_def Let_def)+
qed

text \<open>
  C23: A write is all or nothing: it either installs the new content and returns, or raises
  \<open>OSError\<close> and leaves the file as it was; no other file changes but its own temporary,
  and it never sleeps longer than 1.26 seconds in all, whatever the system calls do.
\<close>

theorem atomic_write_all_or_nothing:
  assumes "atomic_write_json path data d = (r, d')"
  shows "(r = Inr () \<and> files d' path = Some (Json data) \<and> files d' (tmp_name path d) = None \<or>
          r = Inl OSError \<and> files d' path = files d path) \<and>
         (q = path \<or> q = tmp_name path d \<or> files d' q = files d q) \<and>
         slept d \<le> slept d' \<and> slept d' \<le> slept d + 126 / 100"
proof -
  have neq: "tmp_name path d \<noteq> path" by (simp add: tmp_name_def)
  note f = atomic_write_files [OF assms]
  from f(3) show ?thesis
  proof
    assume r: "r = Inr ()"
    with f(1) neq atomic_write_slept [OF assms] show ?thesis by auto
  next
    assume r: "r = Inl OSError"
    with f(2) neq atomic_write_slept [OF assms] show ?thesis by auto
  qed
qed

definition empty_disk :: disk where
  "empty_disk = \<lparr>files = Map.empty, tmp_script = [], replace_script = [], pid = ''7'', slept = 0\<rparr>"

theorem atomic_write_all_or_nothing_witness:
  "\<exists>r d'. atomic_write_json ''a.json'' (PyInt 1) (empty_disk\<lparr>replace_script := [PermissionDenied]\<rparr>) = (r, d')
     \<and> slept d' \<le> slept (empty_disk\<lparr>replace_script := [PermissionDenied]\<rparr>) + 126 / 100"
proof -
  obtain r d' where w:
    "atomic_write_json ''a.json'' (PyInt 1) (empty_disk\<lparr>replace_script := [PermissionDenied]\<rparr>) = (r, d')"
    by fastforce
  with atomic_write_all_or_nothing [OF w, of "''b''"] show ?thesis by blast
qed

lemma replace_loop_retries:
  assumes "replace_script d = replicate k PermissionDenied @ rs"
  shows "replace_loop (k + n) delay tmp path d =
    replace_loop n (2 ^ k * delay) tmp path
      (d\<lparr>replace_script := rs, slept := slept d + delay * (2 ^ k - 1)\<rparr>)"
  using assms
proof (induction k arbitrary: d delay)
  case (Suc k)
  have step: "next_replace d =
      (PermissionDenied, d\<lparr>replace_script := replicate k PermissionDenied @ rs\<rparr>)"
    using Suc.prems by (simp add: next_replace_def)
  show ?case
    by (simp add: step Suc.IH algebra_simps)
next
  case 0
  then show ?case by (cases d) simp
qed

text \<open>
  A lock that another process releases within the first six attempts is survived: the
  write succeeds after \<open>k < 6\<close> permission errors, having slept 0.02, 0.04, ... seconds; six
  of them, and it gives up.
\<close>

theorem transient_lock_survived:
  assumes "tmp_script d = []" and "replace_script d = replicate k PermissionDenied @ rs"
    and "k < 6 \<Longrightarrow> rs = [] \<or> hd rs = ReplaceOk"
  shows "fst (atomic_write_json path data d) = (if k < 6 then Inr () else Inl OSError) \<and>
         slept (snd (atomic_write_json path data d)) = slept d + 2 / 100 * (2 ^ min k 6 - 1)"
proof -
  let ?d = "d\<lparr>files := (files d)(tmp_name path d \<mapsto> Json data)\<rparr>"
  show ?thesis
  proof (cases "k < 6")
    case True
    then obtain n where n: "6 = k + Suc n" by (metis less_natE add_Suc_right)
    have ok: "next_replace (?d\<lparr>replace_script := rs, slept := x\<rparr>) =
        (ReplaceOk, ?d\<lparr>replace_script := tl rs, slept := x\<rparr>)" for x
      using assms(3) [OF True] by (cases rs) (auto simp: next_replace_def)
    have "replace_loop 6 (2 / 100) (tmp_name path d) path ?d =
        (True, ?d\<lparr>replace_script := tl rs, slept := slept d + 2 / 100 * (2 ^ k - 1),
           files := (files ?d)(path := files ?d (tmp_name path d), tmp_name path d := None)\<rparr>)"
      unfolding n by (subst replace_loop_retries [where rs = rs]) (simp_all add: assms(2) ok)
    then show ?thesis
      using True by (simp add: atomic_write_json_def next_tmp_def assms(1) Let_def)
  next
    case False
    then have "replicate k PermissionDenied = replicate 6 PermissionDenied @ replicate (k - 6) PermissionDenied"
      by (simp flip: replicate_add)
    then have "replace_script ?d = replicate 6 PermissionDenied @ replicate (k - 6) PermissionDenied @ rs"
      by (simp add: assms(2))
    from replace_loop_retries [OF this, of 0 "2 / 100" "tmp_name path d" path] show ?thesis
      using False by (simp add: atomic_write_json_def next_tmp_def assms(1) Let_def)
  qed
qed

theorem transient_lock_survived_witness:
  "fst (atomic_write_json ''a.json'' PyNone
     (empty_disk\<lparr>replace_script := [PermissionDenied, PermissionDenied, ReplaceOk]\<rparr>)) = Inr ()"
  using transient_lock_survived
    [of "empty_disk\<lparr>replace_script := [PermissionDenied, PermissionDenied, ReplaceOk]\<rparr>" 2 "[ReplaceOk]"]
  by (simp add: empty_disk_def numeral_2_eq_2)

text \<open>
  Reading back through the configured backend: after a write that returned, the key has
  the value written; every other key of the namespace, and after a write that raised every
  key, reads as before.
\<close>

theorem store_reads_what_was_written:
  assumes "store_set st ns k v = (r, st')"
  shows "case r of
      Inr _ \<Rightarrow> store_get st' ns k dflt = v \<and>
               (k' = k \<or> store_get st' ns k' dflt = store_get st ns k' dflt)
    | Inl _ \<Rightarrow> store_get st' ns' k' dflt = store_get st ns' k' dflt"
  using assms
  by (auto split: sum.splits intro: store_kv.get_after_put store_kv.get_after_put_other
      store_kv.get_after_failed_put)

theorem store_reads_what_was_written_witness:
  "case fst (store_set \<lparr>backend = FileBackend ''s'', disk = empty_disk\<rparr> ''devices'' ''d1'' (PyInt 4)) of
      Inr _ \<Rightarrow> store_get (snd (store_set \<lparr>backend = FileBackend ''s'', disk = empty_disk\<rparr> ''devices'' ''d1'' (PyInt 4)))
                 ''devices'' ''d1'' PyNone = PyInt 4
    | Inl _ \<Rightarrow> True"
proof -
  obtain r st' where w:
    "store_set \<lparr>backend = FileBackend ''s'', disk = empty_disk\<rparr> ''devices'' ''d1'' (PyInt 4) = (r, st')"
    by fastforce
  show ?thesis
    using store_reads_what_was_written [OF w, where dflt = PyNone and k' = "''d1''" and ns' = "''devices''"]
    by (auto simp: w split: sum.splits)
qed

lemma next_scripts_empty:
  "tmp_script d = [] \<Longrightarrow> next_tmp d = (TmpWritten, d)"
  "replace_script d = [] \<Longrightarrow> next_replace d = (ReplaceOk, d)"
  by (simp_all add: next_tmp_def next_replace_def)

definition healthy :: "disk \<Rightarrow> bool" where
  "healthy d \<longleftrightarrow> tmp_script d = [] \<and> replace_script d = []"

lemma atomic_write_healthy:
  assumes "healthy d"
  shows "\<exists>d'. atomic_write_json path data d = (Inr (), d') \<and> healthy d'"
proof -
  have "replace_loop 6 x tmp path e =
      (True, e\<lparr>files := (files e)(path := files e tmp, tmp := None)\<rparr>)"
    if "replace_script e = []" for x tmp e
    using that by (simp add: numeral_eq_Suc next_scripts_empty)
  with assms show ?thesis
    by (simp add: atomic_write_json_def healthy_def next_scripts_empty Let_def)
qed

lemma file_exec_healthy:
  "healthy d \<Longrightarrow> \<exists>d'. kv_exec (file_set dir) (file_delete dir) (file_replace dir) op d = (Inr (), d') \<and> healthy d'"
  by (cases op)
    (auto simp: file_set_def file_delete_def file_replace_def file_save_def Let_def
      intro: atomic_write_healthy)

lemma file_run_healthy:
  "healthy d \<Longrightarrow> \<exists>d'. kv_run (file_set dir) (file_delete dir) (file_replace dir) ops d = (Inr (), d')"
proof (induction ops arbitrary: d)
  case (Cons op ops)
  then obtain d1 where "kv_exec (file_set dir) (file_delete dir) (file_replace dir) op d = (Inr (), d1)" "healthy d1"
    using file_exec_healthy by blast
  with Cons.IH show ?case by auto
qed simp

lemma mem_run_ok: "\<exists>m'. kv_run mem_set mem_delete mem_replace ops m = (Inr (), m')"
proof (induction ops arbitrary: m)
  case (Cons op ops)
  then show ?case
    by (cases op) (simp_all add: mem_set_def mem_delete_def mem_replace_def)
qed simp



end
