(* ===== verification/Revocation.thy ===== *)
theory Revocation
  imports Storage
begin

text \<open>
  \<open>common/revocation.py\<close> and \<open>common/token_store.py\<close>: the revocation list that the Gateway
  consults on every request, the index of recently issued tokens, and the loop that the
  admin tools run over both (\<open>tools/revoke_token.py\<close>).

  Both files are read and written whole; what \<open>json.load\<close> returns is any JSON value, so a
  file with another shape raises where the code would. A missing or unreadable file reads
  as empty. Each operation takes its readings of the clock as arguments.
\<close>

definition REVOCATION_LIST_PATH :: string where
  "REVOCATION_LIST_PATH = ''logs/revoked_tokens.json''"

definition ISSUED_TOKENS_PATH :: string where
  "ISSUED_TOKENS_PATH = ''logs/issued_tokens.json''"

abbreviation py_time :: "time \<Rightarrow> pyval" where
  "py_time t \<equiv> PyFloat (Fin t)"

section \<open>The revocation list\<close>

definition rev_load :: "disk \<Rightarrow> pyval" where
  "rev_load d = (case files d REVOCATION_LIST_PATH of
     None \<Rightarrow> PyDict [] | Some Unparsable \<Rightarrow> PyDict [] | Some (Json v) \<Rightarrow> v)"

definition rev_save :: "dict \<Rightarrow> disk \<Rightarrow> unit res \<times> disk" where
  "rev_save e d = atomic_write_json REVOCATION_LIST_PATH (PyDict e) d"

text \<open>
  \<open>revoke(jti, exp, reason)\<close>: \<open>now\<close> is the reading for \<open>revoked_at\<close>, \<open>now'\<close> the one for
  the default expiry. \<open>expiry\<close> is \<open>PyNone\<close> when it is not supplied.
\<close>

definition revoke :: "string \<Rightarrow> pyval \<Rightarrow> string \<Rightarrow> time \<Rightarrow> time \<Rightarrow> disk \<Rightarrow> unit res \<times> disk" where
  "revoke jti expiry reason now now' d =
     (case rev_load d of
        PyDict e \<Rightarrow>
          rev_save (dset jti (PyDict [
            (''revoked_at'', py_time now),
            (''expires_at'', if expiry = PyNone then py_time (now' + 86400) else expiry),
            (''reason'', PyStr reason)]) e) d
      | _ \<Rightarrow> (Inl TypeError, d))"

text \<open>\<open>jti in data\<close> for whatever the file holds.\<close>

fun json_has :: "pyval \<Rightarrow> pyval \<Rightarrow> bool res" where
  "json_has (PyDict e) k =
     (if hashable k then Inr (\<exists>s \<in> fst ` set e. k = PyStr s) else Inl TypeError)"
| "json_has (PyList vs) k = Inr (list_ex (py_eq k) vs)"
| "json_has (PyStr s) k = (case k of PyStr p \<Rightarrow> Inr (contains p s) | _ \<Rightarrow> Inl TypeError)"
| "json_has _ k = Inl TypeError"

definition is_revoked :: "pyval \<Rightarrow> disk \<Rightarrow> bool res" where
  "is_revoked jti d = (if \<not> py_truth jti then Inr False else json_has (rev_load d) jti)"

text \<open>\<open>v.get("expires_at", 0) > now\<close> and \<open>r.get("exp", 0) > now\<close>.\<close>

definition later_than :: "time \<Rightarrow> string \<Rightarrow> pyval \<Rightarrow> bool res" where
  "later_than now field v = ebind (as_dict v) (\<lambda>e. num_lt (py_time now) (dget_or e field (PyInt 0)))"

definition cleanup_expired :: "time \<Rightarrow> disk \<Rightarrow> int res \<times> disk" where
  "cleanup_expired now d =
     (case ebind (as_dict (rev_load d)) (\<lambda>e.
             ebind (efilter (\<lambda>(k, v). later_than now ''expires_at'' v) e) (\<lambda>kept. Inr (e, kept))) of
        Inl x \<Rightarrow> (Inl x, d)
      | Inr (e, kept) \<Rightarrow>
          (case rev_save kept d of
             (Inl x, d1) \<Rightarrow> (Inl x, d1)
           | (Inr _, d1) \<Rightarrow> (Inr (int (length e) - int (length kept)), d1)))"

section \<open>The contract of a revocation list\<close>

text \<open>
  What the Gateway and the tools rely on: a revocation that returned is seen by the next
  check, and no later revocation, successful or not, takes it back. \<open>invar\<close> says that the
  stored list has the shape the module writes.
\<close>

locale revocation_list =
  fixes invar :: "'s \<Rightarrow> bool"
    and revoked :: "string \<Rightarrow> 's \<Rightarrow> bool"
    and do_revoke :: "string \<Rightarrow> 'i \<Rightarrow> 's \<Rightarrow> unit res \<times> 's"
  assumes revoke_sees: "invar s \<Longrightarrow> do_revoke j i s = (Inr (), s') \<Longrightarrow> j \<noteq> [] \<Longrightarrow> revoked j s'"
    and revoke_keeps: "invar s \<Longrightarrow> do_revoke j i s = (r, s') \<Longrightarrow> revoked k s \<Longrightarrow> revoked k s'"
    and revoke_only: "invar s \<Longrightarrow> do_revoke j i s = (r, s') \<Longrightarrow> k \<noteq> j \<Longrightarrow> revoked k s' \<Longrightarrow> revoked k s"
    and revoke_invar: "invar s \<Longrightarrow> do_revoke j i s = (r, s') \<Longrightarrow> invar s'"

fun revoke_each ::
  "(string \<Rightarrow> 'i \<Rightarrow> 's \<Rightarrow> unit res \<times> 's) \<Rightarrow> (string \<times> 'i) list \<Rightarrow> 's \<Rightarrow> unit res \<times> 's" where
  "revoke_each do_revoke [] s = (Inr (), s)"
| "revoke_each do_revoke ((j, i) # js) s =
     (case do_revoke j i s of
        (Inl e, s1) \<Rightarrow> (Inl e, s1)
      | (Inr _, s1) \<Rightarrow> revoke_each do_revoke js s1)"

context revocation_list
begin

lemma revoke_each_keeps:
  "invar s \<Longrightarrow> revoke_each do_revoke js s = (r, s') \<Longrightarrow> revoked k s \<Longrightarrow> revoked k s' \<and> invar s'"
proof (induction js arbitrary: s)
  case (Cons x js)
  obtain j i where x: "x = (j, i)" by fastforce
  obtain q s1 where s1: "do_revoke j i s = (q, s1)" by fastforce
  show ?case
    using Cons.prems Cons.IH [of s1] revoke_keeps [OF _ s1] revoke_invar [OF _ s1]
    by (auto simp: x s1 split: sum.splits)
qed auto

lemma revoke_each_invar:
  "invar s \<Longrightarrow> revoke_each do_revoke js s = (r, s') \<Longrightarrow> invar s'"
proof (induction js arbitrary: s)
  case (Cons x js)
  obtain j i where x: "x = (j, i)" by fastforce
  obtain q s1 where s1: "do_revoke j i s = (q, s1)" by fastforce
  show ?case
    using Cons.prems Cons.IH [of s1] revoke_invar [OF _ s1]
    by (auto simp: x s1 split: sum.splits)
qed auto

text \<open>The loop of the admin tools: if it returns, everything it went over is revoked.\<close>

lemma revoke_each_all:
  "invar s \<Longrightarrow> revoke_each do_revoke js s = (Inr (), s') \<Longrightarrow> (j, i) \<in> set js \<Longrightarrow> j \<noteq> [] \<Longrightarrow>
   revoked j s'"
proof (induction js arbitrary: s)
  case (Cons x js)
  obtain k l where x: "x = (k, l)" by fastforce
  obtain q s1 where s1: "do_revoke k l s = (q, s1)" by fastforce
  have q: "q = Inr ()" and rest: "revoke_each do_revoke js s1 = (Inr (), s')"
    using Cons.prems(2) by (auto simp: x s1 split: sum.splits)
  have inv: "invar s1" using Cons.prems(1) s1 by (rule revoke_invar)
  show ?case
  proof (cases "(j, i) = (k, l)")
    case True
    then have "revoked j s1"
      using revoke_sees [OF Cons.prems(1)] s1 q Cons.prems(4) by auto
    then show ?thesis using revoke_each_keeps [OF inv rest] by blast
  next
    case False
    then show ?thesis using Cons.IH [OF inv rest] Cons.prems(3,4) x by auto
  qed
qed simp

lemma revoke_each_only:
  "invar s \<Longrightarrow> revoke_each do_revoke js s = (r, s') \<Longrightarrow> revoked k s' \<Longrightarrow> k \<notin> fst ` set js \<Longrightarrow> revoked k s"
proof (induction js arbitrary: s)
  case (Cons x js)
  obtain j i where x: "x = (j, i)" by fastforce
  obtain q s1 where s1: "do_revoke j i s = (q, s1)" by fastforce
  have inv: "invar s1" using Cons.prems(1) s1 by (rule revoke_invar)
  have "revoked k s1"
  proof (cases q)
    case (Inl e)
    then show ?thesis using Cons.prems by (simp add: x s1)
  next
    case (Inr u)
    then have "revoke_each do_revoke js s1 = (r, s')" using Cons.prems(2) by (simp add: x s1)
    then show ?thesis using Cons.IH [OF inv] Cons.prems(3,4) by (simp add: x)
  qed
  moreover have "k \<noteq> j" using Cons.prems(4) by (simp add: x)
  ultimately show ?case using revoke_only [OF Cons.prems(1) s1] by blast
qed simp

end

text \<open>The module's own list as such a list: the extra arguments of \<open>revoke\<close> are the input.\<close>

type_synonym revoke_args = "pyval \<times> string \<times> time \<times> time"

fun revoke_with :: "string \<Rightarrow> revoke_args \<Rightarrow> disk \<Rightarrow> unit res \<times> disk" where
  "revoke_with jti (expiry, reason, now, now') d = revoke jti expiry reason now now' d"

definition rev_wf :: "disk \<Rightarrow> bool" where
  "rev_wf d \<longleftrightarrow> (case rev_load d of PyDict e \<Rightarrow> True | _ \<Rightarrow> False)"

definition on_list :: "string \<Rightarrow> disk \<Rightarrow> bool" where
  "on_list jti d \<longleftrightarrow> is_revoked (PyStr jti) d = Inr True"

lemma rev_wf_iff: "rev_wf d \<longleftrightarrow> (\<exists>e. rev_load d = PyDict e)"
  by (auto simp: rev_wf_def split: pyval.splits)

lemma state_path_ends [simp]:
  "endswith REVOCATION_LIST_PATH ''n''" "endswith ISSUED_TOKENS_PATH ''n''"
  "REVOCATION_LIST_PATH \<noteq> ISSUED_TOKENS_PATH" "ISSUED_TOKENS_PATH \<noteq> REVOCATION_LIST_PATH"
  by (simp_all add: REVOCATION_LIST_PATH_def ISSUED_TOKENS_PATH_def endswith_def)

lemma rev_load_save:
  assumes "rev_save e d = (r, d')"
  shows "r = Inr () \<Longrightarrow> rev_load d' = PyDict e" "r = Inl x \<Longrightarrow> rev_load d' = rev_load d"
  using atomic_write_read [OF assms [unfolded rev_save_def], of REVOCATION_LIST_PATH]
  by (simp_all add: rev_load_def)

lemma on_list_dict:
  "rev_load d = PyDict e \<Longrightarrow> on_list jti d \<longleftrightarrow> jti \<noteq> [] \<and> jti \<in> fst ` set e"
  by (auto simp: on_list_def is_revoked_def)

lemma revoke_load:
  assumes "rev_load d = PyDict e" and "revoke jti expiry reason now now' d = (r, d')"
  shows "(r = Inr () \<and> (\<exists>v. rev_load d' = PyDict (dset jti v e))) \<or> (\<exists>x. r = Inl x \<and> rev_load d' = PyDict e)"
  using assms rev_load_save [of _ d r d'] by (cases r) (auto simp: revoke_def)

interpretation rev: revocation_list rev_wf on_list revoke_with
proof unfold_locales
  fix s s' :: disk and j k r and i :: revoke_args
  assume wf: "rev_wf s" and step: "revoke_with j i s = (r, s')"
  obtain e where e: "rev_load s = PyDict e" using wf by (auto simp: rev_wf_iff)
  obtain a b c f where i: "i = (a, b, c, f)" by (cases i) auto
  have cases: "(r = Inr () \<and> (\<exists>v. rev_load s' = PyDict (dset j v e))) \<or> (\<exists>x. r = Inl x \<and> rev_load s' = PyDict e)"
    using revoke_load [OF e] step by (simp add: i)
  then show "rev_wf s'" by (auto simp: rev_wf_iff)
  have keys: "fst ` set (dset j v e) = insert j (fst ` set e)" for v
    by (simp add: dom_update)
  define K where "K = fst ` set e"
  have before: "on_list n s \<longleftrightarrow> n \<noteq> [] \<and> n \<in> K" for n
    by (simp add: on_list_dict [OF e] K_def)
  have "(\<forall>n. on_list n s' \<longleftrightarrow> n \<noteq> [] \<and> n \<in> insert j K) \<or> (\<forall>n. on_list n s' \<longleftrightarrow> n \<noteq> [] \<and> n \<in> K)"
    using cases keys on_list_dict by (metis K_def)
  then show "on_list k s \<Longrightarrow> on_list k s'" "k \<noteq> j \<Longrightarrow> on_list k s' \<Longrightarrow> on_list k s"
    using before by auto
next
  fix s s' :: disk and j and i :: revoke_args
  assume wf: "rev_wf s" and step: "revoke_with j i s = (Inr (), s')" and "j \<noteq> []"
  obtain e where e: "rev_load s = PyDict e" using wf by (auto simp: rev_wf_iff)
  obtain a b c f where i: "i = (a, b, c, f)" by (cases i) auto
  obtain v where "rev_load s' = PyDict (dset j v e)"
    using revoke_load [OF e, of j a b c f "Inr ()" s'] step by (auto simp: i)
  then show "on_list j s'"
    using \<open>j \<noteq> []\<close> by (simp add: on_list_dict dom_update)
qed

section \<open>Issued tokens\<close>

definition tok_load :: "disk \<Rightarrow> pyval" where
  "tok_load d = (case files d ISSUED_TOKENS_PATH of
     None \<Rightarrow> PyList [] | Some Unparsable \<Rightarrow> PyList [] | Some (Json v) \<Rightarrow> v)"

definition tok_save :: "pyval list \<Rightarrow> disk \<Rightarrow> unit res \<times> disk" where
  "tok_save records d = atomic_write_json ISSUED_TOKENS_PATH (PyList records) d"

text \<open>\<open>record_issued\<close>: \<open>expiry\<close> is the parameter \<open>exp\<close>.\<close>

definition record_issued :: "string \<Rightarrow> string \<Rightarrow> pyval \<Rightarrow> pyval \<Rightarrow> time \<Rightarrow> disk \<Rightarrow> unit res \<times> disk" where
  "record_issued jti username expiry device_id now d =
     (case ebind (py_iter (tok_load d)) (efilter (later_than now ''exp'')) of
        Inl x \<Rightarrow> (Inl x, d)
      | Inr records \<Rightarrow>
          tok_save (records @ [PyDict [
            (''jti'', PyStr jti), (''username'', PyStr username), (''exp'', expiry),
            (''issued_at'', py_time now), (''device_id'', device_id)]]) d)"

text \<open>
  \<open>[r["jti"] for r in records if r.get(field) == x and r.get("exp", 0) > now]\<close>, the
  comprehension of \<open>active_jtis_for_user\<close> and \<open>active_jtis_for_device\<close>.
\<close>

definition active_record :: "string \<Rightarrow> pyval \<Rightarrow> time \<Rightarrow> pyval \<Rightarrow> bool res" where
  "active_record field x now r =
     ebind (as_dict r) (\<lambda>e. if py_eq (dget e field) x then later_than now ''exp'' r else Inr False)"

definition active_jtis_by :: "string \<Rightarrow> pyval \<Rightarrow> time \<Rightarrow> disk \<Rightarrow> pyval list res" where
  "active_jtis_by field x now d =
     ebind (py_iter (tok_load d)) (\<lambda>rs.
     ebind (efilter (active_record field x now) rs)
       (emap (\<lambda>r. ebind (as_dict r) (\<lambda>e. dreq e ''jti''))))"

definition active_jtis_for_user :: "pyval \<Rightarrow> time \<Rightarrow> disk \<Rightarrow> pyval list res" where
  "active_jtis_for_user username now d = active_jtis_by ''username'' username now d"

definition active_jtis_for_device :: "string \<Rightarrow> time \<Rightarrow> disk \<Rightarrow> pyval list res" where
  "active_jtis_for_device device_id now d = active_jtis_by ''device_id'' (PyStr device_id) now d"

definition load_all :: "time \<Rightarrow> disk \<Rightarrow> pyval list res" where
  "load_all now d = ebind (py_iter (tok_load d)) (efilter (later_than now ''exp''))"

text \<open>The shape the module itself gives a record.\<close>

fun token_record :: "string \<times> string \<times> int \<times> time \<times> pyval \<Rightarrow> pyval" where
  "token_record (jti, username, expiry, issued, device) = PyDict [
     (''jti'', PyStr jti), (''username'', PyStr username), (''exp'', PyInt expiry),
     (''issued_at'', py_time issued), (''device_id'', device)]"

definition tok_wf :: "(string \<times> string \<times> int \<times> time \<times> pyval) list \<Rightarrow> disk \<Rightarrow> bool" where
  "tok_wf ts d \<longleftrightarrow> tok_load d = PyList (map token_record ts)"

lemma later_than_record [simp]:
  "later_than now ''exp'' (token_record (j, u, x, i, dv)) = Inr (now < of_int x)"
  by (simp add: later_than_def as_dict_def dict_simps num_lt_def)

lemma active_record_record:
  "active_record ''username'' (PyStr v) now (token_record (j, u, x, i, dv)) =
     Inr (u = v \<and> now < of_int x)"
  "active_record ''device_id'' (PyStr v) now (token_record (j, u, x, i, PyStr dv')) =
     Inr (dv' = v \<and> now < of_int x)"
  unfolding active_record_def by (simp_all add: as_dict_def dict_simps py_eq_def)
     (simp_all add: later_than_def as_dict_def dict_simps num_lt_def)

lemma efilter_records:
  "(\<And>t. p (token_record t) = Inr (q t)) \<Longrightarrow>
   efilter p (map token_record ts) = Inr (map token_record (filter q ts))"
  by (induction ts) auto

lemma emap_jtis:
  "emap (\<lambda>r. ebind (as_dict r) (\<lambda>e. dreq e ''jti'')) (map token_record ts) = Inr (map (PyStr \<circ> fst) ts)"
  by (induction ts) (auto simp: as_dict_def dict_simps)

lemma tok_load_save:
  assumes "tok_save rs d = (r, d')"
  shows "r = Inr () \<Longrightarrow> tok_load d' = PyList rs" "r = Inl x \<Longrightarrow> tok_load d' = tok_load d"
    "rev_load d' = rev_load d"
  using atomic_write_read [OF assms [unfolded tok_save_def], of ISSUED_TOKENS_PATH]
    atomic_write_read [OF assms [unfolded tok_save_def], of REVOCATION_LIST_PATH]
  by (simp_all add: tok_load_def rev_load_def)

lemma rev_save_tok: "rev_save e d = (r, d') \<Longrightarrow> tok_load d' = tok_load d"
  using atomic_write_read [of REVOCATION_LIST_PATH "PyDict e" d r d' ISSUED_TOKENS_PATH]
  by (simp add: rev_save_def tok_load_def)

lemma record_issued_wf:
  assumes "tok_wf ts d" and "record_issued j u (PyInt x) dv now d = (Inr (), d')"
  shows "tok_wf (filter (\<lambda>(j, u, x, i, dv). now < of_int x) ts @ [(j, u, x, now, dv)]) d'"
proof -
  have "later_than now ''exp'' (token_record t) = Inr ((\<lambda>(j, u, x, i, dv). now < of_int x) t)" for t
    by (cases t) (simp del: token_record.simps)
  from efilter_records [where q = "\<lambda>(j, u, x, i, dv). now < of_int x", OF this] have "tok_save (map token_record (filter (\<lambda>(j, u, x, i, dv). now < of_int x) ts @ [(j, u, x, now, dv)])) d
      = (Inr (), d')"
    using assms by (simp add: record_issued_def tok_wf_def)
  then show ?thesis
    using tok_load_save(1) by (simp add: tok_wf_def)
qed

lemma active_jtis_user_wf:
  assumes "tok_wf ts d"
  shows "active_jtis_for_user (PyStr u) now d =
    Inr (map (PyStr \<circ> fst) (filter (\<lambda>(j, v, x, i, dv). v = u \<and> now < of_int x) ts))"
proof -
  have "active_record ''username'' (PyStr u) now (token_record t) =
      Inr ((\<lambda>(j, v, x, i, dv). v = u \<and> now < of_int x) t)" for t
    by (cases t) (simp add: active_record_record del: token_record.simps)
  from efilter_records [where q = "\<lambda>(j, v, x, i, dv). v = u \<and> now < of_int x", OF this] show ?thesis
    using assms
    by (simp add: active_jtis_for_user_def active_jtis_by_def tok_wf_def emap_jtis)
qed

section \<open>\<open>tools/revoke_token.py\<close>\<close>

record revoke_cli =
  cli_jti :: "string option"
  cli_user :: "string option"
  cli_reason :: string

fun opt_str :: "string option \<Rightarrow> pyval" where
  "opt_str None = PyNone"
| "opt_str (Some s) = PyStr s"

text \<open>
  The token ids of the index are strings, as \<open>record_issued\<close> writes them; for an index that
  holds anything else the model stops with an error here, where the tool would go on.
\<close>

fun jti_string :: "pyval \<Rightarrow> string res" where
  "jti_string (PyStr s) = Inr s"
| "jti_string _ = Inl TypeError"

text \<open>
  \<open>now\<close> is the reading of \<open>active_jtis_for_user\<close>, \<open>clk i\<close> the two readings of the \<open>i\<close>th
  call of \<open>revoke\<close>. The result is the number of tokens revoked.
\<close>

definition revoke_token_main :: "revoke_cli \<Rightarrow> time \<Rightarrow> (nat \<Rightarrow> time \<times> time) \<Rightarrow> disk \<Rightarrow> nat res \<times> disk" where
  "revoke_token_main args now clk d =
     (if py_truth (opt_str (cli_jti args)) then
        (case revoke (the (cli_jti args)) PyNone (cli_reason args) (fst (clk 0)) (snd (clk 0)) d of
           (Inl e, d1) \<Rightarrow> (Inl e, d1) | (Inr _, d1) \<Rightarrow> (Inr 1, d1))
      else
        (case ebind (active_jtis_for_user (opt_str (cli_user args)) now d) (emap jti_string) of
           Inl e \<Rightarrow> (Inl e, d)
         | Inr js \<Rightarrow>
             (case revoke_each revoke_with
                (map (\<lambda>(i, j). (j, PyNone, cli_reason args, fst (clk i), snd (clk i))) (enumerate 0 js)) d of
                (Inl e, d1) \<Rightarrow> (Inl e, d1) | (Inr _, d1) \<Rightarrow> (Inr (length js), d1))))"

section \<open>Properties\<close>

text \<open>
  C17: A revocation that returned is in force: the next check of that token says revoked, every
  token revoked before still is, and no other token became revoked. One that raised
  changed nothing.
\<close>

theorem revoke_takes_effect:
  assumes "rev_wf d" and "revoke jti expiry reason now now' d = (r, d')" and "jti \<noteq> []"
  shows "is_revoked (PyStr jti) d' = Inr (r = Inr () \<or> is_revoked (PyStr jti) d = Inr True) \<and>
         (k = jti \<or> is_revoked (PyStr k) d' = is_revoked (PyStr k) d) \<and> rev_wf d'"
proof -
  obtain e where e: "rev_load d = PyDict e" using assms(1) by (auto simp: rev_wf_iff)
  consider v where "r = Inr ()" "rev_load d' = PyDict (dset jti v e)" | x where "r = Inl x" "rev_load d' = PyDict e"
    using revoke_load [OF e assms(2)] by auto
  then show ?thesis
  proof cases
    case 1
    then show ?thesis using assms(3) e by (auto simp: is_revoked_def rev_wf_iff dom_update)
  next
    case 2
    then show ?thesis using assms(3) e by (simp add: is_revoked_def rev_wf_iff)
  qed
qed

theorem revoke_takes_effect_witness:
  "\<exists>r d'. revoke ''j1'' PyNone ''manual_revocation'' 10 10 empty_disk = (r, d') \<and>
     is_revoked (PyStr ''j1'') d' = Inr (r = Inr () \<or> is_revoked (PyStr ''j1'') empty_disk = Inr True)"
proof -
  have wf: "rev_wf empty_disk" by (simp add: rev_wf_def rev_load_def empty_disk_def)
  obtain r d' where w: "revoke ''j1'' PyNone ''manual_revocation'' 10 10 empty_disk = (r, d')"
    by fastforce
  have "is_revoked (PyStr ''j1'') d' = Inr (r = Inr () \<or> is_revoked (PyStr ''j1'') empty_disk = Inr True)"
    using revoke_takes_effect [OF wf w, of "''x''"] by simp
  with w show ?thesis by blast
qed

lemma revoke_user_revokes:
  assumes "rev_wf d" and "tok_wf ts d"
    and "revoke_token_main \<lparr>cli_jti = None, cli_user = Some u, cli_reason = reason\<rparr> now clk d = (Inr n, d')"
  shows "((j, u, x, i, dv) \<in> set ts \<and> now < of_int x \<and> j \<noteq> [] \<longrightarrow> is_revoked (PyStr j) d' = Inr True) \<and>
         (is_revoked (PyStr k) d' = Inr True \<longrightarrow>
            is_revoked (PyStr k) d = Inr True \<or> (\<exists>x i dv. (k, u, x, i, dv) \<in> set ts \<and> now < of_int x))"
proof -
  define live where "live = filter (\<lambda>(j, v, x, i, dv). v = u \<and> now < of_int x) ts"
  define args where "args = map (\<lambda>(i, j). (j, PyNone, reason, fst (clk i), snd (clk i))) (enumerate 0 (map fst live))"
  have strs: "emap jti_string (map (PyStr \<circ> fst) xs) = Inr (map fst xs)" for xs :: "(string \<times> 'z) list"
    by (induction xs) auto
  have jtis: "active_jtis_for_user (PyStr u) now d = Inr (map (PyStr \<circ> fst) live)"
    using active_jtis_user_wf [OF assms(2)] by (simp add: live_def)
  have run: "revoke_each revoke_with args d = (Inr (), d')"
    using assms(3) by (auto simp: revoke_token_main_def jtis strs args_def split: prod.splits sum.splits)
  have keys: "fst ` set args = fst ` set live"
  proof -
    have "map fst args = map fst live"
      by (simp add: args_def comp_def split_beta)
    then show ?thesis by (metis list.set_map)
  qed
  have "on_list j d'" if "(j, u, x, i, dv) \<in> set ts" "now < of_int x" "j \<noteq> []"
  proof -
    have "j \<in> fst ` set live" using that(1,2) by (force simp: live_def)
    then obtain a where "(j, a) \<in> set args" using keys by force
    then show ?thesis using rev.revoke_each_all [OF assms(1) run _ that(3)] by blast
  qed
  moreover have "on_list k d \<or> (\<exists>x i dv. (k, u, x, i, dv) \<in> set ts \<and> now < of_int x)" if "on_list k d'"
  proof (cases "k \<in> fst ` set live")
    case True
    then obtain x i dv where "(k, u, x, i, dv) \<in> set ts" "now < of_int x" by (auto simp: live_def)
    then show ?thesis by blast
  next
    case False
    then show ?thesis using rev.revoke_each_only [OF assms(1) run that] keys by blast
  qed
  ultimately show ?thesis by (auto simp: on_list_def)
qed

text \<open>
  C18: "Revoke every session of a user" does so: if \<open>revoke_token --user\<close> returns, every token
  of that user that the index records and that has not expired is revoked, and the only
  tokens that became revoked are such tokens.
\<close>

theorem revoke_user_kills_sessions:
  assumes "rev_wf d" and "tok_wf ts d"
    and "revoke_token_main \<lparr>cli_jti = None, cli_user = Some u, cli_reason = reason\<rparr> now clk d = (Inr n, d')"
  shows "((j, u, x, i, dv) \<in> set ts \<and> now < of_int x \<and> j \<noteq> [] \<longrightarrow> is_revoked (PyStr j) d' = Inr True) \<and>
         (is_revoked (PyStr k) d' = Inr True \<longrightarrow>
            is_revoked (PyStr k) d = Inr True \<or> (\<exists>x i dv. (k, u, x, i, dv) \<in> set ts \<and> now < of_int x))"
  by (rule revoke_user_revokes [OF assms])

definition two_sessions :: disk where
  "two_sessions = empty_disk\<lparr>files := [ISSUED_TOKENS_PATH \<mapsto>
     Json (PyList (map token_record [(''t1'', ''bob'', 50, 5, PyNone), (''t2'', ''eve'', 60, 6, PyNone)]))]\<rparr>"

theorem revoke_user_kills_sessions_witness:
  "\<exists>n d'. revoke_token_main \<lparr>cli_jti = None, cli_user = Some ''bob'', cli_reason = ''r''\<rparr> 20 (\<lambda>_. (20, 20))
     two_sessions = (Inr n, d') \<and> is_revoked (PyStr ''t1'') d' = Inr True"
proof -
  have wf: "rev_wf two_sessions" "tok_wf [(''t1'', ''bob'', 50, 5, PyNone), (''t2'', ''eve'', 60, 6, PyNone)] two_sessions"
    by (simp_all add: two_sessions_def rev_wf_def rev_load_def tok_wf_def tok_load_def)
  have live: "active_jtis_for_user (PyStr ''bob'') 20 two_sessions = Inr [PyStr ''t1'']"
    using active_jtis_user_wf [OF wf(2)] by simp
  have "healthy two_sessions" by (simp add: two_sessions_def empty_disk_def healthy_def)
  moreover have "rev_load two_sessions = PyDict []" by (simp add: two_sessions_def rev_load_def)
  ultimately obtain d' where "revoke ''t1'' PyNone ''r'' 20 20 two_sessions = (Inr (), d')"
    using atomic_write_healthy by (fastforce simp: revoke_def rev_save_def)
  then have run: "revoke_token_main \<lparr>cli_jti = None, cli_user = Some ''bob'', cli_reason = ''r''\<rparr> 20 (\<lambda>_. (20, 20))
     two_sessions = (Inr 1, d')"
    by (simp add: revoke_token_main_def live)
  have "is_revoked (PyStr ''t1'') d' = Inr True"
    using revoke_user_kills_sessions [OF wf run, of "''t1''" 50 5 PyNone] by simp
  with run show ?thesis by blast
qed

text \<open>The shape that \<open>revoke\<close> gives the list when every expiry is a number of seconds.\<close>

fun rev_entry :: "string \<times> time \<times> time \<times> string \<Rightarrow> string \<times> pyval" where
  "rev_entry (j, t, x, why) = (j, PyDict [
     (''revoked_at'', py_time t), (''expires_at'', py_time x), (''reason'', PyStr why)])"

text \<open>
  Cleaning up drops the entries whose token has expired, counts them, and nothing else:
  a revoked token stays revoked as long as the expiry recorded for it is in the future.
\<close>

theorem cleanup_drops_only_expired:
  assumes "rev_load d = PyDict (map rev_entry es)" and "distinct (map fst es)"
    and "cleanup_expired now d = (Inr n, d')"
  shows "n = int (length (filter (\<lambda>(j, t, x, why). x \<le> now) es)) \<and>
    (is_revoked (PyStr j) d' = Inr True \<longleftrightarrow>
       j \<noteq> [] \<and> (\<exists>t x why. (j, t, x, why) \<in> set es \<and> now < x))"
proof -
  let ?p = "\<lambda>(j, t, x, why). now < (x :: time)"
  have kept: "efilter (\<lambda>(k, v). later_than now ''expires_at'' v) (map rev_entry xs) =
      Inr (map rev_entry (filter ?p xs))" for xs :: "(string \<times> time \<times> time \<times> string) list"
    by (induction xs) (auto simp: later_than_def as_dict_def dict_simps num_lt_def)
  have "rev_save (map rev_entry (filter ?p es)) d = (Inr (), d')"
    and n: "n = int (length es) - int (length (filter ?p es))"
    using assms(3) by (auto simp: cleanup_expired_def assms(1) as_dict_def kept split: sum.splits prod.splits)
  then have load: "rev_load d' = PyDict (map rev_entry (filter ?p es))"
    using rev_load_save(1) by blast
  have keys: "fst ` set (map rev_entry xs) = fst ` set xs" for xs :: "(string \<times> time \<times> time \<times> string) list"
    by (force simp: image_iff elim!: rev_entry.elims)
  have "length (filter ?p es) + length (filter (\<lambda>(j, t, x, why). x \<le> now) es) = length es"
    by (induction es) auto
  then show ?thesis
    using n by (auto simp: is_revoked_def load keys split_beta image_iff)
qed

theorem cleanup_drops_only_expired_witness:
  "\<exists>n d'. cleanup_expired 20 (empty_disk\<lparr>files := [REVOCATION_LIST_PATH \<mapsto>
       Json (PyDict (map rev_entry [(''a'', 1, 10, ''x''), (''b'', 1, 30, ''y'')]))]\<rparr>) = (Inr n, d') \<and>
     n = 1 \<and> is_revoked (PyStr ''b'') d' = Inr True"
proof -
  let ?es = "[(''a'', 1, 10, ''x''), (''b'', 1, 30, ''y'')] :: (string \<times> time \<times> time \<times> string) list"
  let ?d = "empty_disk\<lparr>files := [REVOCATION_LIST_PATH \<mapsto> Json (PyDict (map rev_entry ?es))]\<rparr>"
  have load: "rev_load ?d = PyDict (map rev_entry ?es)" by (simp add: rev_load_def)
  have "healthy ?d" by (simp add: empty_disk_def healthy_def)
  then obtain d' where w: "rev_save [rev_entry (''b'', 1, 30, ''y'')] ?d = (Inr (), d')"
    using atomic_write_healthy by (fastforce simp: rev_save_def)
  have run: "cleanup_expired 20 ?d = (Inr 1, d')"
    unfolding cleanup_expired_def load
    using w by (simp add: as_dict_def later_than_def num_lt_def dict_simps)
  have "is_revoked (PyStr ''b'') d' = Inr True"
    using cleanup_drops_only_expired [OF load _ run, of "''b''"] by simp
  with run show ?thesis by blast
qed

end
