(* ===== verification/Json.thy ===== *)
theory Json
  imports PyValues "HOL-Library.List_Lexorder" "HOL-Library.Char_ord"
begin

text \<open>
  \<open>json.dumps\<close> with its defaults (\<open>ensure_ascii\<close>, separators \<open>", "\<close> and \<open>": "\<close>), with and
  without \<open>sort_keys\<close>. Keys are ordered as Python orders strings: by code point, which for
  UTF-8 is the order of the bytes. The shortest decimal form that \<open>float.__repr__\<close> prints is
  the parameter \<open>fr\<close>.
\<close>

definition hex4 :: "nat \<Rightarrow> string" where
  "hex4 n = map (\<lambda>i. ''0123456789abcdef'' ! (n div 16 ^ i mod 16)) [3, 2, 1, 0]"

definition u_escape :: "nat \<Rightarrow> string" where
  "u_escape n = CHR 0x5C # CHR ''u'' # hex4 n"

text \<open>The escape of one code point.\<close>

definition json_char :: "nat \<Rightarrow> string" where
  "json_char n =
     (if n = 34 then [CHR 0x5C, CHR 0x22]
      else if n = 92 then [CHR 0x5C, CHR 0x5C]
      else if n = 10 then [CHR 0x5C, CHR ''n'']
      else if n = 13 then [CHR 0x5C, CHR ''r'']
      else if n = 9 then [CHR 0x5C, CHR ''t'']
      else if n = 12 then [CHR 0x5C, CHR ''f'']
      else if n = 8 then [CHR 0x5C, CHR ''b'']
      else if 32 \<le> n \<and> n < 127 then [char_of n]
      else if n < 0x10000 then u_escape n
      else u_escape (0xD800 + (n - 0x10000) div 1024) @ u_escape (0xDC00 + (n - 0x10000) mod 1024))"

text \<open>The code points of a string, from its UTF-8 bytes.\<close>

fun code_points :: "nat list \<Rightarrow> nat list" where
  "code_points (a # b # c # d # s) =
     (if a < 128 then a # code_points (b # c # d # s)
      else if a < 224 then ((a - 192) * 64 + (b - 128)) # code_points (c # d # s)
      else if a < 240 then ((a - 224) * 4096 + (b - 128) * 64 + (c - 128)) # code_points (d # s)
      else ((a - 240) * 262144 + (b - 128) * 4096 + (c - 128) * 64 + (d - 128)) # code_points s)"
| "code_points (a # b # c # s) =
     (if a < 128 then a # code_points (b # c # s)
      else if a < 224 then ((a - 192) * 64 + (b - 128)) # code_points (c # s)
      else ((a - 224) * 4096 + (b - 128) * 64 + (c - 128)) # code_points s)"
| "code_points (a # b # s) =
     (if a < 128 then a # code_points (b # s)
      else ((a - 192) * 64 + (b - 128)) # code_points s)"
| "code_points (a # s) = a # code_points s"
| "code_points [] = []"

definition json_string :: "string \<Rightarrow> string" where
  "json_string s = CHR 0x22 # concat (map json_char (code_points (map of_char s))) @ [CHR 0x22]"

fun json_float :: "(real \<Rightarrow> string) \<Rightarrow> pyfloat \<Rightarrow> string" where
  "json_float fr (Fin x) = fr x"
| "json_float fr PosInf = ''Infinity''"
| "json_float fr NegInf = ''-Infinity''"
| "json_float fr NaN = ''NaN''"

function (sequential) json_dumps :: "(real \<Rightarrow> string) \<Rightarrow> bool \<Rightarrow> pyval \<Rightarrow> string" where
  "json_dumps fr srt PyNone = ''null''"
| "json_dumps fr srt (PyBool b) = (if b then ''true'' else ''false'')"
| "json_dumps fr srt (PyInt i) = dec_int i"
| "json_dumps fr srt (PyFloat x) = json_float fr x"
| "json_dumps fr srt (PyStr s) = json_string s"
| "json_dumps fr srt (PyList vs) = ''['' @ join_with '', '' (map (json_dumps fr srt) vs) @ '']''"
| "json_dumps fr srt (PyDict d) =
     ''{'' @ join_with '', '' (map (\<lambda>(k, v). json_string k @ '': '' @ json_dumps fr srt v)
       (if srt then sort_key fst d else d)) @ ''}''"
  by pat_completeness auto

lemma size_dict_value [termination_simp]:
  "(k, v) \<in> set d \<Longrightarrow> size v < Suc (size_list (size_prod (\<lambda>_. 0) size) d)"
  by (induction d) auto

termination json_dumps
proof (relation "measure (\<lambda>(fr, srt, v). size v)")
  show "wf (measure (\<lambda>(fr, srt, v). size v))" by simp
next
  fix fr :: "real \<Rightarrow> string" and srt vs and z :: pyval
  assume "z \<in> set vs"
  then have "size z < Suc (size_list size vs)" by (simp add: size_list_estimation less_Suc_eq_le size_list_estimation')
  then show "((fr, srt, z), (fr, srt, PyList vs)) \<in> measure (\<lambda>(fr, srt, v). size v)" by simp
qed (auto simp: size_dict_value split: if_splits)

end
