(* ===== verification/Hashes.thy ===== *)
theory Hashes
  imports PyStrings "HOL-Library.Word"
begin

unbundle bit_operations_syntax

text \<open>
  The parts of \<open>hashlib\<close> and \<open>hmac\<close> that the program calls: \<open>sha256(..).hexdigest()\<close>
  (audit log, PEM fingerprints, proof payloads) and \<open>hmac.new(key, msg, sha1).digest()\<close> (TOTP),
  on bytes as \<open>8 word\<close> and on 32-bit words with wrap-around addition, as FIPS 180-4 and
  RFC 2104 define them. The theorems of the components use only the lengths proved here and
  that the digest is ASCII; none assumes that the functions are free of collisions.
\<close>

type_synonym byte = "8 word"

definition bytes_of :: "string \<Rightarrow> byte list" where
  "bytes_of s = map (\<lambda>c. word_of_nat (of_char c)) s"

definition be_word :: "byte list \<Rightarrow> 32 word" where
  "be_word bs = foldl (\<lambda>w b. push_bit 8 w OR ucast b) 0 bs"

definition be_bytes :: "nat \<Rightarrow> int \<Rightarrow> byte list" where
  "be_bytes n x = map (\<lambda>i. word_of_int (x div 256 ^ i)) (rev [0..<n])"

definition word_bytes :: "32 word \<Rightarrow> byte list" where
  "word_bytes w = be_bytes 4 (uint w)"

lemma length_be_bytes [simp]: "length (be_bytes n x) = n"
  by (simp add: be_bytes_def)

lemma length_word_bytes [simp]: "length (word_bytes w) = 4"
  by (simp add: word_bytes_def)

text \<open>Cutting into pieces of a given size.\<close>

fun chunks_of :: "nat \<Rightarrow> 'a list \<Rightarrow> 'a list list" where
  "chunks_of n xs = (if n = 0 \<or> xs = [] then [] else take n xs # chunks_of n (drop n xs))"

declare chunks_of.simps [simp del]

definition md_pad :: "byte list \<Rightarrow> byte list" where
  "md_pad m = m @ 0x80 # replicate (nat ((55 - int (length m)) mod 64)) 0 @ be_bytes 8 (8 * int (length m))"

definition blocks16 :: "byte list \<Rightarrow> 32 word list list" where
  "blocks16 m = map (\<lambda>b. map be_word (chunks_of 4 b)) (chunks_of 64 (md_pad m))"

section \<open>SHA-256\<close>

definition SHA256_K :: "32 word list" where
  "SHA256_K = [
      1116352408, 1899447441, 3049323471, 3921009573, 961987163, 1508970993, 2453635748, 2870763221,
      3624381080, 310598401, 607225278, 1426881987, 1925078388, 2162078206, 2614888103, 3248222580,
      3835390401, 4022224774, 264347078, 604807628, 770255983, 1249150122, 1555081692, 1996064986,
      2554220882, 2821834349, 2952996808, 3210313671, 3336571891, 3584528711, 113926993, 338241895,
      666307205, 773529912, 1294757372, 1396182291, 1695183700, 1986661051, 2177026350, 2456956037,
      2730485921, 2820302411, 3259730800, 3345764771, 3516065817, 3600352804, 4094571909, 275423344,
      430227734, 506948616, 659060556, 883997877, 958139571, 1322822218, 1537002063, 1747873779,
      1955562222, 2024104815, 2227730452, 2361852424, 2428436474, 2756734187, 3204031479, 3329325298]"

definition SHA256_H0 :: "32 word list" where
  "SHA256_H0 = [1779033703, 3144134277, 1013904242, 2773480762, 1359893119, 2600822924, 528734635, 1541459225]"

definition rotr32 :: "nat \<Rightarrow> 32 word \<Rightarrow> 32 word" where
  "rotr32 n w = drop_bit n w OR push_bit (32 - n) w"

fun sha256_schedule :: "nat \<Rightarrow> 32 word list \<Rightarrow> 32 word list" where
  "sha256_schedule 0 w = w"
| "sha256_schedule (Suc n) w =
     (let t = length w; a = w ! (t - 15); b = w ! (t - 2);
          s0 = rotr32 7 a XOR rotr32 18 a XOR drop_bit 3 a;
          s1 = rotr32 17 b XOR rotr32 19 b XOR drop_bit 10 b
      in sha256_schedule n (w @ [s1 + w ! (t - 7) + s0 + w ! (t - 16)]))"

fun sha256_round :: "32 word list \<Rightarrow> 32 word \<times> 32 word \<Rightarrow> 32 word list" where
  "sha256_round [a, b, c, d, e, f, g, h] (k, w) =
     (let s1 = rotr32 6 e XOR rotr32 11 e XOR rotr32 25 e;
          ch = (e AND f) XOR (NOT e AND g);
          t1 = h + s1 + ch + k + w;
          s0 = rotr32 2 a XOR rotr32 13 a XOR rotr32 22 a;
          maj = (a AND b) XOR (a AND c) XOR (b AND c)
      in [t1 + (s0 + maj), a, b, c, d + t1, e, f, g])"
| "sha256_round st _ = st"

definition sha256_block :: "32 word list \<Rightarrow> 32 word list \<Rightarrow> 32 word list" where
  "sha256_block st b = map2 (+) st (foldl sha256_round st (zip SHA256_K (sha256_schedule 48 b)))"

definition sha256 :: "byte list \<Rightarrow> byte list" where
  "sha256 m = concat (map word_bytes (foldl sha256_block SHA256_H0 (blocks16 m)))"

section \<open>SHA-1 and HMAC\<close>

definition SHA1_H0 :: "32 word list" where
  "SHA1_H0 = [1732584193, 4023233417, 2562383102, 271733878, 3285377520]"

fun sha1_schedule :: "nat \<Rightarrow> 32 word list \<Rightarrow> 32 word list" where
  "sha1_schedule 0 w = w"
| "sha1_schedule (Suc n) w =
     (let t = length w in
      sha1_schedule n (w @ [rotr32 31 (w ! (t - 3) XOR w ! (t - 8) XOR w ! (t - 14) XOR w ! (t - 16))]))"

definition sha1_f :: "nat \<Rightarrow> 32 word \<Rightarrow> 32 word \<Rightarrow> 32 word \<Rightarrow> 32 word \<times> 32 word" where
  "sha1_f t b c d =
     (if t < 20 then ((b AND c) OR (NOT b AND d), 0x5a827999)
      else if t < 40 then (b XOR c XOR d, 0x6ed9eba1)
      else if t < 60 then ((b AND c) OR (b AND d) OR (c AND d), 0x8f1bbcdc)
      else (b XOR c XOR d, 0xca62c1d6))"

fun sha1_round :: "32 word list \<Rightarrow> nat \<times> 32 word \<Rightarrow> 32 word list" where
  "sha1_round [a, b, c, d, e] (t, w) =
     (let (f, k) = sha1_f t b c d in [rotr32 27 a + f + e + k + w, a, rotr32 2 b, c, d])"
| "sha1_round st _ = st"

definition sha1_block :: "32 word list \<Rightarrow> 32 word list \<Rightarrow> 32 word list" where
  "sha1_block st b = map2 (+) st (foldl sha1_round st (enumerate 0 (sha1_schedule 64 b)))"

definition sha1 :: "byte list \<Rightarrow> byte list" where
  "sha1 m = concat (map word_bytes (foldl sha1_block SHA1_H0 (blocks16 m)))"

text \<open>\<open>hmac.new(key, msg, hashlib.sha1).digest()\<close>; the block size of SHA-1 is 64 bytes.\<close>

definition hmac_sha1 :: "byte list \<Rightarrow> byte list \<Rightarrow> byte list" where
  "hmac_sha1 key msg =
     (let k = (if length key > 64 then sha1 key else key);
          k0 = k @ replicate (64 - length k) 0
      in sha1 (map (\<lambda>b. b XOR 0x5c) k0 @ sha1 (map (\<lambda>b. b XOR 0x36) k0 @ msg)))"

section \<open>Lengths\<close>

lemma sha256_round_length [simp]: "length st = 8 \<Longrightarrow> length (sha256_round st kw) = 8"
  by (induction st kw rule: sha256_round.induct) (simp_all add: Let_def)

lemma sha1_round_length [simp]: "length st = 5 \<Longrightarrow> length (sha1_round st tw) = 5"
  by (induction st tw rule: sha1_round.induct) (simp_all add: Let_def split: prod.splits)

lemma foldl_length:
  "(\<And>st x. length st = n \<Longrightarrow> length (f st x) = n) \<Longrightarrow> length st = n \<Longrightarrow> length (foldl f st xs) = n"
  by (induction xs arbitrary: st) auto

lemma length_concat_const: "(\<And>x. x \<in> set xs \<Longrightarrow> length (f x) = n) \<Longrightarrow> length (concat (map f xs)) = n * length xs"
  by (induction xs) auto

lemma length_sha256 [simp]: "length (sha256 m) = 32"
proof -
  have "length (foldl sha256_round st xs) = 8" if "length st = 8" for st xs
    using that by (intro foldl_length) auto
  then have "length (foldl sha256_block SHA256_H0 bs) = 8" for bs
    by (intro foldl_length) (simp_all add: sha256_block_def SHA256_H0_def)
  then show ?thesis by (simp add: sha256_def length_concat_const [where n=4])
qed

lemma length_sha1 [simp]: "length (sha1 m) = 20"
proof -
  have "length (foldl sha1_round st xs) = 5" if "length st = 5" for st xs
    using that by (intro foldl_length) auto
  then have "length (foldl sha1_block SHA1_H0 bs) = 5" for bs
    by (intro foldl_length) (simp_all add: sha1_block_def SHA1_H0_def)
  then show ?thesis by (simp add: sha1_def length_concat_const [where n=4])
qed

lemma length_hmac_sha1 [simp]: "length (hmac_sha1 k m) = 20"
  by (simp add: hmac_sha1_def Let_def)

section \<open>Hexadecimal digests\<close>

definition hex_chars :: string where
  "hex_chars = ''0123456789abcdef''"

definition hex_digit :: "nat \<Rightarrow> char" where
  "hex_digit n = hex_chars ! (n mod 16)"

fun hex_of :: "byte list \<Rightarrow> string" where
  "hex_of [] = []"
| "hex_of (b # bs) = hex_digit (unat b div 16) # hex_digit (unat b) # hex_of bs"

definition sha256_hex :: "string \<Rightarrow> string" where
  "sha256_hex s = hex_of (sha256 (bytes_of s))"

lemma length_hex_of [simp]: "length (hex_of bs) = 2 * length bs"
  by (induction bs) auto

lemma length_sha256_hex [simp]: "length (sha256_hex s) = 64"
  by (simp add: sha256_hex_def)

lemma hex_digit_chars: "hex_digit n \<in> set hex_chars"
proof -
  have "n mod 16 < length hex_chars" by (simp add: hex_chars_def)
  then show ?thesis unfolding hex_digit_def by (rule nth_mem)
qed

lemma hex_of_chars: "c \<in> set (hex_of bs) \<Longrightarrow> c \<in> set hex_chars"
  using hex_digit_chars by (induction bs) auto

lemma sha256_hex_nonempty [simp]: "sha256_hex s \<noteq> []"
proof
  assume "sha256_hex s = []"
  with length_sha256_hex [of s] show False by simp
qed

end
