(* ===== verification/AuditLog.thy ===== *)
theory AuditLog
  imports Json Hashes
begin

text \<open>
  \<open>common/audit_log.py\<close> and \<open>tools/verify_audit_log.py\<close>: the hash-chained log of access
  decisions. The file is a list of lines, each blank, not JSON, or a JSON value; a line that
  \<open>log_event\<close> writes reads back as the event it was given. An event's \<open>timestamp_iso\<close>
  (\<open>strftime\<close> in the local zone) is an argument, like the clock.
\<close>

datatype log_line = Blank | Garbage | Line pyval

record audit =
  log_lines :: "log_line list option"
  log_writable :: bool

definition GENESIS_HASH :: string where
  "GENESIS_HASH = replicate 64 (CHR ''0'')"

definition compute_hash :: "(real \<Rightarrow> string) \<Rightarrow> pyval \<Rightarrow> dict \<Rightarrow> string res" where
  "compute_hash fr prev e =
     (case prev of
        PyStr p \<Rightarrow> Inr (sha256_hex (json_dumps fr True (PyDict e) @ p))
      | _ \<Rightarrow> Inl TypeError)"

fun last_hash_from :: "pyval \<Rightarrow> log_line list \<Rightarrow> pyval res" where
  "last_hash_from h [] = Inr h"
| "last_hash_from h (Line v # ls) = ebind (as_dict v) (\<lambda>e. last_hash_from (dget_or e ''hash'' h) ls)"
| "last_hash_from h (_ # ls) = last_hash_from h ls"

definition read_last_hash :: "audit \<Rightarrow> pyval res" where
  "read_last_hash a =
     (case log_lines a of None \<Rightarrow> Inr (PyStr GENESIS_HASH) | Some ls \<Rightarrow> last_hash_from (PyStr GENESIS_HASH) ls)"

text \<open>
  \<open>log_event\<close> in the two steps that another process can come between: the lock around them
  is a \<open>threading.Lock\<close>, private to one process.
\<close>

definition audit_event :: "time \<Rightarrow> string \<Rightarrow> dict \<Rightarrow> dict" where
  "audit_event now stamp given =
     dupdate [(''timestamp'', PyFloat (Fin now)), (''timestamp_iso'', PyStr stamp)] given"

definition audit_append :: "(real \<Rightarrow> string) \<Rightarrow> dict \<Rightarrow> pyval \<Rightarrow> audit \<Rightarrow> unit res \<times> audit" where
  "audit_append fr event prev a =
     (let e = dset ''prev_hash'' prev event in
      case compute_hash fr prev e of
        Inl x \<Rightarrow> (Inl x, a)
      | Inr h \<Rightarrow>
          (if log_writable a then
             (Inr (), a\<lparr>log_lines := Some ((case log_lines a of None \<Rightarrow> [] | Some ls \<Rightarrow> ls) @
                                       [Line (PyDict (dset ''hash'' (PyStr h) e))])\<rparr>)
           else (Inl OSError, a)))"

definition log_event :: "(real \<Rightarrow> string) \<Rightarrow> time \<Rightarrow> string \<Rightarrow> dict \<Rightarrow> audit \<Rightarrow> unit res \<times> audit" where
  "log_event fr now stamp given a =
     (case read_last_hash a of
        Inl x \<Rightarrow> (Inl x, a)
      | Inr prev \<Rightarrow> audit_append fr (audit_event now stamp given) prev a)"

fun line_value :: "log_line \<Rightarrow> pyval option" where
  "line_value (Line v) = Some v"
| "line_value _ = None"

definition read_events :: "audit \<Rightarrow> pyval list" where
  "read_events a = (case log_lines a of None \<Rightarrow> [] | Some ls \<Rightarrow> List.map_filter line_value ls)"

text \<open>The result of the verification: the number of events, or the first event at fault and why.\<close>

datatype chain_reason = PrevMismatch | HashMismatch

datatype verdict = Intact nat | Broken nat chain_reason nat

fun verify_from :: "(real \<Rightarrow> string) \<Rightarrow> nat \<Rightarrow> nat \<Rightarrow> string \<Rightarrow> pyval list \<Rightarrow> verdict res" where
  "verify_from fr n i expected [] = Inr (Intact n)"
| "verify_from fr n i expected (v # vs) =
     ebind (as_dict v) (\<lambda>e.
       if \<not> py_eq (dget e ''prev_hash'') (PyStr expected) then Inr (Broken i PrevMismatch n)
       else ebind (compute_hash fr (PyStr expected) (filter (\<lambda>(k, x). k \<noteq> ''hash'') e)) (\<lambda>h.
         if \<not> py_eq (PyStr h) (dget e ''hash'') then Inr (Broken i HashMismatch n)
         else verify_from fr n (Suc i) h vs))"

definition verify_events_chain :: "(real \<Rightarrow> string) \<Rightarrow> pyval list \<Rightarrow> verdict res" where
  "verify_events_chain fr vs = verify_from fr (length vs) 1 GENESIS_HASH vs"

definition verify_chain :: "(real \<Rightarrow> string) \<Rightarrow> audit \<Rightarrow> verdict res" where
  "verify_chain fr a = verify_events_chain fr (read_events a)"

text \<open>\<open>tools/verify_audit_log.py\<close>: the exit code of the command.\<close>

definition verify_audit_log_main :: "(real \<Rightarrow> string) \<Rightarrow> audit \<Rightarrow> int res" where
  "verify_audit_log_main fr a =
     ebind (verify_chain fr a) (\<lambda>r. Inr (case r of Intact _ \<Rightarrow> 0 | Broken _ _ _ \<Rightarrow> 1))"


section \<open>The chain as a predicate on events\<close>

definition hash_of :: "pyval \<Rightarrow> pyval" where
  "hash_of v = (case v of PyDict e \<Rightarrow> dget e ''hash'' | _ \<Rightarrow> PyNone)"

definition prev_of :: "pyval \<Rightarrow> pyval" where
  "prev_of v = (case v of PyDict e \<Rightarrow> dget e ''prev_hash'' | _ \<Rightarrow> PyNone)"

text \<open>What an event says: its canonical JSON without the \<open>hash\<close> field.\<close>

definition event_json :: "(real \<Rightarrow> string) \<Rightarrow> pyval \<Rightarrow> string" where
  "event_json fr v = (case v of PyDict e \<Rightarrow> json_dumps fr True (PyDict (filter (\<lambda>(k, x). k \<noteq> ''hash'') e)) | _ \<Rightarrow> [])"

text \<open>\<open>linked fr p v h\<close>: the event \<open>v\<close> follows the hash \<open>p\<close> and has the hash \<open>h\<close>.\<close>

definition linked :: "(real \<Rightarrow> string) \<Rightarrow> string \<Rightarrow> pyval \<Rightarrow> string \<Rightarrow> bool" where
  "linked fr p v h \<longleftrightarrow> (\<exists>e. v = PyDict e) \<and> prev_of v = PyStr p \<and> hash_of v = PyStr h \<and>
     h = sha256_hex (event_json fr v @ p)"

fun chained :: "(real \<Rightarrow> string) \<Rightarrow> string \<Rightarrow> pyval list \<Rightarrow> string \<Rightarrow> bool" where
  "chained fr p [] h = (h = p)"
| "chained fr p (v # vs) h = (\<exists>q. linked fr p v q \<and> chained fr q vs h)"

lemma verify_from_chained:
  "verify_from fr n i p vs = Inr (Intact m) \<longleftrightarrow> m = n \<and> (\<exists>h. chained fr p vs h)"
proof (induction vs arbitrary: i p)
  case Nil
  then show ?case by auto
next
  case (Cons v vs)
  then show ?case
    by (cases v) (auto simp: as_dict_def linked_def prev_of_def hash_of_def event_json_def
        compute_hash_def)
qed

lemma chained_append:
  "chained fr p (us @ vs) h \<longleftrightarrow> (\<exists>q. chained fr p us q \<and> chained fr q vs h)"
  by (induction us arbitrary: p) auto

lemma chained_last:
  "chained fr p vs h \<Longrightarrow> vs \<noteq> [] \<Longrightarrow> hash_of (last vs) = PyStr h"
  by (induction vs arbitrary: p) (auto simp: linked_def)

lemma chained_fun: "chained fr p vs h \<Longrightarrow> chained fr p vs h' \<Longrightarrow> h = h'"
  by (induction vs arbitrary: p) (auto simp: linked_def)

lemma chained_length: "chained fr p vs h \<Longrightarrow> length p = 64 \<Longrightarrow> length h = 64"
  by (induction vs arbitrary: p) (auto simp: linked_def)

lemma verify_chain_iff:
  "verify_chain fr a = Inr (Intact m) \<longleftrightarrow>
     m = length (read_events a) \<and> (\<exists>h. chained fr GENESIS_HASH (read_events a) h)"
  by (simp add: verify_chain_def verify_events_chain_def verify_from_chained)

text \<open>On a chained log the writer reads back the hash of the last event.\<close>

lemma last_hash_from_chained:
  "chained fr p (List.map_filter line_value ls) h \<Longrightarrow> last_hash_from (PyStr p) ls = Inr (PyStr h)"
proof (induction ls arbitrary: p)
  case Nil
  then show ?case by (simp add: List.map_filter_def)
next
  case (Cons l ls)
  show ?case
  proof (cases l)
    case (Line v)
    with Cons.prems obtain q where q: "linked fr p v q" "chained fr q (List.map_filter line_value ls) h"
      by (auto simp: map_filter_simps)
    then obtain e where "v = PyDict e" and "dget e ''hash'' = PyStr q"
      by (auto simp: linked_def hash_of_def)
    then have "dget_or e ''hash'' d = PyStr q" for d
      by (auto simp: dget_def dget_or_def split: option.splits)
    with q(2) Cons.IH show ?thesis by (simp add: Line \<open>v = PyDict e\<close> as_dict_def)
  qed (use Cons in \<open>simp_all add: map_filter_simps\<close>)
qed

lemma read_last_hash_chained:
  assumes "chained fr GENESIS_HASH (read_events a) h"
  shows "read_last_hash a = Inr (PyStr h)"
  using assms by (auto simp: read_last_hash_def read_events_def last_hash_from_chained split: option.splits)

text \<open>What an append adds, when the event has no \<open>hash\<close> of its own.\<close>

lemma filter_dset_same: "filter (\<lambda>(k, x). k \<noteq> k0) (dset k0 v e) = filter (\<lambda>(k, x). k \<noteq> k0) e"
  by (induction e) auto

lemma audit_append_ok:
  assumes "map_of event ''hash'' = None" and "log_writable a" and "audit_append fr event (PyStr p) a = (r, a')"
  obtains v h where "r = Inr ()" "linked fr p v h" "read_events a' = read_events a @ [v]" "log_writable a'"
    "v = PyDict (dset ''hash'' (PyStr h) (dset ''prev_hash'' (PyStr p) event))"
proof -
  let ?e = "dset ''prev_hash'' (PyStr p) event"
  let ?h = "sha256_hex (json_dumps fr True (PyDict ?e) @ p)"
  let ?v = "PyDict (dset ''hash'' (PyStr ?h) ?e)"
  have same: "filter (\<lambda>(k, x). k \<noteq> ''hash'') ?e = ?e"
    using assms(1) by (intro filter_True) (auto simp: update_conv' dest!: weak_map_of_SomeI split: if_splits)
  have "linked fr p ?v ?h"
    by (simp add: linked_def prev_of_def hash_of_def event_json_def dict_simps filter_dset_same same)
  moreover have "read_events a' = read_events a @ [?v]"
    using assms by (auto simp: audit_append_def compute_hash_def read_events_def Let_def
        List.map_filter_def split: option.splits)
  ultimately show ?thesis
    using assms(2,3) by (intro that) (auto simp: audit_append_def compute_hash_def Let_def)
qed


section \<open>Properties\<close>

lemma log_event_keeps:
  assumes "verify_chain fr a = Inr (Intact n)" and "map_of given ''hash'' = None" and "odict_ok given"
    and "log_writable a" and "log_event fr now stamp given a = (r, a')"
  shows "r = Inr () \<and> verify_chain fr a' = Inr (Intact (Suc n)) \<and> log_writable a' \<and>
    (\<exists>e. read_events a' = read_events a @ [PyDict e] \<and>
      (\<forall>k x. k \<noteq> ''prev_hash'' \<and> map_of given k = Some x \<longrightarrow> map_of e k = Some x))"
proof -
  from assms(1) obtain p where p: "chained fr GENESIS_HASH (read_events a) p" and n: "n = length (read_events a)"
    by (auto simp: verify_chain_iff)
  let ?ev = "audit_event now stamp given"
  have ev: "map_of ?ev k = (case map_of given k of None \<Rightarrow>
      map_of [(''timestamp'', PyFloat (Fin now)), (''timestamp_iso'', PyStr stamp)] k | Some v \<Rightarrow> Some v)" for k
    unfolding audit_event_def by (rule map_of_dupdate [OF assms(3)])
  have run: "audit_append fr ?ev (PyStr p) a = (r, a')"
    using assms(5) by (simp add: log_event_def read_last_hash_chained [OF p])
  have "map_of ?ev ''hash'' = None" using assms(2) by (simp add: ev)
  from audit_append_ok [OF this assms(4) run] obtain v h where
    v: "r = Inr ()" "linked fr p v h" "read_events a' = read_events a @ [v]"
      "v = PyDict (dset ''hash'' (PyStr h) (dset ''prev_hash'' (PyStr p) ?ev))" "log_writable a'"
    by metis
  have "chained fr GENESIS_HASH (read_events a') h"
    using p v(2,3) by (auto simp: chained_append)
  then show ?thesis
    using v(1,3,4,5) n assms(2) by (auto simp: verify_chain_iff dict_simps ev)
qed

text \<open>
  C13: Logging keeps the chain. On an intact log, an event that carries no \<open>hash\<close> of its own is
  appended with every field it was given, and the log is intact again with one event more.
\<close>

theorem log_event_extends_chain:
  assumes "verify_chain fr a = Inr (Intact n)" and "map_of given ''hash'' = None" and "odict_ok given"
    and "log_writable a" and "log_event fr now stamp given a = (r, a')"
  shows "r = Inr () \<and> verify_chain fr a' = Inr (Intact (Suc n)) \<and>
    (\<exists>e. read_events a' = read_events a @ [PyDict e] \<and>
      (\<forall>k x. k \<noteq> ''prev_hash'' \<and> map_of given k = Some x \<longrightarrow> map_of e k = Some x))"
  using log_event_keeps [OF assms] by simp

definition no_log :: audit where
  "no_log = \<lparr>log_lines = None, log_writable = True\<rparr>"

definition plain_float :: "real \<Rightarrow> string" where
  "plain_float = (\<lambda>_. ''0.0'')"

lemma no_log_intact: "verify_chain fr no_log = Inr (Intact 0)" and no_log_writable: "log_writable no_log"
  by (simp_all add: no_log_def verify_chain_iff read_events_def)

theorem log_event_extends_chain_witness:
  "\<exists>r a'. log_event plain_float 7 ''2024-01-01T00:00:07'' [(''event'', PyStr ''access'')] no_log = (r, a') \<and> r = Inr () \<and>
     verify_chain plain_float a' = Inr (Intact 1)"
proof -
  obtain r a' where run: "log_event plain_float 7 ''2024-01-01T00:00:07'' [(''event'', PyStr ''access'')] no_log = (r, a')"
    by fastforce
  then show ?thesis
    using log_event_extends_chain [OF no_log_intact _ _ no_log_writable run] by simp
qed

text \<open>Two chains that end in the same hash: equal contents, or an explicit collision.\<close>

definition payloads :: "(real \<Rightarrow> string) \<Rightarrow> pyval list \<Rightarrow> string set" where
  "payloads fr vs = (\<lambda>v. event_json fr v @ (case prev_of v of PyStr p \<Rightarrow> p | _ \<Rightarrow> [])) ` set vs"

definition hash_weakness :: "string set \<Rightarrow> bool" where
  "hash_weakness ps \<longleftrightarrow>
     (\<exists>x \<in> ps. \<exists>y \<in> ps. x \<noteq> y \<and> sha256_hex x = sha256_hex y) \<or> (\<exists>x \<in> ps. sha256_hex x = GENESIS_HASH)"

lemma hash_weakness_mono: "hash_weakness ps \<Longrightarrow> ps \<subseteq> qs \<Longrightarrow> hash_weakness qs"
  by (auto simp: hash_weakness_def)

lemma length_GENESIS [simp]: "length GENESIS_HASH = 64"
  by (simp add: GENESIS_HASH_def)

lemma chained_snoc:
  "chained fr p (vs @ [v]) h \<longleftrightarrow> (\<exists>q. chained fr p vs q \<and> linked fr q v h)"
  by (auto simp: chained_append)

lemma linked_payload: "linked fr p v h \<Longrightarrow> event_json fr v @ p \<in> payloads fr (v # vs) \<and> h = sha256_hex (event_json fr v @ p)"
  by (simp add: payloads_def linked_def)

lemma payloads_append [simp]: "payloads fr (us @ vs) = payloads fr us \<union> payloads fr vs"
  by (auto simp: payloads_def)

lemma payloads_Nil [simp]: "payloads fr [] = {}"
  by (simp add: payloads_def)

lemma same_end_same_events:
  "chained fr GENESIS_HASH us h \<Longrightarrow> chained fr GENESIS_HASH vs h \<Longrightarrow>
   map (event_json fr) us = map (event_json fr) vs \<or> hash_weakness (payloads fr us \<union> payloads fr vs)"
proof (induction us arbitrary: vs h rule: rev_induct)
  case Nil
  show ?case
  proof (cases vs rule: rev_cases)
    case (snoc vs' v)
    with Nil obtain q where "linked fr q v GENESIS_HASH" by (auto simp: chained_snoc)
    from linked_payload [OF this, of "[]"] show ?thesis
      by (auto simp: snoc hash_weakness_def intro!: disjI2 bexI)
  qed simp
next
  case (snoc u us)
  from snoc.prems(1) obtain q where q: "chained fr GENESIS_HASH us q" "linked fr q u h" by (auto simp: chained_snoc)
  note u = linked_payload [OF q(2), of "[]"]
  show ?case
  proof (cases vs rule: rev_cases)
    case Nil
    with snoc.prems(2) u show ?thesis by (auto simp: hash_weakness_def intro!: disjI2 bexI)
  next
    case (snoc vs' v)
    with snoc.prems(2) obtain q' where q': "chained fr GENESIS_HASH vs' q'" "linked fr q' v h" by (auto simp: chained_snoc)
    note v = linked_payload [OF q'(2), of "[]"]
    show ?thesis
    proof (cases "event_json fr u @ q = event_json fr v @ q'")
      case True
      moreover have "length q = length q'"
        using chained_length [OF q(1)] chained_length [OF q'(1)] by simp
      ultimately have eq: "event_json fr u = event_json fr v" "q = q'" by auto
      from snoc.IH [OF q(1)] q'(1) eq(2)
      consider "map (event_json fr) us = map (event_json fr) vs'" | "hash_weakness (payloads fr us \<union> payloads fr vs')"
        by blast
      then show ?thesis
      proof cases
        case 1
        then show ?thesis using eq by (simp add: \<open>vs = vs' @ [v]\<close>)
      next
        case 2
        moreover have "payloads fr us \<union> payloads fr vs' \<subseteq> payloads fr (us @ [u]) \<union> payloads fr vs"
          by (auto simp: \<open>vs = vs' @ [v]\<close>)
        ultimately show ?thesis by (blast intro: hash_weakness_mono)
      qed
    next
      case False
      with u v have "hash_weakness (payloads fr [u] \<union> payloads fr [v])"
        unfolding hash_weakness_def by (metis UnCI)
      moreover have "payloads fr [u] \<union> payloads fr [v] \<subseteq> payloads fr (us @ [u]) \<union> payloads fr vs"
        by (auto simp: \<open>vs = vs' @ [v]\<close>)
      ultimately show ?thesis by (blast intro: hash_weakness_mono)
    qed
  qed
qed

text \<open>
  C10: The log is tamper-evident. If the lines before an untouched event are edited, deleted,
  inserted or reordered and the log still verifies, then the events say what they said, one by one
  and in the same order, or two payloads with the same SHA-256 digest (or one with the genesis
  digest) can be read off the two logs.
\<close>

theorem tampering_needs_a_collision:
  assumes "verify_events_chain fr (us @ [v]) = Inr (Intact m)" and "verify_events_chain fr (vs @ [v]) = Inr (Intact n)"
  shows "map (event_json fr) us = map (event_json fr) vs \<or>
    hash_weakness (payloads fr (us @ [v]) \<union> payloads fr (vs @ [v]))"
proof -
  obtain h h' where "chained fr GENESIS_HASH (us @ [v]) h" "chained fr GENESIS_HASH (vs @ [v]) h'"
    using assms by (auto simp: verify_events_chain_def verify_from_chained)
  then obtain q q' where q: "chained fr GENESIS_HASH us q" "linked fr q v h"
      "chained fr GENESIS_HASH vs q'" "linked fr q' v h'"
    by (auto simp: chained_snoc)
  then have "q = q'" by (auto simp: linked_def)
  moreover have "payloads fr us \<union> payloads fr vs \<subseteq> payloads fr (us @ [v]) \<union> payloads fr (vs @ [v])"
    by auto
  ultimately show ?thesis
    using same_end_same_events [OF q(1)] q(3) by (blast intro: hash_weakness_mono)
qed

theorem tampering_needs_a_collision_witness:
  "\<exists>u v. verify_events_chain plain_float ([u] @ [v]) = Inr (Intact 2) \<and>
     (map (event_json plain_float) [u] = map (event_json plain_float) [u] \<or>
      hash_weakness (payloads plain_float ([u] @ [v]) \<union> payloads plain_float ([u] @ [v])))"
proof -
  obtain r a' where run: "log_event plain_float 7 ''t'' [] no_log = (r, a')" by fastforce
  from log_event_keeps [OF no_log_intact _ _ no_log_writable run]
  obtain u where a': "verify_chain plain_float a' = Inr (Intact 1)" "read_events a' = [u]" "log_writable a'"
    by (auto simp: no_log_def read_events_def)
  obtain r' a'' where run': "log_event plain_float 8 ''t'' [] a' = (r', a'')" by fastforce
  from log_event_keeps [OF a'(1) _ _ a'(3) run']
  obtain v where "verify_chain plain_float a'' = Inr (Intact 2)" "read_events a'' = [u] @ [v]"
    using a'(2) by auto
  then have "verify_events_chain plain_float ([u] @ [v]) = Inr (Intact 2)" by (simp add: verify_chain_def)
  with tampering_needs_a_collision [OF this this] show ?thesis by blast
qed

text \<open>
  A break is reported where it is: everything before the reported event verifies, and the
  log up to and including that event does not.
\<close>

theorem break_is_located:
  assumes "verify_events_chain fr vs = Inr (Broken i why n)"
  shows "1 \<le> i \<and> i \<le> length vs \<and> n = length vs \<and>
    verify_events_chain fr (take (i - 1) vs) = Inr (Intact (i - 1)) \<and>
    (\<nexists>m. verify_events_chain fr (take i vs) = Inr (Intact m))"
proof -
  have "\<exists>us v ws. vs = us @ v # ws \<and> i = j + length us \<and> n = n0 \<and>
      (\<exists>h. chained fr p us h) \<and> (\<nexists>h. chained fr p (us @ [v]) h)"
    if "verify_from fr n0 j p vs = Inr (Broken i why n)" for n0 j p
    using that
  proof (induction vs arbitrary: j p)
    case Nil
    then show ?case by simp
  next
    case (Cons v vs)
    then obtain e where e: "v = PyDict e" by (cases v) (auto simp: as_dict_def)
    show ?case
    proof (cases "\<exists>q. linked fr p v q")
      case True
      then obtain q where q: "linked fr p v q" by blast
      then have "verify_from fr n0 (Suc j) q vs = Inr (Broken i why n)"
        using Cons.prems by (simp add: e as_dict_def linked_def prev_of_def hash_of_def event_json_def compute_hash_def)
      from Cons.IH [OF this] obtain us w ws where
        w: "vs = us @ w # ws" "i = Suc j + length us" "n = n0" "\<exists>h. chained fr q us h" "\<nexists>h. chained fr q (us @ [w]) h"
        by blast
      from q have "linked fr p v q' \<longleftrightarrow> q' = q" for q' by (auto simp: linked_def)
      then have step: "chained fr p (v # xs) h \<longleftrightarrow> chained fr q xs h" for xs h by simp
      have "\<exists>h. chained fr p (v # us) h" "\<nexists>h. chained fr p ((v # us) @ [w]) h"
        using w(4,5) step by (metis append_Cons)+
      with w(1,2,3) show ?thesis
        by (intro exI [of _ "v # us"] exI [of _ w] exI [of _ ws]) simp
    next
      case False
      then have "i = j \<and> n = n0"
        using Cons.prems by (auto simp: e as_dict_def linked_def prev_of_def hash_of_def event_json_def compute_hash_def
            split: if_splits)
      with False show ?thesis
        by (intro exI [of _ "[]"] exI [of _ v] exI [of _ vs]) auto
    qed
  qed
  from this [of "length vs" 1 GENESIS_HASH] assms obtain us v ws where
    "vs = us @ v # ws" "i = 1 + length us" "n = length vs"
    "\<exists>h. chained fr GENESIS_HASH us h" "\<nexists>h. chained fr GENESIS_HASH (us @ [v]) h"
    unfolding verify_events_chain_def by blast
  then show ?thesis
    by (simp add: verify_events_chain_def verify_from_chained)
qed

theorem break_is_located_witness:
  "verify_events_chain plain_float (take 0 [PyDict []]) = Inr (Intact 0) \<and>
   (\<nexists>m. verify_events_chain plain_float (take 1 [PyDict []]) = Inr (Intact m))"
  using break_is_located [of plain_float "[PyDict []]" 1 PrevMismatch 1]
  by (simp add: verify_events_chain_def as_dict_def dict_simps)

text \<open>
  Cutting the log off after any line goes unnoticed: what is left of an intact log is
  intact. Deleting the most recent entries is the one deletion that verification accepts.
\<close>

theorem truncation_unnoticed:
  assumes "log_lines a = Some (ls @ ms)" and "verify_chain fr a = Inr (Intact n)"
  shows "\<exists>k \<le> n. verify_chain fr (a\<lparr>log_lines := Some ls\<rparr>) = Inr (Intact k) \<and>
    verify_audit_log_main fr (a\<lparr>log_lines := Some ls\<rparr>) = Inr 0"
proof -
  have split: "read_events a = read_events (a\<lparr>log_lines := Some ls\<rparr>) @ List.map_filter line_value ms"
    using assms(1) by (simp add: read_events_def List.map_filter_def)
  with assms(2) have "verify_chain fr (a\<lparr>log_lines := Some ls\<rparr>) =
      Inr (Intact (length (read_events (a\<lparr>log_lines := Some ls\<rparr>))))"
    by (auto simp: verify_chain_iff chained_append)
  moreover have "length (read_events (a\<lparr>log_lines := Some ls\<rparr>)) \<le> n"
    using assms(2) by (simp add: verify_chain_iff split)
  ultimately show ?thesis by (auto simp: verify_audit_log_main_def)
qed

theorem truncation_unnoticed_witness:
  "\<exists>a n. 1 \<le> n \<and> verify_chain plain_float a = Inr (Intact n) \<and> verify_audit_log_main plain_float (a\<lparr>log_lines := Some []\<rparr>) = Inr 0"
proof -
  obtain r a where run: "log_event plain_float 7 ''t'' [] no_log = (r, a)" by fastforce
  from log_event_keeps [OF no_log_intact _ _ no_log_writable run]
  have ok: "verify_chain plain_float a = Inr (Intact 1)" and ev: "read_events a \<noteq> []"
    by auto
  from ev obtain ls where "log_lines a = Some ([] @ ls)"
    by (auto simp: read_events_def split: option.splits)
  from truncation_unnoticed [OF this ok] ok show ?thesis by (intro exI [of _ a] exI [of _ 1]) auto
qed

text \<open>
  The IdP and the Gateway write the same log from two processes, each with a lock of its own. If
  both read the last hash before either has appended, the chain is broken at the second event,
  with nobody having tampered (unless the digest of the first event is the hash it follows).
\<close>

theorem concurrent_writers_break_the_chain:
  assumes "verify_chain fr a = Inr (Intact n)" and "log_writable a"
    and "map_of e1 ''hash'' = None" and "map_of e2 ''hash'' = None"
    and "read_last_hash a = Inr p" and "audit_append fr e1 p a = (r1, a1)"
    and "read_last_hash a = Inr p2" and "audit_append fr e2 p2 a1 = (r2, a2)"
  shows "verify_chain fr a2 = Inr (Broken (n + 2) PrevMismatch (n + 2)) \<or> hash_of (read_events a1 ! n) = p"
proof -
  from assms(1) obtain q where q: "chained fr GENESIS_HASH (read_events a) q" and n: "n = length (read_events a)"
    by (auto simp: verify_chain_iff)
  have p: "p = PyStr q" "p2 = PyStr q" using read_last_hash_chained [OF q] assms(5,7) by auto
  from audit_append_ok [OF assms(3,2)] assms(6) p obtain v1 h1 where
    v1: "linked fr q v1 h1" "read_events a1 = read_events a @ [v1]" "log_writable a1" by metis
  from audit_append_ok [OF assms(4) v1(3)] assms(8) p obtain v2 h2 where
    v2: "linked fr q v2 h2" "read_events a2 = read_events a1 @ [v2]" by metis
  have walk: "chained fr s us t \<Longrightarrow> verify_from fr m i s (us @ ws) = verify_from fr m (i + length us) t ws" for m i s us t ws
  proof (induction us arbitrary: s i)
    case Nil
    then show ?case by simp
  next
    case (Cons u us)
    then show ?case
      by (auto simp: linked_def prev_of_def hash_of_def event_json_def as_dict_def compute_hash_def)
  qed
  have c1: "chained fr GENESIS_HASH (read_events a1) h1" using q v1 by (auto simp: chained_append)
  have "length (read_events a1) = n + 1" using v1(2) n by simp
  then have "verify_chain fr a2 = verify_from fr (n + 2) (n + 2) h1 [v2]"
    using walk [OF c1, of "n + 2" 1 "[v2]"] by (simp add: verify_chain_def verify_events_chain_def v2(2))
  moreover have "hash_of (read_events a1 ! n) = PyStr h1"
    using v1 n by (simp add: linked_def nth_append)
  ultimately show ?thesis
    using v2(1) p by (cases "h1 = q") (auto simp: linked_def prev_of_def as_dict_def)
qed

theorem concurrent_writers_break_the_chain_witness:
  "\<exists>p a1 a2. read_last_hash no_log = Inr p \<and> audit_append plain_float [] p no_log = (Inr (), a1) \<and>
     audit_append plain_float [] p a1 = (Inr (), a2) \<and>
     (verify_chain plain_float a2 = Inr (Broken 2 PrevMismatch 2) \<or> hash_of (read_events a1 ! 0) = p)"
proof -
  have r: "read_last_hash no_log = Inr (PyStr GENESIS_HASH)" by (simp add: read_last_hash_def no_log_def)
  obtain a1 where a1: "audit_append plain_float [] (PyStr GENESIS_HASH) no_log = (Inr (), a1)" "log_writable a1"
    by (simp add: audit_append_def compute_hash_def no_log_def Let_def)
  then obtain a2 where a2: "audit_append plain_float [] (PyStr GENESIS_HASH) a1 = (Inr (), a2)"
    by (simp add: audit_append_def compute_hash_def Let_def)
  have "verify_chain plain_float a2 = Inr (Broken 2 PrevMismatch 2) \<or> hash_of (read_events a1 ! 0) = PyStr GENESIS_HASH"
    using concurrent_writers_break_the_chain [OF no_log_intact no_log_writable _ _ r a1(1) r a2]
    by (simp add: numeral_2_eq_2)
  with r a1 a2 show ?thesis by blast
qed

end
