(* ===== verification/KeyFiles.thy ===== *)
theory KeyFiles
  imports PyStrings
begin

text \<open>
  \<open>common/rsa_utils.py\<close> and \<open>common/ca_utils.py\<close>: the key material under \<open>certs/\<close>. The state is the
  bytes of each file and the number of keys generated so far. The package \<open>cryptography\<close> and the
  operating system are the record \<open>ca_prims\<close>: the private key that the \<open>n\<close>-th generation returns,
  its public half, the PEM form of a certificate and its parser, the text form of an IP address
  (\<open>None\<close> where \<open>ipaddress.ip_address\<close> raises), and the name of the host.
\<close>

section \<open>Files and keys\<close>

record keystore =
  kfiles :: "string \<rightharpoonup> string"
  generated :: nat

datatype san = Dns string | Ip string

datatype eku = ServerAuth | ClientAuth

record certificate =
  cert_name :: string
  cert_issuer :: string
  cert_key :: string
  cert_from :: int
  cert_until :: int
  cert_ca :: bool
  cert_sans :: "san list"
  cert_use :: "eku option"
  signed_with :: string

record ca_prims =
  gen_key :: "nat \<Rightarrow> string"
  public_half :: "string \<Rightarrow> string"
  key_valid :: "string \<Rightarrow> bool"
  cert_pem :: "certificate \<Rightarrow> string"
  parse_cert :: "string \<Rightarrow> certificate option"
  ip_address :: "string \<Rightarrow> string option"
  hostname :: "string option"

definition CA_KEY_PATH :: string where "CA_KEY_PATH = ''certs/ca/ca_key.pem''"
definition CA_CERT_PATH :: string where "CA_CERT_PATH = ''certs/ca/ca_cert.pem''"
definition SERVICE_CERT_DIR :: string where "SERVICE_CERT_DIR = ''certs/services''"
definition JWT_PRIVATE_KEY_PATH :: string where "JWT_PRIVATE_KEY_PATH = ''certs/jwt_keys/jwt_private.pem''"
definition JWT_PUBLIC_KEY_PATH :: string where "JWT_PUBLIC_KEY_PATH = ''certs/jwt_keys/jwt_public.pem''"
definition GATEWAY_CLIENT_CERT_CN :: string where "GATEWAY_CLIENT_CERT_CN = ''ztna-gateway-client''"

definition on_disk :: "keystore \<Rightarrow> string \<Rightarrow> bool" where
  "on_disk s p \<longleftrightarrow> kfiles s p \<noteq> None"

definition write_file :: "string \<Rightarrow> string \<Rightarrow> keystore \<Rightarrow> keystore" where
  "write_file p c s = s\<lparr>kfiles := (kfiles s)(p \<mapsto> c)\<rparr>"

definition read_file :: "string \<Rightarrow> keystore \<Rightarrow> string res" where
  "read_file p s = (case kfiles s p of None \<Rightarrow> Inl OSError | Some c \<Rightarrow> Inr c)"

definition generate_key :: "ca_prims \<Rightarrow> keystore \<Rightarrow> string \<times> keystore" where
  "generate_key C s = (gen_key C (generated s), s\<lparr>generated := generated s + 1\<rparr>)"

section \<open>The token signing keys\<close>

definition ensure_jwt_keypair :: "ca_prims \<Rightarrow> keystore \<Rightarrow> keystore" where
  "ensure_jwt_keypair C s =
     (if on_disk s JWT_PRIVATE_KEY_PATH \<and> on_disk s JWT_PUBLIC_KEY_PATH then s
      else case generate_key C s of
        (key, s1) \<Rightarrow> write_file JWT_PUBLIC_KEY_PATH (public_half C key) (write_file JWT_PRIVATE_KEY_PATH key s1))"

definition load_private_key_pem :: "ca_prims \<Rightarrow> (keystore, string) op" where
  "load_private_key_pem C s = (let s' = ensure_jwt_keypair C s in (read_file JWT_PRIVATE_KEY_PATH s', s'))"

definition load_public_key_pem :: "ca_prims \<Rightarrow> (keystore, string) op" where
  "load_public_key_pem C s = (let s' = ensure_jwt_keypair C s in (read_file JWT_PUBLIC_KEY_PATH s', s'))"

section \<open>The certificate authority\<close>

text \<open>X.509 keeps whole seconds.\<close>

definition one_day :: int where "one_day = 86400"

definition ca_certificate :: "ca_prims \<Rightarrow> string \<Rightarrow> int \<Rightarrow> certificate" where
  "ca_certificate C key t = \<lparr>cert_name = ''PyZTNA Internal CA'', cert_issuer = ''PyZTNA Internal CA'',
     cert_key = public_half C key, cert_from = t - one_day, cert_until = t + 3650 * one_day, cert_ca = True,
     cert_sans = [], cert_use = None, signed_with = public_half C key\<rparr>"

definition ensure_ca :: "ca_prims \<Rightarrow> int \<Rightarrow> keystore \<Rightarrow> keystore" where
  "ensure_ca C t s =
     (if on_disk s CA_KEY_PATH \<and> on_disk s CA_CERT_PATH then s
      else case generate_key C s of
        (key, s1) \<Rightarrow> write_file CA_CERT_PATH (cert_pem C (ca_certificate C key t)) (write_file CA_KEY_PATH key s1))"

text \<open>A key or certificate that does not parse is a \<open>ValueError\<close>.\<close>

definition load_ca :: "ca_prims \<Rightarrow> int \<Rightarrow> (keystore, string \<times> certificate) op" where
  "load_ca C t s =
     (let s' = ensure_ca C t s in
      (ebind (read_file CA_KEY_PATH s') (\<lambda>k.
       if \<not> key_valid C k then Inl ValueError
       else ebind (read_file CA_CERT_PATH s') (\<lambda>c.
         case parse_cert C c of None \<Rightarrow> Inl ValueError | Some ca \<Rightarrow> Inr (k, ca))), s'))"

text \<open>One step of the loop over the extra names, and the whole list.\<close>

definition san_of :: "ca_prims \<Rightarrow> string \<Rightarrow> san" where
  "san_of C item = (case ip_address C item of Some t \<Rightarrow> Ip t | None \<Rightarrow> Dns item)"

definition add_san :: "ca_prims \<Rightarrow> string \<Rightarrow> san list \<Rightarrow> san list" where
  "add_san C item0 entries =
     (let item = strip item0 in
      if item = [] then entries
      else if san_of C item \<in> set entries then entries else entries @ [san_of C item])"

definition san_objects :: "ca_prims \<Rightarrow> string list \<Rightarrow> san list" where
  "san_objects C extra =
     (let entries = [Dns ''localhost''] @
            (case hostname C of Some h \<Rightarrow> if h \<noteq> [] \<and> h \<noteq> ''localhost'' then [Dns h] else [] | None \<Rightarrow> []) @
            [Ip ''127.0.0.1'']
      in fold (add_san C) extra entries)"

definition required_ok :: "ca_prims \<Rightarrow> certificate \<Rightarrow> string \<Rightarrow> bool" where
  "required_ok C c item0 = (let item = strip item0 in item = [] \<or> san_of C item \<in> set (cert_sans c))"

definition cert_covers :: "ca_prims \<Rightarrow> string \<Rightarrow> string list \<Rightarrow> keystore \<Rightarrow> bool" where
  "cert_covers C path required s =
     (case Option.bind (kfiles s path) (parse_cert C) of
        None \<Rightarrow> False
      | Some c \<Rightarrow> list_all (required_ok C c) required)"

definition service_key_path :: "string \<Rightarrow> string" where
  "service_key_path name = SERVICE_CERT_DIR @ ''/'' @ name @ ''_key.pem''"

definition service_cert_path :: "string \<Rightarrow> string" where
  "service_cert_path name = SERVICE_CERT_DIR @ ''/'' @ name @ ''_cert.pem''"

definition leaf_certificate :: "ca_prims \<Rightarrow> string \<Rightarrow> string \<Rightarrow> certificate \<Rightarrow> string list \<Rightarrow> bool \<Rightarrow> string \<Rightarrow> int \<Rightarrow> certificate" where
  "leaf_certificate C ca_key name ca required is_client key t = \<lparr>cert_name = name, cert_issuer = cert_name ca,
     cert_key = public_half C key, cert_from = t - one_day, cert_until = t + 825 * one_day, cert_ca = False,
     cert_sans = san_objects C required, cert_use = Some (if is_client then ClientAuth else ServerAuth),
     signed_with = public_half C ca_key\<rparr>"

text \<open>\<open>required\<close> is the list of names that the code gathers from its arguments and \<open>CERT_EXTRA_SANS\<close>.\<close>

definition issue_cert :: "ca_prims \<Rightarrow> string \<Rightarrow> bool \<Rightarrow> string list \<Rightarrow> int \<Rightarrow> (keystore, string \<times> string) op" where
  "issue_cert C name is_client required t s =
     (let kp = service_key_path name; cp = service_cert_path name in
      if on_disk s kp \<and> on_disk s cp \<and> cert_covers C cp required s then (Inr (kp, cp), s)
      else obind (load_ca C t) (\<lambda>(ca_key, ca) s1.
        case generate_key C s1 of
          (key, s2) \<Rightarrow> (Inr (kp, cp),
            write_file cp (cert_pem C (leaf_certificate C ca_key name ca required is_client key t)) (write_file kp key s2))) s)"

section \<open>Reading and writing\<close>

lemma read_write_file [simp]:
  "kfiles (write_file p c s) q = (if q = p then Some c else kfiles s q)"
  "generated (write_file p c s) = generated s"
  by (simp_all add: write_file_def)

lemma on_disk_write_file [simp]: "on_disk (write_file p c s) q \<longleftrightarrow> q = p \<or> on_disk s q"
  by (simp add: on_disk_def)

lemma kfiles_generated [simp]: "kfiles (s\<lparr>generated := n\<rparr>) = kfiles s" "on_disk (s\<lparr>generated := n\<rparr>) p \<longleftrightarrow> on_disk s p"
  by (simp_all add: on_disk_def)

lemma key_paths_differ [simp]:
  "JWT_PRIVATE_KEY_PATH \<noteq> JWT_PUBLIC_KEY_PATH" "JWT_PUBLIC_KEY_PATH \<noteq> JWT_PRIVATE_KEY_PATH"
  "CA_KEY_PATH \<noteq> CA_CERT_PATH" "CA_CERT_PATH \<noteq> CA_KEY_PATH"
  by (simp_all add: JWT_PRIVATE_KEY_PATH_def JWT_PUBLIC_KEY_PATH_def CA_KEY_PATH_def CA_CERT_PATH_def)

lemma service_paths_differ [simp]:
  "service_key_path n \<noteq> service_cert_path m" "service_cert_path n \<noteq> service_key_path m"
  "service_key_path n \<noteq> CA_KEY_PATH" "service_cert_path n \<noteq> CA_KEY_PATH"
  "service_key_path n \<noteq> CA_CERT_PATH" "service_cert_path n \<noteq> CA_CERT_PATH"
  "service_key_path n \<noteq> JWT_PUBLIC_KEY_PATH" "service_cert_path n \<noteq> JWT_PUBLIC_KEY_PATH"
  "service_key_path n \<noteq> JWT_PRIVATE_KEY_PATH" "service_cert_path n \<noteq> JWT_PRIVATE_KEY_PATH"
proof -
  have ends: "endswith (service_key_path n) ''y.pem''" "endswith (service_cert_path n) ''t.pem''" for n
    by (simp_all add: service_key_path_def service_cert_path_def endswith_def)
  have "\<not> endswith s ''t.pem''" if "endswith s ''y.pem''" for s
    using that by (auto simp: endswith_def startswith_iff)
  with ends show "service_key_path n \<noteq> service_cert_path m" "service_cert_path n \<noteq> service_key_path m" by metis+
qed (simp_all add: service_key_path_def service_cert_path_def SERVICE_CERT_DIR_def CA_KEY_PATH_def CA_CERT_PATH_def
    JWT_PUBLIC_KEY_PATH_def JWT_PRIVATE_KEY_PATH_def)

lemmas service_paths_differ_sym [simp] = service_paths_differ [symmetric]

text \<open>Names that were asked for are among the entries.\<close>

lemma add_san_keeps: "e \<in> set entries \<Longrightarrow> e \<in> set (add_san C item entries)"
  by (auto simp: add_san_def Let_def)

lemma fold_add_san_keeps: "e \<in> set entries \<Longrightarrow> e \<in> set (fold (add_san C) extra entries)"
  by (induction extra arbitrary: entries) (auto intro: add_san_keeps)

lemma san_objects_cover:
  "item \<in> set extra \<Longrightarrow> strip item \<noteq> [] \<Longrightarrow> san_of C (strip item) \<in> set (san_objects C extra)"
proof -
  assume i: "item \<in> set extra" "strip item \<noteq> []"
  then have "san_of C (strip item) \<in> set (fold (add_san C) extra entries)" for entries
  proof (induction extra arbitrary: entries)
    case (Cons x extra)
    show ?case
    proof (cases "x = item")
      case True
      then have "san_of C (strip item) \<in> set (add_san C x entries)"
        using Cons.prems by (simp add: add_san_def Let_def)
      then show ?thesis by (simp add: fold_add_san_keeps)
    qed (use Cons in auto)
  qed simp
  then show ?thesis by (simp add: san_objects_def Let_def)
qed

lemma leaf_covers: "list_all (required_ok C (leaf_certificate C k n ca required is_client key t)) required"
  using san_objects_cover by (fastforce simp: list_all_iff required_ok_def leaf_certificate_def Let_def)

lemma cert_covers_iff:
  "cert_covers C p required s \<longleftrightarrow>
     (\<exists>c. Option.bind (kfiles s p) (parse_cert C) = Some c \<and> list_all (required_ok C c) required)"
  by (auto simp: cert_covers_def split: option.splits)

lemma load_ca_Inr:
  assumes "load_ca C t s = (Inr (k, ca), s')"
  shows "s' = ensure_ca C t s" "kfiles s' CA_KEY_PATH = Some k" "Option.bind (kfiles s' CA_CERT_PATH) (parse_cert C) = Some ca"
  using assms
  by (auto simp: load_ca_def Let_def ebind_eq_Inr read_file_def split: option.splits if_splits)

text \<open>The two ways in which \<open>issue_cert\<close> succeeds.\<close>

lemma issue_cert_cases:
  assumes "issue_cert C name is_client required t s = (Inr (kp, cp), s')"
  obtains (reused) "kp = service_key_path name" "cp = service_cert_path name" "s' = s" "on_disk s kp" "cert_covers C cp required s"
  | (issued) k ca s1 where "kp = service_key_path name" "cp = service_cert_path name" "load_ca C t s = (Inr (k, ca), s1)"
      "s' = write_file cp (cert_pem C (leaf_certificate C k name ca required is_client (gen_key C (generated s1)) t))
        (write_file kp (gen_key C (generated s1)) (s1\<lparr>generated := generated s1 + 1\<rparr>))"
proof -
  let ?kp = "service_key_path name" and ?cp = "service_cert_path name"
  show thesis
  proof (cases "on_disk s ?kp \<and> on_disk s ?cp \<and> cert_covers C ?cp required s")
    case True
    with assms reused show thesis by (simp add: issue_cert_def Let_def)
  next
    case False
    then obtain k ca s1 where l: "load_ca C t s = (Inr (k, ca), s1)"
      using assms by (cases "load_ca C t s"; cases "fst (load_ca C t s)") (auto simp: issue_cert_def Let_def obind_def)
    show thesis
      by (rule issued [OF _ _ l]) (use assms False l in \<open>auto simp: issue_cert_def Let_def obind_def generate_key_def\<close>)
  qed
qed

lemma issue_cert_result:
  assumes "issue_cert C name is_client required t s = (Inr (kp, cp), s')" and "\<And>c. parse_cert C (cert_pem C c) = Some c"
  shows "on_disk s' kp \<and> kp = service_key_path name \<and> cp = service_cert_path name \<and> cert_covers C cp required s' \<and>
    (s' = s \<or> (\<exists>k c. kfiles s' CA_KEY_PATH = Some k \<and> Option.bind (kfiles s' cp) (parse_cert C) = Some c \<and>
       signed_with c = public_half C k \<and> cert_use c = Some (if is_client then ClientAuth else ServerAuth)))"
  using assms(1)
proof (cases rule: issue_cert_cases)
  case (issued k ca s1)
  let ?c = "leaf_certificate C k name ca required is_client (gen_key C (generated s1)) t"
  have c: "Option.bind (kfiles s' cp) (parse_cert C) = Some ?c" using issued assms(2) by simp
  then have "cert_covers C cp required s'" using leaf_covers cert_covers_iff by blast
  moreover have "kfiles s' CA_KEY_PATH = Some k" using issued load_ca_Inr(2) [OF issued(3)] by simp
  moreover have "on_disk s' kp" using issued by simp
  moreover have "signed_with ?c = public_half C k" "cert_use ?c = Some (if is_client then ClientAuth else ServerAuth)"
    by (simp_all add: leaf_certificate_def)
  ultimately show ?thesis using c issued(1,2) by blast
qed simp

text \<open>A host that holds only the public token key overwrites it when it first reads it.\<close>

lemma verifier_overwrites_public_key:
  assumes "kfiles s JWT_PUBLIC_KEY_PATH = Some pub" and "\<not> on_disk s JWT_PRIVATE_KEY_PATH"
    and "load_public_key_pem C s = (r, s')"
  shows "r = Inr (public_half C (gen_key C (generated s))) \<and>
    kfiles s' JWT_PUBLIC_KEY_PATH = Some (public_half C (gen_key C (generated s))) \<and>
    kfiles s' JWT_PRIVATE_KEY_PATH = Some (gen_key C (generated s))"
  using assms by (auto simp: load_public_key_pem_def ensure_jwt_keypair_def generate_key_def read_file_def Let_def)

section \<open>Properties\<close>

text \<open>
  \<open>issue_cert\<close> returns a key and a certificate that are on disk, and the certificate carries every
  name and address asked for; unless it was reused, it is signed by the CA key on disk, for the purpose asked.
\<close>

theorem issue_cert_covers_names:
  assumes "issue_cert C name is_client required t s = (Inr (kp, cp), s')" and "\<And>c. parse_cert C (cert_pem C c) = Some c"
  shows "on_disk s' kp \<and> (\<exists>c. Option.bind (kfiles s' cp) (parse_cert C) = Some c \<and>
      (\<forall>item \<in> set required. strip item \<noteq> [] \<longrightarrow> san_of C (strip item) \<in> set (cert_sans c))) \<and>
    (s' = s \<or> (\<exists>k c. kfiles s' CA_KEY_PATH = Some k \<and> Option.bind (kfiles s' cp) (parse_cert C) = Some c \<and>
       signed_with c = public_half C k \<and> cert_use c = Some (if is_client then ClientAuth else ServerAuth)))"
  using issue_cert_result [OF assms] by (auto simp: cert_covers_iff list_all_iff required_ok_def Let_def)

text \<open>
  \<open>issue_cert\<close> is idempotent: asking again for the same or fewer names returns the same paths, generates no key and
  changes no file, at any later time (also when the certificate has expired in between).
\<close>

theorem issue_cert_idempotent:
  assumes "issue_cert C name is_client required t s = (Inr paths, s')" and "\<And>c. parse_cert C (cert_pem C c) = Some c"
    and "set fewer \<subseteq> set required"
  shows "issue_cert C name again fewer t' s' = (Inr paths, s')"
proof -
  obtain kp cp where p: "paths = (kp, cp)" by (cases paths)
  note res = issue_cert_result [OF assms(1) [unfolded p] assms(2)]
  then have "cert_covers C cp fewer s'" using assms(3) by (auto simp: cert_covers_iff list_all_iff)
  moreover have "on_disk s' cp" using res by (auto simp: cert_covers_iff on_disk_def bind_eq_Some_conv)
  moreover have "kp = service_key_path name" "cp = service_cert_path name" "on_disk s' kp" using res by auto
  ultimately show ?thesis by (simp add: issue_cert_def Let_def p)
qed

text \<open>
  A host without the CA's private key, as every provisioned host is, replaces the CA when it is asked for a
  name its certificate lacks: its copy of the CA certificate is overwritten by one of its own making.
\<close>

theorem leaf_host_replaces_the_ca:
  assumes "issue_cert C name is_client required t s = (Inr (kp, cp), s')" and "\<not> on_disk s CA_KEY_PATH"
    and "\<not> cert_covers C (service_cert_path name) required s"
  shows "kfiles s' CA_CERT_PATH = Some (cert_pem C (ca_certificate C (gen_key C (generated s)) t)) \<and>
    kfiles s' CA_KEY_PATH = Some (gen_key C (generated s))"
  using assms(1)
proof (cases rule: issue_cert_cases)
  case reused
  with assms(3) show ?thesis by simp
next
  case (issued k ca s1)
  have "s1 = ensure_ca C t s" by (rule load_ca_Inr(1) [OF issued(3)])
  with assms(2) issued show ?thesis by (simp add: ensure_ca_def generate_key_def)
qed

section \<open>Witnesses\<close>

text \<open>
  Keys are numbered texts and the public half is the key with a mark. The PEM text of a certificate is its
  fields one after the other, each character behind an \<open>x\<close> and each field closed by a dot.
\<close>

definition put_field :: "string \<Rightarrow> string" where
  "put_field s = concat (map (\<lambda>c. [CHR ''x'', c]) s) @ ''.''"

fun get_field :: "string \<Rightarrow> string \<times> string" where
  "get_field (a # c # r) = (if a = CHR ''x'' then (let (s, q) = get_field r in (c # s, q)) else ([], c # r))"
| "get_field r = ([], [])"

lemma get_put_field [simp]: "get_field (put_field s @ r) = (s, r)"
proof (induction s)
  case Nil
  then show ?case by (cases r) (simp_all add: put_field_def)
qed (simp add: put_field_def)

lemma put_field_nonempty [simp]: "put_field s \<noteq> []"
  by (simp add: put_field_def)

fun get_fields :: "nat \<Rightarrow> string \<Rightarrow> string list" where
  "get_fields 0 r = []"
| "get_fields (Suc n) r = (if r = [] then [] else (let (s, q) = get_field r in s # get_fields n q))"

lemma get_fields_put: "length ss \<le> n \<Longrightarrow> get_fields n (concat (map put_field ss)) = ss"
proof (induction ss arbitrary: n)
  case Nil
  then show ?case by (cases n) simp_all
next
  case (Cons s ss)
  then obtain m where "n = Suc m" "length ss \<le> m" by (cases n) auto
  with Cons show ?case by simp
qed

definition san_text :: "san \<Rightarrow> string" where
  "san_text e = (case e of Dns s \<Rightarrow> CHR ''d'' # s | Ip s \<Rightarrow> CHR ''i'' # s)"

definition text_san :: "string \<Rightarrow> san" where
  "text_san t = (if hd t = CHR ''d'' then Dns (tl t) else Ip (tl t))"

definition use_text :: "eku option \<Rightarrow> string" where
  "use_text u = (case u of None \<Rightarrow> [] | Some ServerAuth \<Rightarrow> ''s'' | Some ClientAuth \<Rightarrow> ''c'')"

definition text_use :: "string \<Rightarrow> eku option" where
  "text_use t = (if t = [] then None else if t = ''s'' then Some ServerAuth else Some ClientAuth)"

definition toy_pem :: "certificate \<Rightarrow> string" where
  "toy_pem c = concat (map put_field ([cert_name c, cert_issuer c, cert_key c, dec_int (cert_from c), dec_int (cert_until c),
     if cert_ca c then ''1'' else [], use_text (cert_use c), signed_with c] @ map san_text (cert_sans c)))"

definition toy_parse :: "string \<Rightarrow> certificate option" where
  "toy_parse t =
     (case get_fields (length t) t of
        n # i # k # f # u # ca # us # sg # sans \<Rightarrow>
          Some \<lparr>cert_name = n, cert_issuer = i, cert_key = k, cert_from = the (py_int f), cert_until = the (py_int u),
            cert_ca = (ca = ''1''), cert_sans = map text_san sans, cert_use = text_use us, signed_with = sg\<rparr>
      | _ \<Rightarrow> None)"

definition toy_ca :: ca_prims where
  "toy_ca = \<lparr>gen_key = (\<lambda>n. ''key'' @ dec_nat n), public_half = (\<lambda>k. ''pub-'' @ k), key_valid = (\<lambda>_. True),
     cert_pem = toy_pem, parse_cert = toy_parse, ip_address = (\<lambda>_. None), hostname = Some ''lab''\<rparr>"

lemma toy_parse_pem: "parse_cert toy_ca (cert_pem toy_ca c) = Some c"
proof -
  have len: "length ss \<le> length (concat (map put_field ss))" for ss
    by (induction ss) (auto simp: put_field_def)
  have "text_san (san_text e) = e" for e by (cases e) (simp_all add: san_text_def text_san_def)
  then have "map text_san (map san_text es) = es" for es by (induction es) simp_all
  moreover have "text_use (use_text u) = u" for u
  proof (cases u)
    case (Some e)
    then show ?thesis by (cases e) (simp_all add: use_text_def text_use_def)
  qed (simp add: use_text_def text_use_def)
  ultimately show ?thesis
    by (simp add: toy_ca_def toy_parse_def toy_pem_def get_fields_put [OF len] py_int_dec_int del: concat.simps map_map list.map)
qed

definition empty_keys :: keystore where
  "empty_keys = \<lparr>kfiles = Map.empty, generated = 0\<rparr>"

lemma toy_issue_any:
  obtains kp cp s' where "issue_cert toy_ca name is_client required 5 empty_keys = (Inr (kp, cp), s')"
proof -
  have "key_valid toy_ca k" for k by (simp add: toy_ca_def)
  moreover have "ensure_ca toy_ca 5 empty_keys = write_file CA_CERT_PATH (cert_pem toy_ca (ca_certificate toy_ca (gen_key toy_ca 0) 5))
      (write_file CA_KEY_PATH (gen_key toy_ca 0) (empty_keys\<lparr>generated := 1\<rparr>))"
    by (simp add: ensure_ca_def on_disk_def empty_keys_def generate_key_def)
  ultimately obtain k ca s1 where "load_ca toy_ca 5 empty_keys = (Inr (k, ca), s1)"
    by (simp add: load_ca_def Let_def read_file_def toy_parse_pem)
  then show thesis
    using that by (auto simp: issue_cert_def Let_def on_disk_def empty_keys_def obind_def generate_key_def)
qed

lemma toy_issue:
  obtains kp cp s' where "issue_cert toy_ca ''idp'' False [''idp.example''] 5 empty_keys = (Inr (kp, cp), s')"
  by (rule toy_issue_any)

theorem issue_cert_covers_names_witness:
  "\<exists>kp cp s' c. issue_cert toy_ca ''idp'' False [''idp.example''] 5 empty_keys = (Inr (kp, cp), s') \<and> on_disk s' kp \<and>
     Option.bind (kfiles s' cp) (parse_cert toy_ca) = Some c"
proof -
  obtain kp cp s' where run: "issue_cert toy_ca ''idp'' False [''idp.example''] 5 empty_keys = (Inr (kp, cp), s')"
    by (rule toy_issue)
  from issue_cert_covers_names [OF run toy_parse_pem] run show ?thesis by blast
qed

theorem issue_cert_idempotent_witness:
  "\<exists>paths s'. issue_cert toy_ca ''idp'' False [''idp.example''] 5 empty_keys = (Inr paths, s') \<and>
     issue_cert toy_ca ''idp'' True [] 99 s' = (Inr paths, s')"
proof -
  obtain kp cp s' where run: "issue_cert toy_ca ''idp'' False [''idp.example''] 5 empty_keys = (Inr (kp, cp), s')"
    by (rule toy_issue)
  from issue_cert_idempotent [OF run toy_parse_pem, of "[]"] run show ?thesis by auto
qed

theorem leaf_host_replaces_the_ca_witness:
  "\<exists>kp cp s'. issue_cert toy_ca ''idp'' False [''idp.example''] 5 empty_keys = (Inr (kp, cp), s') \<and>
     kfiles s' CA_KEY_PATH = Some ''key0''"
proof -
  obtain kp cp s' where run: "issue_cert toy_ca ''idp'' False [''idp.example''] 5 empty_keys = (Inr (kp, cp), s')"
    by (rule toy_issue)
  have "\<not> on_disk empty_keys CA_KEY_PATH" "\<not> cert_covers toy_ca (service_cert_path ''idp'') [''idp.example''] empty_keys"
    by (simp_all add: on_disk_def empty_keys_def cert_covers_def)
  from leaf_host_replaces_the_ca [OF run this] run show ?thesis
    by (simp add: toy_ca_def empty_keys_def dec_nat.simps)
qed

end
