(* ===== verification/Prims.thy ===== *)
theory Prims
  imports PyValues Hashes
begin

text \<open>
  The third-party packages as a record of functions, the argument \<open>P\<close> of every definition
  that uses them: \<open>cryptography\<close> (PEM keys, RSA and ECDSA verification), PyJWT, \<open>bcrypt\<close>, and
  the text that Python prints for a float or a container. The first argument of \<open>hashpw\<close>
  stands for the random salt. Nothing is assumed of them here.
\<close>

datatype key_kind = RsaKey | EcKey | OtherKey

record pubkey =
  key_kind :: key_kind
  key_der :: string

text \<open>What \<open>jwt.decode\<close> does: claims, one of the three errors the code names, or any other.\<close>

datatype jwt_result =
    JwtClaims dict
  | JwtExpired
  | JwtBadSignature
  | JwtMalformed
  | JwtOther string

record prims =
  load_pem :: "string \<Rightarrow> pubkey option"
  sig_valid :: "pubkey \<Rightarrow> string \<Rightarrow> string \<Rightarrow> bool"
  pem_error :: "string \<Rightarrow> string"
  jwt_encode :: "dict \<Rightarrow> string"
  jwt_decode :: "time \<Rightarrow> string \<Rightarrow> jwt_result"
  hashpw :: "string \<Rightarrow> string \<Rightarrow> string"
  checkpw :: "string \<Rightarrow> string \<Rightarrow> bool"
  float_repr :: "real \<Rightarrow> string"
  other_str :: "pyval \<Rightarrow> string"

text \<open>\<open>str(v)\<close>.\<close>

definition py_str :: "prims \<Rightarrow> pyval \<Rightarrow> string" where
  "py_str P v =
     (case v of
        PyStr s \<Rightarrow> s
      | PyNone \<Rightarrow> ''None''
      | PyBool b \<Rightarrow> if b then ''True'' else ''False''
      | PyInt i \<Rightarrow> dec_int i
      | PyFloat (Fin x) \<Rightarrow> float_repr P x
      | _ \<Rightarrow> other_str P v)"

text \<open>
  A JSON value used as the key of a dictionary of strings: a list or an object is the
  \<open>TypeError\<close> of an unhashable key; other values that are no strings are outside the model.
\<close>

definition key_of :: "pyval \<Rightarrow> string res" where
  "key_of v = (case v of PyStr s \<Rightarrow> Inr s | _ \<Rightarrow> if hashable v then Inl Unmodelled else Inl TypeError)"

lemma key_of_str [simp]: "key_of (PyStr s) = Inr s"
  by (simp add: key_of_def)

lemma key_of_Inr: "key_of v = Inr s \<longleftrightarrow> v = PyStr s"
  by (cases v) (auto simp: key_of_def)

text \<open>A method call such as \<open>v.encode("utf-8")\<close> that only strings have.\<close>

definition as_str :: "pyval \<Rightarrow> string res" where
  "as_str v = (case v of PyStr s \<Rightarrow> Inr s | _ \<Rightarrow> Inl AttributeError)"

lemma as_str_Inr: "as_str v = Inr s \<longleftrightarrow> v = PyStr s"
  by (cases v) (auto simp: as_str_def)

lemma as_dict_Inr: "as_dict v = Inr d \<longleftrightarrow> v = PyDict d"
  by (cases v) (auto simp: as_dict_def)

text \<open>
  An instance for the witnesses: a key is its own PEM text, a signature is the key followed by
  the message, a token is the text \<open>token\<close> and decodes to the claims given.
\<close>

definition toy_prims :: "dict \<Rightarrow> prims" where
  "toy_prims claims = \<lparr>
     load_pem = (\<lambda>s. if s = [] then None else Some \<lparr>key_kind = RsaKey, key_der = s\<rparr>),
     sig_valid = (\<lambda>k sig msg. sig = key_der k @ msg),
     pem_error = (\<lambda>_. []),
     jwt_encode = (\<lambda>_. ''token''),
     jwt_decode = (\<lambda>now s. if s = ''token'' then JwtClaims claims else JwtMalformed),
     hashpw = (\<lambda>salt pw. ''hash:'' @ pw),
     checkpw = (\<lambda>pw h. h = ''hash:'' @ pw),
     float_repr = (\<lambda>_. ''0.0''),
     other_str = (\<lambda>_. [])\<rparr>"

end
