(* ===== verification/Encoding.thy ===== *)
theory Encoding
  imports PyStrings
begin

text \<open>
  The parts of Python's \<open>base64\<close> module that the source uses, over byte strings:
  \<open>b64encode\<close>, the lenient \<open>b64decode\<close> (characters outside the alphabet are skipped,
  as \<open>binascii.a2b_base64\<close> does outside its strict mode), \<open>b32encode\<close> and \<open>b32decode\<close>. \<open>None\<close>
  is the \<open>binascii.Error\<close>, a \<open>ValueError\<close>.
\<close>

section \<open>Base64\<close>

definition b64_alphabet :: string where
  "b64_alphabet = ''ABCDEFGHIJKLMNOPQRSTUVWXYZabcdefghijklmnopqrstuvwxyz0123456789+/''"

definition b64_char :: "nat \<Rightarrow> char" where
  "b64_char i =
     (if i < 26 then char_of (65 + i)
      else if i < 52 then char_of (71 + i)
      else if i < 62 then char_of (i - 4)
      else if i = 62 then CHR ''+'' else CHR ''/'')"

definition b64_val :: "char \<Rightarrow> nat option" where
  "b64_val c = (let n = of_char c in
     if 65 \<le> n \<and> n \<le> 90 then Some (n - 65)
     else if 97 \<le> n \<and> n \<le> 122 then Some (n - 71)
     else if 48 \<le> n \<and> n \<le> 57 then Some (n + 4)
     else if n = 43 then Some 62
     else if n = 47 then Some 63
     else None)"

abbreviation pad_char :: char where
  "pad_char \<equiv> CHR ''=''"

fun b64encode :: "string \<Rightarrow> string" where
  "b64encode [] = []"
| "b64encode [a] =
     (let x = of_char a :: nat in
      [b64_char (x div 4), b64_char (x mod 4 * 16), pad_char, pad_char])"
| "b64encode [a, b] =
     (let x = of_char a :: nat; y = of_char b :: nat in
      [b64_char (x div 4), b64_char (x mod 4 * 16 + y div 16), b64_char (y mod 16 * 4), pad_char])"
| "b64encode (a # b # c # s) =
     (let x = of_char a :: nat; y = of_char b :: nat; z = of_char c :: nat in
      b64_char (x div 4) # b64_char (x mod 4 * 16 + y div 16) #
      b64_char (y mod 16 * 4 + z div 64) # b64_char (z mod 64) # b64encode s)"

text \<open>
  The decoder's loop: \<open>quad\<close> is the position in the current group of four, \<open>left\<close> the
  bits not yet output, \<open>pads\<close> the padding characters seen since the last data character.
\<close>

fun b64_loop :: "nat \<Rightarrow> nat \<Rightarrow> nat \<Rightarrow> string \<Rightarrow> string option" where
  "b64_loop quad left pads [] = (if quad = 0 then Some [] else None)"
| "b64_loop quad left pads (c # cs) =
     (if c = pad_char then
        (if quad \<ge> 2 then
           (if quad + (pads + 1) \<ge> 4 then Some [] else b64_loop quad left (pads + 1) cs)
         else b64_loop quad left pads cs)
      else case b64_val c of
        None \<Rightarrow> b64_loop quad left pads cs
      | Some v \<Rightarrow>
          if quad = 0 then b64_loop 1 v 0 cs
          else if quad = 1 then
            map_option ((#) (char_of (left * 4 + v div 16))) (b64_loop 2 (v mod 16) 0 cs)
          else if quad = 2 then
            map_option ((#) (char_of (left * 16 + v div 4))) (b64_loop 3 (v mod 4) 0 cs)
          else
            map_option ((#) (char_of (left * 64 + v))) (b64_loop 0 0 0 cs))"

definition b64decode :: "string \<Rightarrow> string option" where
  "b64decode s = (if ascii s then b64_loop 0 0 0 s else None)"

lemma b64_char_facts:
  assumes "i < 64"
  shows "b64_val (b64_char i) = Some i" "b64_char i \<noteq> pad_char" "(of_char (b64_char i) :: nat) < 128"
proof -
  have plus: "i = 62 \<or> i = 63" if "\<not> i < 62"
    using that assms by auto
  show "b64_val (b64_char i) = Some i" "(of_char (b64_char i) :: nat) < 128"
    using assms plus by (auto simp: b64_val_def b64_char_def Let_def)
  have "(of_char (b64_char i) :: nat) \<noteq> of_char pad_char"
    using assms plus by (auto simp: b64_char_def)
  then show "b64_char i \<noteq> pad_char" by metis
qed

text \<open>The arithmetic of cutting bytes into groups of six bits.\<close>

lemma cut_nat:
  fixes q r m :: nat
  assumes "r < m"
  shows "(q * m + r) div m = q" "(q * m + r) mod m = r"
  using assms by simp_all

lemma b64_bounds:
  fixes x y z :: nat
  shows "x < 256 \<Longrightarrow> x div 4 < 64" "x mod 4 * 16 < 64"
    "y < 256 \<Longrightarrow> x mod 4 * 16 + y div 16 < 64"
    "y mod 16 * 4 < 64" "z < 256 \<Longrightarrow> y mod 16 * 4 + z div 64 < 64" "z mod 64 < 64"
proof -
  have m: "x mod 4 < 4" "y mod 16 < 16" by simp_all
  then show "x mod 4 * 16 < 64" "y mod 16 * 4 < 64" "z mod 64 < 64"
    by simp_all
  show "x < 256 \<Longrightarrow> x div 4 < 64" by (simp add: less_mult_imp_div_less)
  show "x mod 4 * 16 + y div 16 < 64" if "y < 256"
    using m less_mult_imp_div_less [of y 16 16] that by simp
  show "y mod 16 * 4 + z div 64 < 64" if "z < 256"
    using m less_mult_imp_div_less [of z 4 64] that by simp
qed

lemma b64_rejoin:
  assumes "y < 256" "z < (256 :: nat)"
  shows "x div 4 * 4 + x mod 4 * 16 div 16 = x"
    "x div 4 * 4 + (x mod 4 * 16 + y div 16) div 16 = x"
    "(x mod 4 * 16 + y div 16) mod 16 * 16 + y mod 16 * 4 div 4 = y"
    "(x mod 4 * 16 + y div 16) mod 16 * 16 + (y mod 16 * 4 + z div 64) div 4 = y"
    "(y mod 16 * 4 + z div 64) mod 4 * 64 + z mod 64 = z"
proof -
  have r: "y div 16 < 16" "z div 64 < 4"
    using assms by (simp_all add: less_mult_imp_div_less)
  note c = cut_nat [OF r(1), of "x mod 4"] cut_nat [OF r(2), of "y mod 16"]
  show "x div 4 * 4 + x mod 4 * 16 div 16 = x"
    "x div 4 * 4 + (x mod 4 * 16 + y div 16) div 16 = x"
    "(x mod 4 * 16 + y div 16) mod 16 * 16 + y mod 16 * 4 div 4 = y"
    "(x mod 4 * 16 + y div 16) mod 16 * 16 + (y mod 16 * 4 + z div 64) div 4 = y"
    "(y mod 16 * 4 + z div 64) mod 4 * 64 + z mod 64 = z"
    by (simp_all only: c div_mult_mod_eq) simp_all
qed

lemma ascii_b64encode: "ascii (b64encode s)"
  by (induction s rule: b64encode.induct) (simp_all add: Let_def b64_char_facts b64_bounds)

text \<open>Decoding what was encoded gives it back.\<close>

lemma b64_loop_encode: "b64_loop 0 0 0 (b64encode s) = Some s"
proof (induction s rule: b64encode.induct)
  case 1
  then show ?case by simp
next
  case (2 a)
  define x where "x = (of_char a :: nat)"
  have "x < 256" "char_of x = a" by (simp_all add: x_def)
  then show ?case
    by (simp add: b64_char_facts b64_bounds b64_rejoin Let_def flip: x_def)
next
  case (3 a b)
  define x y where "x = (of_char a :: nat)" and "y = (of_char b :: nat)"
  have "x < 256" "char_of x = a" "y < 256" "char_of y = b" by (simp_all add: x_def y_def)
  then show ?case
    by (simp add: b64_char_facts b64_bounds b64_rejoin Let_def flip: x_def y_def)
next
  case (4 a b c s)
  define x y z where "x = (of_char a :: nat)" and "y = (of_char b :: nat)" and "z = (of_char c :: nat)"
  have "x < 256" "char_of x = a" "y < 256" "char_of y = b" "z < 256" "char_of z = c"
    by (simp_all add: x_def y_def z_def)
  with 4 show ?case
    by (simp add: b64_char_facts b64_bounds b64_rejoin Let_def flip: x_def y_def z_def)
qed

lemma b64decode_b64encode: "b64decode (b64encode s) = Some s"
  by (simp add: b64decode_def ascii_b64encode b64_loop_encode)

lemma b64encode_nonempty: "s \<noteq> [] \<Longrightarrow> b64encode s \<noteq> []"
  by (cases s rule: b64encode.cases) (auto simp: Let_def)

lemma b64encode_inj: "b64encode s = b64encode t \<Longrightarrow> s = t"
  by (metis b64decode_b64encode option.inject)

section \<open>Base32\<close>

definition b32_val :: "char \<Rightarrow> nat option" where
  "b32_val c = (let n = of_char c in
     if 65 \<le> n \<and> n \<le> 90 then Some (n - 65)
     else if 50 \<le> n \<and> n \<le> 55 then Some (n - 24)
     else None)"

text \<open>\<open>acc.to_bytes(5, "big")\<close>.\<close>

definition be5 :: "nat \<Rightarrow> nat list" where
  "be5 acc = [acc div 4294967296 mod 256, acc div 16777216 mod 256, acc div 65536 mod 256,
              acc div 256 mod 256, acc mod 256]"

definition b32_acc :: "nat list \<Rightarrow> nat" where
  "b32_acc vs = fold (\<lambda>v acc. acc * 32 + v) vs 0"

fun groups8 :: "'a list \<Rightarrow> 'a list list" where
  "groups8 [] = []"
| "groups8 (x # xs) = take 8 (x # xs) # groups8 (drop 7 xs)"

text \<open>
  \<open>base64.b32decode(s)\<close>: the length must be a multiple of eight, the number of padding
  characters one of 0, 1, 3, 4, 6, and the last group is cut to the bytes its data
  characters determine.
\<close>

definition b32decode :: "string \<Rightarrow> nat list option" where
  "b32decode s =
     (let t = rstrip_by (\<lambda>c. c = pad_char) s;
          pad = length s - length t;
          vals = map b32_val t
      in if length s mod 8 \<noteq> 0 \<or> None \<in> set vals \<or> pad \<notin> {0, 1, 3, 4, 6} then None
         else
           let gs = groups8 (map the vals);
               out = concat (map (\<lambda>g. be5 (b32_acc g)) gs)
           in if pad \<noteq> 0 \<and> out \<noteq> [] then
                Some (take (length out - 5) out @
                      take ((43 - 5 * pad) div 8) (be5 (b32_acc (last gs) * 32 ^ pad)))
              else Some out)"

lemma b32decode_hello: "b32decode ''JBSWY3DP'' = Some [72, 101, 108, 108, 111]"
  by (simp add: b32decode_def rstrip_by_def b32_val_def be5_def b32_acc_def Let_def)

lemma b32decode_padded: "b32decode ''MZXW6===''  = Some [102, 111, 111]"
  by (simp add: b32decode_def rstrip_by_def b32_val_def be5_def b32_acc_def Let_def)

text \<open>
  \<open>base64.b32encode(s)\<close>: groups of five bytes, the last one filled up with zeros and its surplus characters replaced by padding.
\<close>

definition b32_char :: "nat \<Rightarrow> char" where
  "b32_char i = (if i < 26 then char_of (65 + i) else char_of (24 + i))"

definition b32_quantum :: "nat list \<Rightarrow> string" where
  "b32_quantum g =
     (let acc = fold (\<lambda>b acc. acc * 256 + b) g 0 in map (\<lambda>k. b32_char (acc div 32 ^ k mod 32)) [7, 6, 5, 4, 3, 2, 1, 0])"

fun b32encode :: "nat list \<Rightarrow> string" where
  "b32encode [] = []"
| "b32encode [a] = take 2 (b32_quantum [a, 0, 0, 0, 0]) @ replicate 6 pad_char"
| "b32encode [a, b] = take 4 (b32_quantum [a, b, 0, 0, 0]) @ replicate 4 pad_char"
| "b32encode [a, b, c] = take 5 (b32_quantum [a, b, c, 0, 0]) @ replicate 3 pad_char"
| "b32encode [a, b, c, d] = take 7 (b32_quantum [a, b, c, d, 0]) @ replicate 1 pad_char"
| "b32encode (a # b # c # d # e # s) = b32_quantum [a, b, c, d, e] @ b32encode s"

lemma b32_char_facts:
  assumes "i < 32"
  shows "b32_val (b32_char i) = Some i" "b32_char i \<noteq> pad_char" "\<not> is_lower (b32_char i)"
proof -
  show "b32_val (b32_char i) = Some i" using assms by (auto simp: b32_val_def b32_char_def Let_def)
  have "(of_char (b32_char i) :: nat) \<noteq> of_char pad_char" using assms by (auto simp: b32_char_def)
  then show "b32_char i \<noteq> pad_char" by metis
  show "\<not> is_lower (b32_char i)" using assms by (auto simp: b32_char_def is_lower_def Let_def)
qed

text \<open>Cutting a number into its eight digits to the base 32, and into its five bytes.\<close>

lemma b32_acc_cut:
  assumes "n < 32 ^ 8"
  shows "b32_acc (map (\<lambda>k. n div 32 ^ k mod 32) [7, 6, 5, 4, 3, 2, 1, 0]) = n"
proof -
  have step: "n div 32 ^ m * 32 + n div 32 ^ k mod 32 = n div 32 ^ k" if "m = Suc k" for m k
    using div_mult_mod_eq [of "n div 32 ^ k" 32] by (simp add: that div_mult2_eq power_Suc2 del: power_Suc)
  have "0 * 32 + n div 32 ^ 7 mod 32 = n div 32 ^ 7" using step [of 8 7] assms by simp
  moreover have "n div 32 ^ 0 = n" by simp
  moreover have "7 = Suc 6" "6 = Suc 5" "5 = Suc 4" "4 = Suc 3" "3 = Suc 2" "2 = Suc 1" "1 = Suc 0" by simp_all
  note this [THEN step]
  ultimately show ?thesis unfolding b32_acc_def list.map fold_simps by (simp only:)
qed

lemma be5_join:
  assumes "a < 256" "b < 256" "c < 256" "d < 256" "e < (256 :: nat)"
  shows "be5 (fold (\<lambda>b acc. acc * 256 + b) [a, b, c, d, e] 0) = [a, b, c, d, e]"
proof -
  let ?n4 = "a * 256 + b" let ?n3 = "?n4 * 256 + c" let ?n2 = "?n3 * 256 + d" let ?n1 = "?n2 * 256 + e"
  have q: "?n1 div 256 = ?n2" "?n2 div 256 = ?n3" "?n3 div 256 = ?n4" "?n4 div 256 = a"
    using assms by (simp_all only: cut_nat)
  have m: "?n1 mod 256 = e" "?n2 mod 256 = d" "?n3 mod 256 = c" "?n4 mod 256 = b" "a mod 256 = a"
    using assms by (simp_all only: cut_nat mod_less)
  have p: "n div 65536 = n div 256 div 256" "n div 16777216 = n div 256 div 256 div 256"
    "n div 4294967296 = n div 256 div 256 div 256 div 256" for n :: nat
    by (simp_all flip: div_mult2_eq)
  show ?thesis by (simp only: fold_simps be5_def p q m mult_0 add_0)
qed

text \<open>What \<open>b32encode\<close> makes of whole groups is decoded again, and its characters are capital letters and digits.\<close>

lemma fold_256: "(\<forall>b \<in> set g. b < 256) \<Longrightarrow> n < m \<Longrightarrow> fold (\<lambda>b acc. acc * 256 + b) g n < m * 256 ^ length (g :: nat list)"
proof (induction g arbitrary: n m)
  case (Cons b g)
  have "n * 256 + b < m * 256" using Cons.prems by (simp add: Suc_le_eq [symmetric] mult_le_mono1 [of "Suc n" m 256, simplified])
  then show ?case using Cons.IH [of "n * 256 + b" "m * 256"] Cons.prems by (simp add: mult.assoc)
qed simp

lemma b32_quantum_chars: "\<forall>x \<in> set (b32_quantum g). b32_val x \<noteq> None \<and> x \<noteq> pad_char \<and> \<not> is_lower x" "length (b32_quantum g) = 8"
  by (simp_all add: b32_quantum_def Let_def b32_char_facts)

lemma b32_quantum_vals: "map (the \<circ> b32_val) (b32_quantum g) =
    map (\<lambda>k. fold (\<lambda>b acc. acc * 256 + b) g 0 div 32 ^ k mod 32) [7, 6, 5, 4, 3, 2, 1, 0]"
  by (simp add: b32_quantum_def Let_def b32_char_facts)

lemma b32_group:
  assumes "a < 256" "b < 256" "c < 256" "d < 256" "e < (256 :: nat)"
  shows "be5 (b32_acc (map (the \<circ> b32_val) (b32_quantum [a, b, c, d, e]))) = [a, b, c, d, e]"
proof -
  have "fold (\<lambda>b acc. acc * 256 + b) [a, b, c, d, e] 0 < 1 * 256 ^ length [a, b, c, d, e]"
    using assms by (intro fold_256) simp_all
  then show ?thesis unfolding b32_quantum_vals by (subst b32_acc_cut) (use be5_join [OF assms] in simp_all)
qed

lemma groups8_append: "length g = 8 \<Longrightarrow> groups8 (g @ xs) = g # groups8 xs"
  by (cases g) simp_all

lemma b32encode_whole:
  assumes "length s mod 5 = 0" and "\<forall>b \<in> set s. b < 256"
  shows "length (b32encode s) mod 8 = 0 \<and> (\<forall>x \<in> set (b32encode s). b32_val x \<noteq> None \<and> x \<noteq> pad_char \<and> \<not> is_lower x) \<and>
    concat (map (\<lambda>g. be5 (b32_acc g)) (groups8 (map (the \<circ> b32_val) (b32encode s)))) = s"
  using assms
proof (induction s rule: b32encode.induct)
  case (6 a b c d e s)
  then have s: "length s mod 5 = 0" "\<forall>b \<in> set s. b < 256" by simp_all
  define q where "q = b32_quantum [a, b, c, d, e]"
  have q: "length q = 8" "\<forall>x \<in> set q. b32_val x \<noteq> None \<and> x \<noteq> pad_char \<and> \<not> is_lower x"
    unfolding q_def using b32_quantum_chars by blast+
  have g: "be5 (b32_acc (map (the \<circ> b32_val) q)) = [a, b, c, d, e]"
    unfolding q_def using "6.prems" by (intro b32_group) simp_all
  have m: "groups8 (map (the \<circ> b32_val) (q @ b32encode s)) = map (the \<circ> b32_val) q # groups8 (map (the \<circ> b32_val) (b32encode s))"
    unfolding map_append by (rule groups8_append) (simp add: q)
  note IH = "6.IH" [OF s]
  have "length (q @ b32encode s) mod 8 = 0" using IH q(1) by simp
  moreover have "\<forall>x \<in> set (q @ b32encode s). b32_val x \<noteq> None \<and> x \<noteq> pad_char \<and> \<not> is_lower x"
    unfolding set_append using IH q(2) by blast
  moreover have "concat (map (\<lambda>g. be5 (b32_acc g)) (groups8 (map (the \<circ> b32_val) (q @ b32encode s)))) = a # b # c # d # e # s"
    unfolding m list.map concat.simps g using IH by (simp only: append_Cons append_Nil)
  ultimately show ?case unfolding b32encode.simps q_def by blast
qed simp_all

lemma b32decode_b32encode:
  assumes "length s mod 5 = 0" and "\<forall>b \<in> set s. b < 256"
  shows "b32decode (b32encode s) = Some s"
proof -
  have w: "length (b32encode s) mod 8 = 0" "\<And>x. x \<in> set (b32encode s) \<Longrightarrow> b32_val x \<noteq> None" "\<And>x. x \<in> set (b32encode s) \<Longrightarrow> x \<noteq> pad_char"
    "concat (map (\<lambda>g. be5 (b32_acc g)) (groups8 (map the (map b32_val (b32encode s))))) = s"
    using b32encode_whole [OF assms] by simp_all
  have "dropWhile (\<lambda>c. c = pad_char) (rev (b32encode s)) = rev (b32encode s)"
    using w(3) by (intro dropWhile_eq_self_iff [THEN iffD2]) (metis hd_in_set set_rev)
  then have r: "rstrip_by (\<lambda>c. c = pad_char) (b32encode s) = b32encode s" by (simp add: rstrip_by_def)
  have "None \<notin> set (map b32_val (b32encode s))" using w(2) by (metis imageE list.set_map)
  then show ?thesis unfolding b32decode_def Let_def r w(4) using w(1) by simp
qed

end
