(* ===== verification/DeviceRegistry.thy ===== *)
theory DeviceRegistry
  imports Prims Encoding Storage Config
begin

text \<open>
  \<open>idp/device_registry.py\<close>: enrolment, approval and revocation of devices, and the
  challenge-response that makes a login \<open>attested\<close>. Records live in the configured state
  backend, challenges in memory. What the code only prints (\<open>obs.info\<close>, \<open>obs.warning\<close>) has no
  counterpart.
\<close>

definition NAMESPACE :: string where
  "NAMESPACE = ''devices''"

definition STATUS_PENDING :: pyval where
  "STATUS_PENDING = PyStr ''pending''"

definition STATUS_APPROVED :: pyval where
  "STATUS_APPROVED = PyStr ''approved''"

definition STATUS_REVOKED :: pyval where
  "STATUS_REVOKED = PyStr ''revoked''"

definition CHALLENGE_TTL_SECONDS :: time where
  "CHALLENGE_TTL_SECONDS = 30"

record registry =
  reg_store :: store
  challenges :: "(string, string \<times> time) odict"

section \<open>Keys and signatures\<close>

definition key_thumbprint :: "prims \<Rightarrow> pyval \<Rightarrow> string res" where
  "key_thumbprint P pem =
     ebind (as_str pem) (\<lambda>s.
       case load_pem P s of None \<Rightarrow> Inl ValueError | Some k \<Rightarrow> Inr (sha256_hex (key_der k)))"

text \<open>
  RSA with PKCS 1 v1.5 padding or ECDSA, both over SHA-256; a key of another kind verifies
  nothing, and so does a PEM that does not parse.
\<close>

definition verify_signature :: "prims \<Rightarrow> pyval \<Rightarrow> string \<Rightarrow> string \<Rightarrow> bool res" where
  "verify_signature P pem signature message =
     ebind (as_str pem) (\<lambda>s.
       Inr (case load_pem P s of
              None \<Rightarrow> False
            | Some k \<Rightarrow> key_kind k \<noteq> OtherKey \<and> sig_valid P k signature message))"

section \<open>The registry\<close>

definition get_device :: "pyval \<Rightarrow> store \<Rightarrow> pyval res" where
  "get_device device_id st = ebind (key_of device_id) (\<lambda>k. Inr (store_get st NAMESPACE k PyNone))"

definition list_devices :: "store \<Rightarrow> dict" where
  "list_devices st = store_all st NAMESPACE"

definition is_enrolled :: "pyval \<Rightarrow> store \<Rightarrow> bool res" where
  "is_enrolled device_id st = ebind (get_device device_id st) (\<lambda>r. Inr (r \<noteq> PyNone))"

text \<open>\<open>record.get("status") == STATUS_APPROVED\<close>, for a record that is truthy.\<close>

definition has_status :: "pyval \<Rightarrow> pyval \<Rightarrow> bool res" where
  "has_status status r = ebind (as_dict r) (\<lambda>e. Inr (py_eq (dget e ''status'') status))"

definition is_approved :: "pyval \<Rightarrow> store \<Rightarrow> bool res" where
  "is_approved device_id st =
     ebind (get_device device_id st) (\<lambda>r. if py_truth r then has_status STATUS_APPROVED r else Inr False)"

definition new_record :: "config \<Rightarrow> pyval \<Rightarrow> pyval \<Rightarrow> string \<Rightarrow> pyval \<Rightarrow> time \<Rightarrow> dict" where
  "new_record cfg device_id pem thumbprint previous now =
     (let approved = \<not> require_device_approval cfg in
      [(''device_id'', device_id), (''public_key_pem'', pem), (''thumbprint'', PyStr thumbprint),
       (''status'', if approved then STATUS_APPROVED else STATUS_PENDING),
       (''enrolled_at'', PyFloat (Fin now)), (''last_enrolled_at'', PyFloat (Fin now)),
       (''approved_at'', if approved then PyFloat (Fin now) else PyNone),
       (''approved_by'', if approved then PyStr ''auto (approval disabled)'' else PyNone),
       (''previous_thumbprint'', previous)])"

definition register_device ::
  "prims \<Rightarrow> config \<Rightarrow> pyval \<Rightarrow> pyval \<Rightarrow> time \<Rightarrow> store \<Rightarrow> dict res \<times> store" where
  "register_device P cfg device_id pem now st =
     (case ebind (key_thumbprint P pem) (\<lambda>tp. ebind (key_of device_id) (\<lambda>k.
             let existing = store_get st NAMESPACE k PyNone in
             ebind (if py_truth existing then ebind (as_dict existing) (\<lambda>e. Inr (Some e)) else Inr None) (\<lambda>old.
             Inr (k, case old of
               Some e \<Rightarrow>
                 if py_eq (dget e ''thumbprint'') (PyStr tp)
                 then dset ''last_enrolled_at'' (PyFloat (Fin now)) e
                 else new_record cfg device_id pem tp (dget e ''thumbprint'') now
             | None \<Rightarrow> new_record cfg device_id pem tp PyNone now)))) of
        Inl x \<Rightarrow> (Inl x, st)
      | Inr (k, r) \<Rightarrow>
          (case store_set st NAMESPACE k (PyDict r) of
             (Inl x, st') \<Rightarrow> (Inl x, st')
           | (Inr _, st') \<Rightarrow> (Inr r, st')))"

text \<open>Changing a stored record: \<open>False\<close> if there is none, a \<open>TypeError\<close> if it is no object.\<close>

definition update_device :: "(dict \<Rightarrow> dict) \<Rightarrow> string \<Rightarrow> store \<Rightarrow> bool res \<times> store" where
  "update_device f k st =
     (let r = store_get st NAMESPACE k PyNone in
      if \<not> py_truth r then (Inr False, st)
      else case r of
          PyDict e \<Rightarrow>
            (case store_set st NAMESPACE k (PyDict (f e)) of
               (Inl x, st') \<Rightarrow> (Inl x, st')
             | (Inr _, st') \<Rightarrow> (Inr True, st'))
        | _ \<Rightarrow> (Inl TypeError, st))"

definition approve_device :: "string \<Rightarrow> string \<Rightarrow> time \<Rightarrow> store \<Rightarrow> bool res \<times> store" where
  "approve_device device_id approved_by now =
     update_device (\<lambda>e. dset ''approved_by'' (PyStr approved_by) (dset ''approved_at'' (PyFloat (Fin now))
       (dset ''status'' STATUS_APPROVED e))) device_id"

definition revoke_device :: "string \<Rightarrow> string \<Rightarrow> string \<Rightarrow> time \<Rightarrow> store \<Rightarrow> bool res \<times> store" where
  "revoke_device device_id revoked_by reason now =
     update_device (\<lambda>e. dset ''revoked_reason'' (PyStr reason) (dset ''revoked_by'' (PyStr revoked_by)
       (dset ''revoked_at'' (PyFloat (Fin now)) (dset ''status'' STATUS_REVOKED e)))) device_id"

section \<open>Challenges\<close>

text \<open>\<open>nonce\<close> is what \<open>os.urandom(32)\<close> returned.\<close>

definition issue_challenge :: "pyval \<Rightarrow> string \<Rightarrow> time \<Rightarrow> registry \<Rightarrow> string res \<times> registry" where
  "issue_challenge device_id nonce now reg =
     (case key_of device_id of
        Inl x \<Rightarrow> (Inl x, reg)
      | Inr k \<Rightarrow>
          (Inr (b64encode nonce),
           reg\<lparr>challenges := AList.update k (nonce, now + CHALLENGE_TTL_SECONDS) (challenges reg)\<rparr>))"

text \<open>The signature of an attestation: anything but base64 text verifies nothing.\<close>

definition b64_bytes :: "pyval \<Rightarrow> string option" where
  "b64_bytes v = (case v of PyStr s \<Rightarrow> b64decode s | _ \<Rightarrow> None)"

definition check_attestation_sig :: "prims \<Rightarrow> dict \<Rightarrow> string \<Rightarrow> pyval \<Rightarrow> bool res" where
  "check_attestation_sig P e nonce signature_b64 =
     (case b64_bytes signature_b64 of
        None \<Rightarrow> Inr False
      | Some signature \<Rightarrow>
          ebind (dreq e ''public_key_pem'') (\<lambda>pem. verify_signature P pem signature nonce))"

definition verify_and_consume ::
  "prims \<Rightarrow> pyval \<Rightarrow> pyval \<Rightarrow> time \<Rightarrow> registry \<Rightarrow> bool res \<times> registry" where
  "verify_and_consume P device_id signature_b64 now reg =
     (case key_of device_id of
        Inl x \<Rightarrow> (Inl x, reg)
      | Inr k \<Rightarrow>
          (case map_of (challenges reg) k of
             None \<Rightarrow> Inr False
           | Some (nonce, expires_at) \<Rightarrow>
               if now > expires_at then Inr False
               else ebind (get_device device_id (reg_store reg)) (\<lambda>r.
                 if r = PyNone then Inr False
                 else ebind (as_dict r) (\<lambda>e.
                   if \<not> py_eq (dget e ''status'') STATUS_APPROVED then Inr False
                   else check_attestation_sig P e nonce signature_b64)),
           reg\<lparr>challenges := AList.delete k (challenges reg)\<rparr>))"

definition reset_for_tests :: "registry \<Rightarrow> unit res \<times> registry" where
  "reset_for_tests reg =
     (let (r, st) = store_replace (reg_store reg) NAMESPACE [] in (r, reg\<lparr>reg_store := st, challenges := []\<rparr>))"

section \<open>What a device is, as the store sees it\<close>

definition device_of :: "store \<Rightarrow> string \<Rightarrow> dict option" where
  "device_of st k = (case store_get st NAMESPACE k PyNone of PyDict e \<Rightarrow> if e = [] then None else Some e | _ \<Rightarrow> None)"

text \<open>\<open>approved_key st k tp\<close>: the device is approved, with the key of that thumbprint.\<close>

definition approved_key :: "store \<Rightarrow> string \<Rightarrow> string \<Rightarrow> bool" where
  "approved_key st k tp \<longleftrightarrow> (\<exists>e. device_of st k = Some e \<and> dget e ''status'' = STATUS_APPROVED \<and>
     dget e ''thumbprint'' = PyStr tp)"

text \<open>Every record is an object (or absent): what the operations here store.\<close>

definition records_ok :: "store \<Rightarrow> bool" where
  "records_ok st \<longleftrightarrow> (\<forall>k. store_get st NAMESPACE k PyNone = PyNone \<or>
     (\<exists>e. store_get st NAMESPACE k PyNone = PyDict e))"

lemma status_neq [simp]:
  "STATUS_PENDING \<noteq> STATUS_APPROVED" "STATUS_REVOKED \<noteq> STATUS_APPROVED"
  "STATUS_APPROVED \<noteq> STATUS_PENDING" "STATUS_APPROVED \<noteq> STATUS_REVOKED"
  by (simp_all add: STATUS_PENDING_def STATUS_APPROVED_def STATUS_REVOKED_def)

lemma py_eq_approved [simp]: "py_eq v STATUS_APPROVED \<longleftrightarrow> v = STATUS_APPROVED"
  by (simp add: STATUS_APPROVED_def)

lemma dset_not_Nil [simp]: "dset k v e \<noteq> []"
  by (cases e) auto

text \<open>A write to the store, seen through \<open>device_of\<close>.\<close>

lemma device_of_store:
  "store_set st NAMESPACE k (PyDict e) = (Inr (), st') \<Longrightarrow> e \<noteq> [] \<Longrightarrow>
   device_of st' k' = (if k' = k then Some e else device_of st k')"
  using store_kv.get_after_put_other [where k' = k' and ns' = NAMESPACE and dflt = PyNone and s = st and s' = st']
  by (cases "k' = k") (auto simp: device_of_def store_kv.get_after_put)

lemma device_of_store_failed:
  "store_set st NAMESPACE k v = (Inl x, st') \<Longrightarrow> device_of st' k' = device_of st k'"
  by (simp add: device_of_def store_kv.get_after_failed_put)

lemma update_device_spec:
  assumes "update_device f k st = (r, st')" and "\<And>e. f e \<noteq> []"
  shows "(r = Inr True \<and> (\<exists>e. device_of st k = Some e \<and>
            (\<forall>k'. device_of st' k' = (if k' = k then Some (f e) else device_of st k')))) \<or>
         (r \<noteq> Inr True \<and> (\<forall>k'. device_of st' k' = device_of st k'))"
proof (cases "store_get st NAMESPACE k PyNone")
  case (PyDict e)
  show ?thesis
  proof (cases "e = []")
    case True
    then show ?thesis using assms(1) by (auto simp: update_device_def PyDict)
  next
    case False
    then have e: "device_of st k = Some e" by (simp add: device_of_def PyDict)
    obtain q st1 where s: "store_set st NAMESPACE k (PyDict (f e)) = (q, st1)" by fastforce
    show ?thesis
    proof (cases q)
      case (Inl x)
      with s assms(1) False show ?thesis
        by (auto simp: update_device_def PyDict device_of_store_failed)
    next
      case (Inr u)
      with s assms(1) False have "r = Inr True" "st' = st1" by (auto simp: update_device_def PyDict)
      moreover have "device_of st1 k' = (if k' = k then Some (f e) else device_of st k')" for k'
        using device_of_store [of st k "f e" st1 k'] s Inr assms(2) by simp
      ultimately show ?thesis using e by auto
    qed
  qed
qed (use assms(1) in \<open>auto simp: update_device_def Let_def split: if_splits\<close>)

text \<open>Enrolment, in its three outcomes.\<close>

lemma register_device_spec:
  assumes "register_device P cfg device_id pem now st = (r, st')"
  shows "(\<exists>x. r = Inl x \<and> (\<forall>k. device_of st' k = device_of st k)) \<or>
    (\<exists>k tp e. device_id = PyStr k \<and> key_thumbprint P pem = Inr tp \<and> r = Inr e \<and> e \<noteq> [] \<and>
       (\<forall>k'. device_of st' k' = (if k' = k then Some e else device_of st k')) \<and>
       ((\<exists>old. device_of st k = Some old \<and> dget old ''thumbprint'' = PyStr tp \<and>
           e = dset ''last_enrolled_at'' (PyFloat (Fin now)) old) \<or>
        ((\<forall>old. device_of st k = Some old \<longrightarrow> dget old ''thumbprint'' \<noteq> PyStr tp) \<and>
          (\<exists>prev. e = new_record cfg device_id pem tp prev now))))"
proof (cases "key_thumbprint P pem")
  case (Inl x)
  with assms show ?thesis by (auto simp: register_device_def)
next
  case tp: (Inr tp)
  show ?thesis
  proof (cases "key_of device_id")
    case (Inl x)
    with assms tp show ?thesis by (auto simp: register_device_def)
  next
    case (Inr k)
    then have k: "device_id = PyStr k" by (simp add: key_of_Inr)
    have step: ?thesis if e: "e \<noteq> []"
      and run: "(r, st') = (case store_set st NAMESPACE k (PyDict e) of (Inl x, st') \<Rightarrow> (Inl x, st') | (Inr _, st') \<Rightarrow> (Inr e, st'))"
      and why: "(\<exists>old. device_of st k = Some old \<and> dget old ''thumbprint'' = PyStr tp \<and>
           e = dset ''last_enrolled_at'' (PyFloat (Fin now)) old) \<or>
        ((\<forall>old. device_of st k = Some old \<longrightarrow> dget old ''thumbprint'' \<noteq> PyStr tp) \<and>
          (\<exists>prev. e = new_record cfg device_id pem tp prev now))" for e
    proof (cases "store_set st NAMESPACE k (PyDict e)")
      case (Pair q st1)
      show ?thesis
      proof (cases q)
        case (Inl x)
        with Pair run show ?thesis by (simp add: device_of_store_failed)
      next
        case (Inr u)
        with Pair run have "r = Inr e" "st' = st1" by simp_all
        moreover have "device_of st1 k' = (if k' = k then Some e else device_of st k')" for k'
          using device_of_store [of st k e st1 k'] Pair Inr e by simp
        ultimately show ?thesis using k tp e why by auto
      qed
    qed
    have new: "new_record cfg device_id pem tp prev now \<noteq> []" for prev by (simp add: new_record_def Let_def)
    show ?thesis
    proof (cases "py_truth (store_get st NAMESPACE k PyNone)")
      case False
      then have "device_of st k = None" by (auto simp: device_of_def split: pyval.splits)
      with assms tp Inr False show ?thesis
        by (intro step [OF new [of PyNone]]) (auto simp: register_device_def)
    next
      case True
      show ?thesis
      proof (cases "store_get st NAMESPACE k PyNone")
        case (PyDict e)
        with True have e: "device_of st k = Some e" by (simp add: device_of_def)
        show ?thesis
        proof (cases "dget e ''thumbprint'' = PyStr tp")
          case same: True
          with assms tp Inr PyDict True e show ?thesis
            by (intro step [OF dset_not_Nil]) (auto simp: register_device_def as_dict_def)
        next
          case False
          with assms tp Inr PyDict True e show ?thesis
            by (intro step [OF new [of "dget e ''thumbprint''"]]) (auto simp: register_device_def as_dict_def)
        qed
      qed (use assms tp Inr True in \<open>auto simp: register_device_def as_dict_def\<close>)
    qed
  qed
qed


section \<open>Histories of the registry\<close>

text \<open>
  The operations that other components and tools perform, with the clock readings and the
  random bytes they use. A history is any sequence of them: the handlers run in parallel, but each
  operation here holds the module's lock or does a single access to the store.
\<close>

datatype reg_op =
    Register pyval pyval time
  | Approve string string time
  | RevokeDev string string string time
  | IssueChallenge pyval string time
  | Attest pyval pyval time

text \<open>One step: the result \<open>True\<close> is an attestation that succeeded.\<close>

fun reg_step :: "prims \<Rightarrow> config \<Rightarrow> reg_op \<Rightarrow> registry \<Rightarrow> bool \<times> registry" where
  "reg_step P cfg (Register d pem now) reg =
     (False, reg\<lparr>reg_store := snd (register_device P cfg d pem now (reg_store reg))\<rparr>)"
| "reg_step P cfg (Approve d who now) reg =
     (False, reg\<lparr>reg_store := snd (approve_device d who now (reg_store reg))\<rparr>)"
| "reg_step P cfg (RevokeDev d who why now) reg =
     (False, reg\<lparr>reg_store := snd (revoke_device d who why now (reg_store reg))\<rparr>)"
| "reg_step P cfg (IssueChallenge d nonce now) reg = (False, snd (issue_challenge d nonce now reg))"
| "reg_step P cfg (Attest d sig now) reg =
     (case verify_and_consume P d sig now reg of (r, reg') \<Rightarrow> (r = Inr True, reg'))"

fun reg_run :: "prims \<Rightarrow> config \<Rightarrow> reg_op list \<Rightarrow> registry \<Rightarrow> bool list \<times> registry" where
  "reg_run P cfg [] reg = ([], reg)"
| "reg_run P cfg (x # xs) reg =
     (case reg_step P cfg x reg of (b, reg1) \<Rightarrow>
        (case reg_run P cfg xs reg1 of (bs, reg2) \<Rightarrow> (b # bs, reg2)))"

lemma reg_run_append:
  "reg_run P cfg (xs @ ys) reg =
     (case reg_run P cfg xs reg of (bs, reg1) \<Rightarrow>
        (case reg_run P cfg ys reg1 of (cs, reg2) \<Rightarrow> (bs @ cs, reg2)))"
  by (induction xs arbitrary: reg) (auto split: prod.splits)

lemma reg_run_length: "length (fst (reg_run P cfg xs reg)) = length xs"
  by (induction xs arbitrary: reg) (simp_all add: split_beta)

section \<open>Properties\<close>

text \<open>Operations on one device leave the others alone, and nothing but an approval approves.\<close>

lemma approve_device_of:
  assumes "approve_device k who now st = (r, st')"
  shows "(r = Inr True \<and> (\<exists>e e'. device_of st k = Some e \<and> device_of st' k = Some e' \<and>
            dget e' ''thumbprint'' = dget e ''thumbprint'') \<and> (\<forall>k'. k' \<noteq> k \<longrightarrow> device_of st' k' = device_of st k')) \<or>
         (\<forall>k'. device_of st' k' = device_of st k')"
  using update_device_spec [OF assms [unfolded approve_device_def]] by (auto simp: dict_simps)

lemma revoke_device_of:
  assumes "revoke_device k who why now st = (r, st')"
  shows "(r = Inr True \<and> (\<exists>e'. device_of st' k = Some e' \<and> dget e' ''status'' = STATUS_REVOKED) \<and>
            (\<forall>k'. k' \<noteq> k \<longrightarrow> device_of st' k' = device_of st k')) \<or>
         (\<forall>k'. device_of st' k' = device_of st k')"
  using update_device_spec [OF assms [unfolded revoke_device_def]] by (auto simp: dict_simps)

lemma register_approved:
  assumes "require_device_approval cfg" and "register_device P cfg d pem now st = (r, st')"
    and "approved_key st' k tp"
  shows "approved_key st k tp"
proof -
  have pend: "dget (new_record cfg d pem t prev now) ''status'' = STATUS_PENDING" for t prev
    using assms(1) by (simp add: new_record_def dict_simps)
  have same: "device_of st' k = device_of st k \<Longrightarrow> ?thesis" using assms(3) by (simp add: approved_key_def)
  consider "\<forall>k. device_of st' k = device_of st k"
    | (stored) k1 t e where "\<forall>k'. device_of st' k' = (if k' = k1 then Some e else device_of st k')"
      "(\<exists>old. device_of st k1 = Some old \<and> e = dset ''last_enrolled_at'' (PyFloat (Fin now)) old) \<or>
       (\<exists>prev. e = new_record cfg d pem t prev now)"
    using register_device_spec [OF assms(2)] by (elim disjE exE conjE) blast+
  then show ?thesis
  proof cases
    case 1
    then show ?thesis using same by simp
  next
    case stored
    then show ?thesis
      using assms(3) pend by (cases "k = k1") (auto simp: approved_key_def dict_simps)
  qed
qed

text \<open>
  Only an administrator approves a key. While approval is required, a device that is approved
  with some key after any history, but was not before, went through an \<open>approve_device\<close> of that
  device in it: enrolling again, with the old key or with another, never approves anything.
\<close>

theorem approval_needs_administrator:
  assumes "require_device_approval cfg" and "reg_run P cfg ops reg = (bs, reg')"
    and "approved_key (reg_store reg') k tp" and "\<not> approved_key (reg_store reg) k tp"
  shows "\<exists>who now. Approve k who now \<in> set ops"
  using assms(2,4)
proof (induction ops arbitrary: reg bs)
  case Nil
  then show ?case using assms(3) by simp
next
  case (Cons x xs)
  obtain b reg1 bs1 where x: "reg_step P cfg x reg = (b, reg1)" "reg_run P cfg xs reg1 = (bs1, reg')"
    using Cons.prems(1) by (auto split: prod.splits)
  show ?case
  proof (cases "approved_key (reg_store reg1) k tp")
    case False
    then show ?thesis using Cons.IH [OF x(2)] by auto
  next
    case True
    have "\<exists>who now. x = Approve k who now"
    proof (cases x)
      case (Register d pem now)
      then have "register_device P cfg d pem now (reg_store reg) =
          (fst (register_device P cfg d pem now (reg_store reg)), reg_store reg1)"
        using x(1) by auto
      from register_approved [OF assms(1) this True] Cons.prems(2) show ?thesis by simp
    next
      case (Approve d who now)
      have "approve_device d who now (reg_store reg) =
          (fst (approve_device d who now (reg_store reg)), reg_store reg1)"
        using x(1) Approve by auto
      from approve_device_of [OF this] True Cons.prems(2) Approve show ?thesis
        by (cases "d = k") (auto simp: approved_key_def)
    next
      case (RevokeDev d who why now)
      have "revoke_device d who why now (reg_store reg) =
          (fst (revoke_device d who why now (reg_store reg)), reg_store reg1)"
        using x(1) RevokeDev by auto
      from revoke_device_of [OF this] True Cons.prems(2) show ?thesis
        by (cases "d = k") (auto simp: approved_key_def)
    next
      case (IssueChallenge d nonce now)
      with x(1) True Cons.prems(2) show ?thesis
        by (auto simp: issue_challenge_def split: sum.splits)
    next
      case (Attest d sig now)
      with x(1) True Cons.prems(2) show ?thesis
        by (auto simp: verify_and_consume_def split: sum.splits)
    qed
    then show ?thesis by auto
  qed
qed

definition empty_registry :: registry where
  "empty_registry = \<lparr>reg_store = \<lparr>backend = MemoryBackend [], disk = empty_disk\<rparr>, challenges = []\<rparr>"

lemmas run_memory = store_set.simps store_get.simps mem_set_def mem_get_def mem_ns_def

theorem approval_needs_administrator_witness:
  "\<exists>bs reg'. reg_run (toy_prims []) default_config [Register (PyStr ''d1'') (PyStr ''key'') 1, Approve ''d1'' ''root'' 2]
      empty_registry = (bs, reg') \<and> approved_key (reg_store reg') ''d1'' (sha256_hex ''key'') \<and>
     (\<exists>who now. Approve ''d1'' who now \<in> set [Register (PyStr ''d1'') (PyStr ''key'') 1, Approve ''d1'' ''root'' 2])"
proof -
  let ?ops = "[Register (PyStr ''d1'') (PyStr ''key'') 1, Approve ''d1'' ''root'' 2]"
  obtain bs reg' where run: "reg_run (toy_prims []) default_config ?ops empty_registry = (bs, reg')" by fastforce
  have app: "approved_key (reg_store reg') ''d1'' (sha256_hex ''key'')"
    using run by (auto simp: register_device_def key_thumbprint_def as_str_def toy_prims_def empty_registry_def run_memory
        approve_device_def update_device_def new_record_def default_config_def approved_key_def device_of_def Let_def
        dict_simps)
  have nap: "\<not> approved_key (reg_store empty_registry) ''d1'' (sha256_hex ''key'')"
    by (simp add: approved_key_def device_of_def empty_registry_def run_memory dict_simps)
  have req: "require_device_approval default_config" by (simp add: default_config_def)
  show ?thesis using approval_needs_administrator [OF req run app nap] run app by blast
qed

text \<open>
  C14: An attestation that succeeds proves possession now: the device answered a challenge of
  its own that had not expired, it is approved, the signature verifies under its
  registered key over exactly that nonce, and the challenge is spent.
\<close>

theorem attestation_is_proof_of_possession:
  assumes "verify_and_consume P d sig now reg = (Inr True, reg')"
  shows "\<exists>k nonce expires e pem key bytes. d = PyStr k \<and> map_of (challenges reg) k = Some (nonce, expires) \<and> now \<le> expires \<and>
    device_of (reg_store reg) k = Some e \<and> dget e ''status'' = STATUS_APPROVED \<and> dget e ''public_key_pem'' = PyStr pem \<and>
    load_pem P pem = Some key \<and> key_kind key \<noteq> OtherKey \<and> b64_bytes sig = Some bytes \<and> sig_valid P key bytes nonce \<and>
    map_of (challenges reg') k = None"
proof -
  from assms obtain k where k: "d = PyStr k" "key_of d = Inr k"
    by (cases "key_of d") (auto simp: verify_and_consume_def key_of_Inr)
  with assms obtain nonce expires where c: "map_of (challenges reg) k = Some (nonce, expires)" "now \<le> expires"
    by (auto simp: verify_and_consume_def split: option.splits if_splits prod.splits)
  with assms k obtain r e where r: "store_get (reg_store reg) NAMESPACE k PyNone = r" "r = PyDict e"
      "dget e ''status'' = STATUS_APPROVED" "check_attestation_sig P e nonce sig = Inr True"
    by (auto simp: verify_and_consume_def get_device_def as_dict_Inr ebind_eq_Inr split: if_splits)
  from r(4) obtain bytes pem where s: "b64_bytes sig = Some bytes" "dget e ''public_key_pem'' = pem"
      "verify_signature P pem bytes nonce = Inr True"
    by (auto simp: check_attestation_sig_def ebind_eq_Inr dreq_eq_Inr dget_def split: option.splits)
  have "e \<noteq> []" using r(3) by (auto simp: dget_def STATUS_APPROVED_def)
  then have "device_of (reg_store reg) k = Some e" using r(1,2) by (simp add: device_of_def)
  moreover from s(3) obtain pem' key where "pem = PyStr pem'" "load_pem P pem' = Some key" "key_kind key \<noteq> OtherKey"
      "sig_valid P key bytes nonce"
    by (auto simp: verify_signature_def ebind_eq_Inr as_str_Inr split: option.splits)
  moreover have "map_of (challenges reg') k = None"
    using assms k by (auto simp: verify_and_consume_def dict_simps)
  ultimately show ?thesis using k(1) c r(3) s(1,2) by blast
qed

definition attested_registry :: registry where
  "attested_registry = snd (reg_run (toy_prims []) default_config
     [Register (PyStr ''d1'') (PyStr ''key'') 1, Approve ''d1'' ''root'' 2, IssueChallenge (PyStr ''d1'') ''nonce'' 3]
     empty_registry)"

theorem attestation_is_proof_of_possession_witness:
  "\<exists>reg'. verify_and_consume (toy_prims []) (PyStr ''d1'') (PyStr (b64encode ''keynonce'')) 5 attested_registry = (Inr True, reg') \<and>
     map_of (challenges reg') ''d1'' = None"
proof -
  obtain r reg' where run: "verify_and_consume (toy_prims []) (PyStr ''d1'') (PyStr (b64encode ''keynonce'')) 5 attested_registry = (r, reg')"
    by fastforce
  have "r = Inr True"
    using run by (auto simp: attested_registry_def register_device_def key_thumbprint_def as_str_def toy_prims_def
        empty_registry_def run_memory approve_device_def update_device_def new_record_def default_config_def
        issue_challenge_def verify_and_consume_def get_device_def check_attestation_sig_def b64_bytes_def
        b64decode_b64encode verify_signature_def as_dict_def Let_def dict_simps CHALLENGE_TTL_SECONDS_def
        simp del: b64encode.simps)
  with run show ?thesis
    using attestation_is_proof_of_possession [of "toy_prims []" "PyStr ''d1''" "PyStr (b64encode ''keynonce'')" 5 attested_registry reg']
    by auto
qed

fun is_issue :: "string \<Rightarrow> reg_op \<Rightarrow> bool" where
  "is_issue k (IssueChallenge d nonce now) = (d = PyStr k)"
| "is_issue k _ = False"

fun is_attest :: "string \<Rightarrow> reg_op \<Rightarrow> bool" where
  "is_attest k (Attest d sig now) = (d = PyStr k)"
| "is_attest k _ = False"

definition outstanding :: "string \<Rightarrow> registry \<Rightarrow> nat" where
  "outstanding k reg = (if map_of (challenges reg) k = None then 0 else 1)"

lemma reg_step_budget:
  assumes "reg_step P cfg x reg = (b, reg1)"
  shows "(if b \<and> is_attest k x then 1 else 0) + outstanding k reg1 \<le> (if is_issue k x then 1 else 0) + outstanding k reg"
proof (cases x)
  case (IssueChallenge d nonce now)
  with assms show ?thesis
    by (cases "key_of d") (auto simp: issue_challenge_def outstanding_def key_of_Inr dict_simps)
next
  case (Attest d sig now)
  show ?thesis
  proof (cases "key_of d")
    case (Inl e)
    with Attest assms show ?thesis by (auto simp: verify_and_consume_def)
  next
    case (Inr j)
    with Attest assms show ?thesis
      by (cases "k = j") (auto simp: verify_and_consume_def outstanding_def key_of_Inr dict_simps split: option.splits)
  qed
qed (use assms in \<open>auto simp: outstanding_def\<close>)

text \<open>
  C15: A challenge is good for one login: over any history and from any state, the successful
  attestations of a device are at most the challenges issued to it (and the one that may have been
  outstanding at the start).
\<close>

theorem challenge_is_single_use:
  "length (filter (\<lambda>(x, b). b \<and> is_attest k x) (zip ops (fst (reg_run P cfg ops reg)))) \<le>
     length (filter (is_issue k) ops) + outstanding k reg"
proof (induction ops arbitrary: reg)
  case Nil
  then show ?case by simp
next
  case (Cons x xs)
  obtain b reg1 where x: "reg_step P cfg x reg = (b, reg1)" by fastforce
  then have "fst (reg_run P cfg (x # xs) reg) = b # fst (reg_run P cfg xs reg1)" by (simp split: prod.splits)
  then show ?case
    using Cons.IH [of reg1] reg_step_budget [OF x, of k] by (auto split: if_splits)
qed

end
