(* ===== verification/DeviceAttestation.thy ===== *)
theory DeviceAttestation
  imports KeyFiles DeviceRegistry
begin

text \<open>
  \<open>agent/device_attestation.py\<close>: the device key of an endpoint. On Windows a key in the TPM is tried first, by scripts given to
  PowerShell; everywhere else, and when that fails, the key is a PEM file. The state is the files of the endpoint (and how many
  keys it has generated) and the rest of the machine, of any type, on which PowerShell acts. The record \<open>attest_prims\<close> holds what is
  not under \<open>src/\<close>: PowerShell (\<open>None\<close> when starting it raises or times out, else the exit code and the output) and the
  functions of \<open>cryptography\<close>. Messages that are only printed have no counterpart.
\<close>

record 'w machine =
  home :: keystore
  world :: 'w

record 'w attest_prims =
  windows :: bool
  has_powershell :: bool
  node_name :: string
  powershell :: "string \<Rightarrow> 'w \<Rightarrow> (int \<times> string) option \<times> 'w"
  new_key_pem :: "nat \<Rightarrow> string"
  load_private :: "string \<Rightarrow> string option"
  public_pem :: "string \<Rightarrow> string"
  cert_public_pem :: "string \<Rightarrow> string option"
  rsa_sign :: "string \<Rightarrow> string \<Rightarrow> string"

section \<open>The identifier of the device\<close>

definition DEVICE_ID_FILE :: string where "DEVICE_ID_FILE = ''certs/device_id.txt''"
definition FALLBACK_KEY_DIR :: string where "FALLBACK_KEY_DIR = ''certs/device_keys''"

text \<open>\<open>suffix\<close> is the first eight digits of the fresh UUID.\<close>

definition get_local_device_id :: "'w attest_prims \<Rightarrow> string \<Rightarrow> 'w machine \<Rightarrow> string \<times> 'w machine" where
  "get_local_device_id A suffix m =
     (let existing = (case kfiles (home m) DEVICE_ID_FILE of None \<Rightarrow> [] | Some c \<Rightarrow> strip c) in
      if existing \<noteq> [] then (existing, m)
      else let device_id = (if node_name A = [] then ''device'' else node_name A) @ ''-'' @ suffix in
        (device_id, m\<lparr>home := write_file DEVICE_ID_FILE device_id (home m)\<rparr>))"

definition cert_subject :: "string \<Rightarrow> string" where
  "cert_subject device_id = ''CN=PyZTNA-'' @ file_safe device_id"

section \<open>The key in the TPM\<close>

text \<open>The scripts, line by line.\<close>

definition newline :: string where "newline = [CHR 0x0A]"

definition cert_store :: string where
  "cert_store = ''Cert:'' @ [CHR 0x5C] @ ''CurrentUser'' @ [CHR 0x5C] @ ''My''"

definition script_head :: "string \<Rightarrow> string list" where
  \<open>script_head subject =
     [[],
      ''$ErrorActionPreference = "Stop"'',
      ''try {'',
      ''    $subject = "'' @ subject @ ''"'',
      ''    $cert = Get-ChildItem '' @ cert_store @ '' | Where-Object { $_.Subject -eq $subject } | Select-Object -First 1'']\<close>

definition script_tail :: "string list" where
  \<open>script_tail =
     [''} catch {'',
      ''    Write-Output "ERROR:$($_.Exception.Message)"'',
      ''    exit 1'',
      ''}'',
      []]\<close>

definition export_script :: "string \<Rightarrow> string" where
  \<open>export_script subject = join_with newline (script_head subject @
     [''    if (-not $cert) {'',
      ''        $cert = New-SelfSignedCertificate -Subject $subject -CertStoreLocation '' @ cert_store @
         '' -Provider "Microsoft Platform Crypto Provider" -KeyAlgorithm RSA -KeyLength 2048 -KeyUsage DigitalSignature -NotAfter (Get-Date).AddYears(10)'',
      ''    }'',
      ''    Write-Output "CERT_B64:$([Convert]::ToBase64String($cert.RawData))"''] @ script_tail)\<close>

definition sign_script :: "string \<Rightarrow> string \<Rightarrow> string" where
  \<open>sign_script subject nonce_b64 = join_with newline (script_head subject @
     [''    if (-not $cert) { throw "device key not enrolled" }'',
      ''    $rsa = [System.Security.Cryptography.X509Certificates.RSACertificateExtensions]::GetRSAPrivateKey($cert)'',
      ''    $data = [Convert]::FromBase64String("'' @ nonce_b64 @ ''")'',
      ''    $sig = $rsa.SignData($data, [System.Security.Cryptography.HashAlgorithmName]::SHA256, [System.Security.Cryptography.RSASignaturePadding]::Pkcs1)'',
      ''    Write-Output "SIG_B64:$([Convert]::ToBase64String($sig))"''] @ script_tail)\<close>

text \<open>\<open>out.strip().splitlines()[-1]\<close>, empty for blank output.\<close>

definition line_end :: "char \<Rightarrow> bool" where
  "line_end c \<longleftrightarrow> c \<in> {CHR 0x0A, CHR 0x0B, CHR 0x0C, CHR 0x0D, CHR 0x1C, CHR 0x1D, CHR 0x1E}"

definition last_line :: "string \<Rightarrow> string" where
  "last_line out = rev (takeWhile (\<lambda>c. \<not> line_end c) (rev (strip out)))"

text \<open>What the last line of a run that succeeded carries behind its tag.\<close>

definition tagged_output :: "string \<Rightarrow> (int \<times> string) option \<Rightarrow> string option" where
  "tagged_output tag r =
     (case r of
        None \<Rightarrow> None
      | Some (code, out) \<Rightarrow>
          if code \<noteq> 0 \<or> \<not> startswith (last_line out) tag then None else Some (drop (length tag) (last_line out)))"

definition windows_export :: "'w attest_prims \<Rightarrow> string \<Rightarrow> 'w machine \<Rightarrow> string option \<times> 'w machine" where
  "windows_export A device_id m =
     (case powershell A (export_script (cert_subject device_id)) (world m) of
        (r, w) \<Rightarrow> (Option.bind (Option.bind (tagged_output ''CERT_B64:'' r) b64decode) (cert_public_pem A), m\<lparr>world := w\<rparr>))"

definition windows_sign :: "'w attest_prims \<Rightarrow> string \<Rightarrow> string \<Rightarrow> ('w machine, string option) op" where
  "windows_sign A device_id nonce m =
     (case powershell A (sign_script (cert_subject device_id) (b64encode nonce)) (world m) of
        (r, w) \<Rightarrow>
          ((case tagged_output ''SIG_B64:'' r of
              None \<Rightarrow> Inr None
            | Some s \<Rightarrow> (case b64decode s of None \<Rightarrow> Inl ValueError | Some sig \<Rightarrow> Inr (Some sig))), m\<lparr>world := w\<rparr>))"

section \<open>The key in a file\<close>

definition fallback_key_path :: "string \<Rightarrow> string" where
  "fallback_key_path device_id = FALLBACK_KEY_DIR @ ''/'' @ file_safe device_id @ ''_private.pem''"

definition fallback_ensure_key :: "'w attest_prims \<Rightarrow> string \<Rightarrow> keystore \<Rightarrow> string \<times> keystore" where
  "fallback_ensure_key A device_id s =
     (let p = fallback_key_path device_id in
      if on_disk s p then (p, s)
      else (p, write_file p (new_key_pem A (generated s)) (s\<lparr>generated := generated s + 1\<rparr>)))"

definition fallback_load_key :: "'w attest_prims \<Rightarrow> string \<Rightarrow> (keystore, string) op" where
  "fallback_load_key A device_id s =
     (case fallback_ensure_key A device_id s of
        (p, s') \<Rightarrow> (ebind (read_file p s') (\<lambda>pem.
                     case load_private A pem of None \<Rightarrow> Inl ValueError | Some key \<Rightarrow> Inr key), s'))"

definition fallback_public_key_pem :: "'w attest_prims \<Rightarrow> string \<Rightarrow> (keystore, string) op" where
  "fallback_public_key_pem A device_id = obind (fallback_load_key A device_id) (\<lambda>key. oret (public_pem A key))"

definition fallback_sign :: "'w attest_prims \<Rightarrow> string \<Rightarrow> string \<Rightarrow> (keystore, string) op" where
  "fallback_sign A device_id nonce = obind (fallback_load_key A device_id) (\<lambda>key. oret (rsa_sign A key nonce))"

section \<open>The interface of the module\<close>

record enrollment =
  enr_public_key_pem :: string
  hardware_backed :: bool
  enr_mode :: string

definition with_home :: "(keystore, 'a) op \<Rightarrow> ('w machine, 'a) op" where
  "with_home = on_part home (\<lambda>s m. m\<lparr>home := s\<rparr>)"

definition software_enrollment :: "'w attest_prims \<Rightarrow> string \<Rightarrow> ('w machine, enrollment) op" where
  "software_enrollment A device_id =
     obind (with_home (fallback_public_key_pem A device_id)) (\<lambda>pem.
       oret \<lparr>enr_public_key_pem = pem, hardware_backed = False, enr_mode = ''software_fallback''\<rparr>)"

definition ensure_enrolled :: "'w attest_prims \<Rightarrow> string \<Rightarrow> ('w machine, enrollment) op" where
  "ensure_enrolled A device_id m =
     (if windows A \<and> has_powershell A then
        (case windows_export A device_id m of
           (Some pem, m') \<Rightarrow>
             if pem \<noteq> [] then (Inr \<lparr>enr_public_key_pem = pem, hardware_backed = True, enr_mode = ''tpm''\<rparr>, m')
             else software_enrollment A device_id m'
         | (None, m') \<Rightarrow> software_enrollment A device_id m')
      else software_enrollment A device_id m)"

definition sign_bytes :: "'w attest_prims \<Rightarrow> string \<Rightarrow> string \<Rightarrow> bool \<Rightarrow> ('w machine, string) op" where
  "sign_bytes A device_id message hardware =
     (if hardware then
        obind (windows_sign A device_id message) (\<lambda>r. olift (case r of Some sig \<Rightarrow> Inr sig | None \<Rightarrow> Inl RuntimeError))
      else with_home (fallback_sign A device_id message))"

definition sign_nonce :: "'w attest_prims \<Rightarrow> string \<Rightarrow> string \<Rightarrow> bool \<Rightarrow> ('w machine, string) op" where
  "sign_nonce A device_id nonce_b64 hardware =
     obind (olift (case b64decode nonce_b64 of None \<Rightarrow> Inl ValueError | Some nonce \<Rightarrow> Inr nonce)) (\<lambda>nonce.
     obind (sign_bytes A device_id nonce hardware) (\<lambda>sig. oret (b64encode sig)))"

section \<open>The key of an enrolled device\<close>

text \<open>A key that was loaded once is loaded again, from the same file.\<close>

lemma fallback_load_key_again:
  assumes "fallback_load_key A device_id s = (r, s1)"
  shows "fallback_load_key A device_id s1 = (r, s1)"
  using assms by (auto simp: fallback_load_key_def fallback_ensure_key_def Let_def read_file_def on_disk_def split: if_splits)

lemma software_enrollment_key:
  assumes "software_enrollment A device_id m = (Inr e, m1)"
  obtains key where "enr_public_key_pem e = public_pem A key" "\<not> hardware_backed e" "world m1 = world m"
    "software_enrollment A device_id m1 = (Inr e, m1)" "\<And>msg. sign_bytes A device_id msg False m1 = (Inr (rsa_sign A key msg), m1)"
proof -
  obtain key s1 where load: "fallback_load_key A device_id (home m) = (Inr key, s1)"
    and e: "e = \<lparr>enr_public_key_pem = public_pem A key, hardware_backed = False, enr_mode = ''software_fallback''\<rparr>" "m1 = m\<lparr>home := s1\<rparr>"
    using assms by (auto simp: software_enrollment_def with_home_def on_part_def fallback_public_key_pem_def obind_eq_Inr oret_eq
        split: prod.splits)
  from fallback_load_key_again [OF load] have again: "fallback_load_key A device_id (home m1) = (Inr key, s1)" by (simp add: e(2))
  have same: "m1\<lparr>home := s1\<rparr> = m1" by (simp add: e(2))
  show thesis
  proof
    show "software_enrollment A device_id m1 = (Inr e, m1)"
      using again same by (simp add: software_enrollment_def with_home_def on_part_def fallback_public_key_pem_def obind_def oret_def e(1))
    show "sign_bytes A device_id msg False m1 = (Inr (rsa_sign A key msg), m1)" for msg
      using again same by (simp add: sign_bytes_def with_home_def on_part_def fallback_sign_def obind_def oret_def)
  qed (simp_all add: e)
qed

text \<open>
  What is relied on of the libraries and of the TPM, where the device has one: a signature made with a key verifies under the
  public key that was exported for it.
\<close>

definition verifies :: "prims \<Rightarrow> string \<Rightarrow> string \<Rightarrow> string \<Rightarrow> bool" where
  "verifies P pem sig msg \<longleftrightarrow> (\<exists>k. load_pem P pem = Some k \<and> key_kind k \<noteq> OtherKey \<and> sig_valid P k sig msg)"

definition tpm_signs :: "prims \<Rightarrow> 'w attest_prims \<Rightarrow> string \<Rightarrow> string \<Rightarrow> 'w \<Rightarrow> bool" where
  "tpm_signs P A device_id pem w \<longleftrightarrow> (\<forall>msg. \<exists>out sig. fst (powershell A (sign_script (cert_subject device_id) (b64encode msg)) w) = Some (0, out) \<and>
     last_line out = ''SIG_B64:'' @ b64encode sig \<and> verifies P pem sig msg)"

lemma enrolled_key_signs:
  assumes "ensure_enrolled A device_id m = (Inr e, m1)" and "\<And>key msg. verifies P (public_pem A key) (rsa_sign A key msg) msg"
    and "hardware_backed e \<Longrightarrow> tpm_signs P A device_id (enr_public_key_pem e) (world m1)"
  shows "\<exists>sig m2. sign_bytes A device_id msg (hardware_backed e) m1 = (Inr sig, m2) \<and> verifies P (enr_public_key_pem e) sig msg"
proof (cases "hardware_backed e")
  case True
  from assms(3) [OF True, unfolded tpm_signs_def, rule_format, of msg] obtain out sig where
    t: "fst (powershell A (sign_script (cert_subject device_id) (b64encode msg)) (world m1)) = Some (0, out)"
    "last_line out = ''SIG_B64:'' @ b64encode sig" "verifies P (enr_public_key_pem e) sig msg" by blast
  then have "tagged_output ''SIG_B64:'' (Some (0, out)) = Some (b64encode sig)" by (simp add: tagged_output_def startswith_iff)
  with t True show ?thesis
    by (cases "powershell A (sign_script (cert_subject device_id) (b64encode msg)) (world m1)")
      (auto simp: sign_bytes_def windows_sign_def obind_def olift_def b64decode_b64encode)
next
  case False
  then obtain m' where "software_enrollment A device_id m' = (Inr e, m1)"
    using assms(1) by (auto simp: ensure_enrolled_def split: if_splits prod.splits option.splits)
  then obtain key where "enr_public_key_pem e = public_pem A key" "\<And>msg. sign_bytes A device_id msg False m1 = (Inr (rsa_sign A key msg), m1)"
    by (rule software_enrollment_key) blast
  with assms(2) False show ?thesis by simp
qed

section \<open>What reaches PowerShell\<close>

text \<open>The characters that stand for themselves between the double quotes of a PowerShell string.\<close>

definition inert :: "char \<Rightarrow> bool" where
  "inert c \<longleftrightarrow> is_alnum c \<or> c \<in> {CHR ''-'', CHR ''_'', CHR ''='', CHR ''+'', CHR ''/''}"

lemma cert_subject_inert: "filter (\<lambda>c. \<not> inert c) (cert_subject device_id) = []"
  by (auto simp: cert_subject_def file_safe_def inert_def is_alnum_def is_upper_def is_lower_def is_digit_def filter_empty_conv)

lemma b64_char_inert: "i < 64 \<Longrightarrow> inert (b64_char i)"
proof -
  assume "i < 64"
  then consider "i < 26" | "26 \<le> i" "i < 52" | "52 \<le> i" "i < 62" | "i = 62" | "i = 63" by linarith
  then show ?thesis
    by cases (auto simp: b64_char_def inert_def is_alnum_def is_upper_def is_lower_def is_digit_def Let_def)
qed

lemma b64encode_inert: "filter (\<lambda>c. \<not> inert c) (b64encode s) = []"
proof -
  have "inert pad_char" by (simp add: inert_def)
  then show ?thesis
    by (induction s rule: b64encode.induct) (simp_all add: Let_def b64_char_inert b64_bounds)
qed

lemma filter_join_with: "filter p (join_with sep ws) = join_with (filter p sep) (map (filter p) ws)"
  by (induction sep ws rule: join_with.induct) simp_all

lemma shape_head:
  "filter p s = filter p s' \<Longrightarrow> map (filter p) [a, b, c, d @ s @ e, f] = map (filter p) [a, b, c, d @ s' @ e, f]"
  by simp

lemma shape_body:
  "filter p s = filter p s' \<Longrightarrow> map (filter p) ([a, b, c @ s @ d, e, f] @ g) = map (filter p) ([a, b, c @ s' @ d, e, f] @ g)"
  by simp

lemma shape_join:
  "map (filter p) h = map (filter p) h' \<Longrightarrow> map (filter p) b = map (filter p) b' \<Longrightarrow>
     filter p (join_with sep (h @ b)) = filter p (join_with sep (h' @ b'))"
  by (simp only: filter_join_with map_append)

lemma script_head_shape:
  "filter p s = filter p s' \<Longrightarrow> map (filter p) (script_head s) = map (filter p) (script_head s')"
  unfolding script_head_def by (rule shape_head)

lemma export_script_shape:
  "filter p s = filter p s' \<Longrightarrow> filter p (export_script s) = filter p (export_script s')"
  unfolding export_script_def by (rule shape_join [OF script_head_shape refl])

lemma sign_script_shape:
  "filter p s = filter p s' \<Longrightarrow> filter p b = filter p b' \<Longrightarrow> filter p (sign_script s b) = filter p (sign_script s' b')"
  unfolding sign_script_def by (rule shape_join [OF script_head_shape shape_body])

section \<open>Properties\<close>



text \<open>
  Without a TPM the identity of a device is stable: whatever \<open>ensure_enrolled\<close> returned, it returns again for every identifier with the
  same file, without generating a key or touching a file, and every signature made later is by the key it reported.
\<close>

theorem software_key_is_stable:
  assumes "ensure_enrolled A device_id m = (Inr e, m1)" and "\<not> (windows A \<and> has_powershell A)"
    and "file_safe other = file_safe device_id"
  shows "ensure_enrolled A other m1 = (Inr e, m1) \<and> \<not> hardware_backed e \<and>
    (\<exists>key. enr_public_key_pem e = public_pem A key \<and> (\<forall>msg. sign_bytes A other msg False m1 = (Inr (rsa_sign A key msg), m1)))"
proof -
  have same: "fallback_load_key A other = fallback_load_key A device_id"
    using assms(3) by (simp add: fun_eq_iff fallback_load_key_def fallback_ensure_key_def fallback_key_path_def)
  have soft: "ensure_enrolled A i = software_enrollment A i" for i
    using assms(2) by (auto simp: fun_eq_iff ensure_enrolled_def)
  have "software_enrollment A other = software_enrollment A device_id" "sign_bytes A other msg False = sign_bytes A device_id msg False" for msg
    by (simp_all add: software_enrollment_def fallback_public_key_pem_def sign_bytes_def fallback_sign_def same)
  with software_enrollment_key [OF assms(1) [unfolded soft]] show ?thesis unfolding soft by metis
qed

text \<open>A device keeps its identifier: the first run writes it, every later run reads it back.\<close>

theorem device_id_is_stable:
  assumes "get_local_device_id A suffix m = (d, m1)" and "strip (node_name A) = node_name A" and "suffix \<noteq> []" and "strip suffix = suffix"
  shows "get_local_device_id A suffix' m1 = (d, m1)"
proof (cases "kfiles (home m) DEVICE_ID_FILE = None \<or> strip (the (kfiles (home m) DEVICE_ID_FILE)) = []")
  case False
  with assms(1) show ?thesis by (auto simp: get_local_device_id_def Let_def)
next
  case True
  let ?name = "if node_name A = [] then ''device'' else node_name A"
  have d: "d = ?name @ ''-'' @ suffix" "m1 = m\<lparr>home := write_file DEVICE_ID_FILE d (home m)\<rparr>"
    using assms(1) True by (auto simp: get_local_device_id_def Let_def split: option.splits)
  have name: "\<not> is_space (hd ?name)" "?name \<noteq> []" using strip_ends [OF assms(2)] by (auto simp: is_space_def)
  have suf: "\<not> is_space (last suffix)" using strip_ends [OF assms(4,3)] by simp
  have "strip d = d"
    using name suf assms(3) by (intro strip_id) (simp_all only: d(1) hd_append last_append append_is_Nil_conv if_False list.distinct simp_thms)
  then show ?thesis using d name(2) by (simp add: get_local_device_id_def Let_def)
qed

section \<open>Witnesses\<close>

text \<open>A machine without a TPM, new.\<close>

definition soft_device :: "unit attest_prims" where
  "soft_device = \<lparr>windows = False, has_powershell = False, node_name = ''lab'', powershell = (\<lambda>_ w. (None, w)), new_key_pem = (\<lambda>_. ''pem''),
     load_private = Some, public_pem = (\<lambda>k. ''k'' @ k), cert_public_pem = (\<lambda>_. None), rsa_sign = (\<lambda>k m. ''k'' @ k @ m)\<rparr>"

definition new_machine :: "unit machine" where
  "new_machine = \<lparr>home = \<lparr>kfiles = Map.empty, generated = 0\<rparr>, world = ()\<rparr>"

lemma soft_enrolled:
  obtains m1 where "ensure_enrolled soft_device ''d1'' new_machine =
    (Inr \<lparr>enr_public_key_pem = ''kpem'', hardware_backed = False, enr_mode = ''software_fallback''\<rparr>, m1)"
  by (simp add: ensure_enrolled_def soft_device_def new_machine_def software_enrollment_def with_home_def on_part_def
      fallback_public_key_pem_def fallback_load_key_def fallback_ensure_key_def obind_def oret_def read_file_def on_disk_def Let_def)


theorem software_key_is_stable_witness:
  "\<exists>m1 e. ensure_enrolled soft_device ''d1'' new_machine = (Inr e, m1) \<and> ensure_enrolled soft_device ''d.1'' m1 = (Inr e, m1)"
proof -
  obtain m1 where e: "ensure_enrolled soft_device ''d1'' new_machine =
      (Inr \<lparr>enr_public_key_pem = ''kpem'', hardware_backed = False, enr_mode = ''software_fallback''\<rparr>, m1)" by (rule soft_enrolled)
  have "file_safe ''d.1'' = file_safe ''d1''" by code_simp
  from software_key_is_stable [OF e _ this] e show ?thesis by (auto simp: soft_device_def)
qed

theorem device_id_is_stable_witness:
  "\<exists>m1. get_local_device_id soft_device ''0a1b2c3d'' new_machine = (''lab-0a1b2c3d'', m1) \<and>
     get_local_device_id soft_device ''ffffffff'' m1 = (''lab-0a1b2c3d'', m1)"
proof -
  obtain m1 where id: "get_local_device_id soft_device ''0a1b2c3d'' new_machine = (''lab-0a1b2c3d'', m1)"
    by (simp add: get_local_device_id_def soft_device_def new_machine_def Let_def)
  have "strip (node_name soft_device) = node_name soft_device" "strip ''0a1b2c3d'' = ''0a1b2c3d''"
    by (intro strip_id, simp_all add: soft_device_def is_space_def)+
  from device_id_is_stable [OF id this(1) _ this(2)] id show ?thesis by blast
qed

end
