(* ===== verification/DevicePosture.thy ===== *)
theory DevicePosture
  imports PyStrings PyValues
begin

text \<open>
  \<open>agent/device_posture.py\<close>: the trust score that the agent reports. The endpoint is a record of what the
  checks observe: the platform, the output of each command (\<open>None\<close> when \<open>_run\<close> returns \<open>None\<close>), the
  programs that \<open>shutil.which\<close> finds, and the names of the processes (\<open>None\<close> without \<open>psutil\<close>; the list up to
  the first process that raises).
\<close>

record endpoint =
  system :: string
  release :: string
  run_cmd :: "string list \<Rightarrow> string option"
  which :: "string \<Rightarrow> bool"
  processes :: "string list option"

definition KNOWN_AV_PROCESS_NAMES :: "string list" where
  "KNOWN_AV_PROCESS_NAMES = [''msmpeng.exe'', ''windefend'', ''avp.exe'', ''avastsvc.exe'', ''avguard.exe'', ''mcshield.exe'', ''ekrn.exe'',
     ''xprotectservice'']"

text \<open>\<open>bool(result and p(result.stdout))\<close>.\<close>

definition reports :: "endpoint \<Rightarrow> string list \<Rightarrow> (string \<Rightarrow> bool) \<Rightarrow> bool" where
  "reports e cmd p = (case run_cmd e cmd of None \<Rightarrow> False | Some out \<Rightarrow> p out)"

definition check_os_supported :: "endpoint \<Rightarrow> bool" where
  "check_os_supported e =
     (if system e = ''Windows'' then
        release e \<in> {''10'', ''11''} \<or>
        (release e \<noteq> [] \<and> list_all is_digit (release e) \<and> (case py_int (release e) of Some n \<Rightarrow> 10 \<le> n | None \<Rightarrow> False))
      else system e \<in> {''Linux'', ''Darwin''})"

definition check_antivirus_running :: "endpoint \<Rightarrow> bool" where
  "check_antivirus_running e =
     (if system e = ''Windows'' \<and> reports e [''sc'', ''query'', ''windefend''] (\<lambda>out. contains ''RUNNING'' (upper out)) then True
      else if (case processes e of None \<Rightarrow> False | Some ps \<Rightarrow> list_ex (\<lambda>p. lower p \<in> set KNOWN_AV_PROCESS_NAMES) ps) then True
      else system e = ''Darwin'')"

definition check_disk_encryption :: "endpoint \<Rightarrow> bool" where
  "check_disk_encryption e =
     (if system e = ''Windows'' then reports e [''manage-bde'', ''-status''] (contains ''Protection On'')
      else if system e = ''Darwin'' then reports e [''fdesetup'', ''status''] (contains ''FileVault is On'')
      else if system e = ''Linux'' then
        (if which e ''lsblk'' \<and> reports e [''lsblk'', ''-o'', ''TYPE''] (\<lambda>out. contains ''crypt'' (lower out)) then True
         else which e ''cryptsetup'' \<and> reports e [''cryptsetup'', ''status'', ''root''] (\<lambda>out. contains ''is active'' (lower out)))
      else False)"

text \<open>The first of the two tests on the output of \<open>netsh\<close> asks for a line that the second finds as well.\<close>

definition check_firewall_enabled :: "endpoint \<Rightarrow> bool" where
  "check_firewall_enabled e =
     (if system e = ''Windows'' then
        reports e [''netsh'', ''advfirewall'', ''show'', ''allprofiles'', ''state'']
          (\<lambda>out. contains (''STATE'' @ replicate 33 (CHR '' '') @ ''ON'') (upper out) \<or> contains ''ON'' (upper out))
      else if system e = ''Darwin'' then
        reports e [''/usr/libexec/ApplicationFirewall/socketfilterfw'', ''--getglobalstate''] (\<lambda>out. contains ''enabled'' (lower out))
      else if which e ''ufw'' then reports e [''ufw'', ''status''] (\<lambda>out. contains ''active'' (lower out))
      else if which e ''firewall-cmd'' then reports e [''firewall-cmd'', ''--state''] (\<lambda>out. contains ''running'' (lower out))
      else False)"

definition compute_trust_score :: "endpoint \<Rightarrow> bool \<Rightarrow> int \<times> (string \<times> bool) list" where
  "compute_trust_score e simulate_compromised =
     (if simulate_compromised then
        (20, [(''os_supported'', False), (''antivirus_running'', False), (''disk_encryption'', False), (''firewall_enabled'', False)])
      else
        let os = check_os_supported e; av = check_antivirus_running e; enc = check_disk_encryption e; fw = check_firewall_enabled e;
            score = 40 + (if os then 20 else 0) + (if av then 20 else 0) + (if enc then 10 else 0) + (if fw then 10 else 0)
        in (max 0 (min 100 score),
            [(''os_supported'', os), (''antivirus_running'', av), (''disk_encryption'', enc), (''firewall_enabled'', fw)]))"

section \<open>The score\<close>

lemma trust_score_real:
  "fst (compute_trust_score e False) = 40 + (if check_os_supported e then 20 else 0) + (if check_antivirus_running e then 20 else 0) +
     (if check_disk_encryption e then 10 else 0) + (if check_firewall_enabled e then 10 else 0)"
  "snd (compute_trust_score e False) = [(''os_supported'', check_os_supported e), (''antivirus_running'', check_antivirus_running e),
     (''disk_encryption'', check_disk_encryption e), (''firewall_enabled'', check_firewall_enabled e)]"
  by (simp_all add: compute_trust_score_def Let_def)

text \<open>An endpoint that passes at least the checks of another has at least its score.\<close>

lemma trust_score_mono:
  assumes "\<And>check. (check, True) \<in> set (snd (compute_trust_score e False)) \<Longrightarrow> (check, True) \<in> set (snd (compute_trust_score e' False))"
  shows "fst (compute_trust_score e False) \<le> fst (compute_trust_score e' False)"
proof -
  have "check_os_supported e \<Longrightarrow> check_os_supported e'" using assms [of "''os_supported''"] by (simp add: trust_score_real)
  moreover have "check_antivirus_running e \<Longrightarrow> check_antivirus_running e'"
    using assms [of "''antivirus_running''"] by (simp add: trust_score_real)
  moreover have "check_disk_encryption e \<Longrightarrow> check_disk_encryption e'" using assms [of "''disk_encryption''"] by (simp add: trust_score_real)
  moreover have "check_firewall_enabled e \<Longrightarrow> check_firewall_enabled e'" using assms [of "''firewall_enabled''"] by (simp add: trust_score_real)
  ultimately show ?thesis by (simp add: trust_score_real(1))
qed

section \<open>Properties\<close>

text \<open>
  The score is between 20 and 100, is 20 only for a simulated compromise and at least 40 for a real device, is a multiple of
  ten, and 100 exactly if every check passed.
\<close>

theorem trust_score_bounds:
  assumes "compute_trust_score e simulate = (score, checks)"
  shows "20 \<le> score \<and> score \<le> 100 \<and> score mod 10 = 0 \<and> (score < 40 \<longleftrightarrow> simulate) \<and> (score = 100 \<longleftrightarrow> (\<forall>(check, passed) \<in> set checks. passed))"
proof (cases simulate)
  case True
  with assms show ?thesis by (auto simp: compute_trust_score_def)
next
  case False
  with assms trust_score_real [of e] show ?thesis
    by (cases "check_os_supported e"; cases "check_antivirus_running e"; cases "check_disk_encryption e"; cases "check_firewall_enabled e")
      auto
qed

text \<open>
  A Linux device whose firewall is off gets the points of one that is on: \<open>ufw\<close> prints \<open>Status: inactive\<close>, which
  contains \<open>active\<close>. Whatever else the device shows, its score is the same as with the firewall on.
\<close>

theorem inactive_firewall_counts_as_active:
  assumes "system e = ''Linux''" and "which e ''ufw''" and "run_cmd e [''ufw'', ''status''] = Some (''Status: '' @ state)"
    and "state = ''inactive'' \<or> state = ''active''"
  shows "(''firewall_enabled'', True) \<in> set (snd (compute_trust_score e False)) \<and> 50 \<le> fst (compute_trust_score e False)"
proof -
  have "contains ''active'' (lower (''Status: '' @ state))" using assms(4) by (elim disjE) (simp, code_simp)+
  then have "check_firewall_enabled e" using assms(1-3) by (simp add: check_firewall_enabled_def reports_def)
  then show ?thesis by (simp add: compute_trust_score_def Let_def)
qed

section \<open>Witnesses\<close>

definition open_linux :: endpoint where
  "open_linux = \<lparr>system = ''Linux'', release = ''6.1'', run_cmd = (\<lambda>cmd. if cmd = [''ufw'', ''status''] then Some ''Status: inactive'' else None),
     which = (\<lambda>p. p = ''ufw''), processes = None\<rparr>"

theorem trust_score_bounds_witness: "\<exists>score checks. compute_trust_score open_linux False = (score, checks) \<and> score \<le> 100"
proof -
  obtain score checks where run: "compute_trust_score open_linux False = (score, checks)" by fastforce
  from trust_score_bounds [OF run] run show ?thesis by blast
qed

theorem inactive_firewall_counts_as_active_witness:
  "(''firewall_enabled'', True) \<in> set (snd (compute_trust_score open_linux False))"
  using inactive_firewall_counts_as_active [of open_linux "''inactive''"] by (simp add: open_linux_def)

end
