(* ===== verification/ProvisionCerts.thy ===== *)
theory ProvisionCerts
  imports KeyFiles
begin

text \<open>
  \<open>tools/provision_certs.py\<close> and \<open>common/tls_utils.py\<close>: the certificate bundles of a deployment on several hosts,
  and the TLS contexts of the services. A path under the output directory is the absolute path of that
  directory followed by the rest; the paths of the key files are relative to the project.
\<close>

section \<open>Command line\<close>

record prov_args =
  idp_host :: string
  gateway_host :: string
  docs_host :: string
  finance_host :: string
  extra_san :: "string list"
  out_dir :: string

text \<open>
  The options as pairs, in order: the last value of an option counts, \<open>--extra-san\<close> accumulates.
  \<open>None\<close> is the exit of \<open>argparse\<close> with status 2, when a required option is missing.
\<close>

definition opt_value :: "(string \<times> string) list \<Rightarrow> string \<Rightarrow> string option" where
  "opt_value opts k = map_of (rev opts) k"

definition parse_prov_args :: "(string \<times> string) list \<Rightarrow> prov_args option" where
  "parse_prov_args opts =
     (case (opt_value opts ''--idp-host'', opt_value opts ''--gateway-host'', opt_value opts ''--docs-host'', opt_value opts ''--finance-host'') of
        (Some i, Some g, Some d, Some f) \<Rightarrow>
          Some \<lparr>idp_host = i, gateway_host = g, docs_host = d, finance_host = f,
            extra_san = map snd (filter (\<lambda>(k, v). k = ''--extra-san'') opts),
            out_dir = (case opt_value opts ''--out'' of None \<Rightarrow> ''dist'' | Some v \<Rightarrow> v)\<rparr>
      | _ \<Rightarrow> None)"

section \<open>Bundles\<close>

definition basename :: "string \<Rightarrow> string" where
  "basename p = last (split_on (CHR ''/'') p)"

definition copy_file :: "string \<Rightarrow> string \<Rightarrow> (keystore, unit) op" where
  "copy_file src dst_dir s =
     (case read_file src s of
        Inl e \<Rightarrow> (Inl e, s)
      | Inr c \<Rightarrow> (Inr (), write_file (dst_dir @ ''/'' @ basename src) c s))"

fun copy_all :: "(string \<times> string) list \<Rightarrow> (keystore, unit) op" where
  "copy_all [] = oret ()"
| "copy_all ((src, dst) # ps) = obind (copy_file src dst) (\<lambda>_. copy_all ps)"

text \<open>What one bundle copies: the file and the directory, in the order of the code.\<close>

definition bundle_list ::
  "string \<Rightarrow> string \<Rightarrow> (string \<times> string) option \<Rightarrow> bool \<Rightarrow> bool \<Rightarrow> (string \<times> string) option \<Rightarrow> (string \<times> string) list" where
  "bundle_list out host leaf jwt_private jwt_public client =
     (let root = out @ ''/'' @ host; ca_dir = root @ ''/certs/ca''; svc_dir = root @ ''/certs/services'';
          jwt_dir = root @ ''/certs/jwt_keys'';
          pair = (\<lambda>p. case p of None \<Rightarrow> [] | Some (k, c) \<Rightarrow> [(k, svc_dir), (c, svc_dir)])
      in [(CA_CERT_PATH, ca_dir)] @ pair leaf @ pair client @
         (if jwt_private then [(JWT_PRIVATE_KEY_PATH, jwt_dir)] else []) @
         (if jwt_public then [(JWT_PUBLIC_KEY_PATH, jwt_dir)] else []))"

text \<open>\<open>env_sans\<close> is \<open>CERT_EXTRA_SANS\<close>, which \<open>issue_cert\<close> adds to every list of names.\<close>

definition prov_main :: "ca_prims \<Rightarrow> string list \<Rightarrow> int \<Rightarrow> prov_args \<Rightarrow> (keystore, unit) op" where
  "prov_main C env_sans t a s =
     (let s2 = ensure_jwt_keypair C (ensure_ca C t s);
          issue = (\<lambda>name is_client sans. issue_cert C name is_client (sans @ extra_san a @ env_sans) t)
      in
      obind (issue ''idp'' False [idp_host a]) (\<lambda>idp.
      obind (issue ''gateway'' False [gateway_host a]) (\<lambda>gw.
      obind (issue ''docs-app'' False [docs_host a]) (\<lambda>docs.
      obind (issue ''finance-app'' False [finance_host a]) (\<lambda>fin.
      obind (issue GATEWAY_CLIENT_CERT_CN True []) (\<lambda>client.
      copy_all
        (bundle_list (out_dir a) ''idp'' (Some idp) True True None @
         bundle_list (out_dir a) ''gateway'' (Some gw) False True (Some client) @
         bundle_list (out_dir a) ''docs-app'' (Some docs) False False None @
         bundle_list (out_dir a) ''finance-app'' (Some fin) False False None @
         bundle_list (out_dir a) ''agent'' None False False None)))))) s2)"

section \<open>TLS contexts\<close>

text \<open>The chain a context presents, the CA it verifies peers with, and whether a peer must present a certificate.\<close>

record tls_context =
  chain :: "(string \<times> string) option"
  trusted :: "string option"
  peer_required :: bool

definition ensure_service_cert :: "ca_prims \<Rightarrow> string list \<Rightarrow> int \<Rightarrow> string \<Rightarrow> string list \<Rightarrow> (keystore, string \<times> string) op" where
  "ensure_service_cert C env_sans t name sans = issue_cert C name False (sans @ env_sans) t"

definition tls_scheme :: string where
  "tls_scheme = ''https''"

definition wrap_server_socket ::
  "ca_prims \<Rightarrow> string list \<Rightarrow> int \<Rightarrow> string \<Rightarrow> bool \<Rightarrow> string list \<Rightarrow> (keystore, tls_context) op" where
  "wrap_server_socket C env_sans t name require_client_cert sans =
     obind (ensure_service_cert C env_sans t name sans) (\<lambda>kc s.
       if require_client_cert \<and> \<not> on_disk s CA_CERT_PATH then (Inl OSError, s)
       else (Inr \<lparr>chain = Some kc, trusted = (if require_client_cert then kfiles s CA_CERT_PATH else None),
               peer_required = require_client_cert\<rparr>, s))"

definition build_client_ssl_context :: "ca_prims \<Rightarrow> string list \<Rightarrow> int \<Rightarrow> string option \<Rightarrow> (keystore, tls_context) op" where
  "build_client_ssl_context C env_sans t client s =
     (case read_file CA_CERT_PATH s of
        Inl e \<Rightarrow> (Inl e, s)
      | Inr ca \<Rightarrow>
          (case client of
             None \<Rightarrow> (Inr \<lparr>chain = None, trusted = Some ca, peer_required = True\<rparr>, s)
           | Some name \<Rightarrow>
               obind (issue_cert C name True env_sans t) (\<lambda>kc. oret \<lparr>chain = Some kc, trusted = Some ca, peer_required = True\<rparr>) s))"

section \<open>What copying does\<close>

lemma copy_all_append: "copy_all (xs @ ys) = obind (copy_all xs) (\<lambda>_. copy_all ys)"
proof (induction xs rule: copy_all.induct)
  case (2 src dst ps)
  then show ?case by (auto simp: fun_eq_iff obind_def split: prod.splits sum.splits)
qed (simp add: obind_def oret_def fun_eq_iff)

definition target :: "string \<times> string \<Rightarrow> string" where
  "target p = snd p @ ''/'' @ basename (fst p)"

lemma copy_all_frame:
  "copy_all ps s = (r, s') \<Longrightarrow> q \<notin> target ` set ps \<Longrightarrow> kfiles s' q = kfiles s q \<and> generated s' = generated s"
proof (induction ps arbitrary: s)
  case (Cons p ps)
  obtain src dst where p: "p = (src, dst)" by (cases p)
  show ?case
  proof (cases "kfiles s src")
    case (Some c)
    with Cons.prems have "copy_all ps (write_file (dst @ ''/'' @ basename src) c s) = (r, s')"
      by (simp add: p copy_file_def read_file_def obind_def)
    with Cons.IH [OF this] Cons.prems(2) show ?thesis by (simp add: p target_def)
  qed (use Cons.prems in \<open>simp add: p copy_file_def read_file_def obind_def\<close>)
qed (simp add: oret_def)

lemma copy_all_copies:
  "copy_all ps s = (Inr (), s') \<Longrightarrow> (src, dst) \<in> set ps \<Longrightarrow>
   (\<forall>p \<in> set ps. target p = target (src, dst) \<longrightarrow> fst p = src) \<Longrightarrow> (\<forall>p \<in> set ps. fst p \<notin> target ` set ps) \<Longrightarrow>
   kfiles s' (target (src, dst)) = kfiles s src \<and> on_disk s src"
proof (induction ps arbitrary: s src dst)
  case (Cons p ps)
  obtain a b where p: "p = (a, b)" by (cases p)
  obtain c where a: "kfiles s a = Some c" and run: "copy_all ps (write_file (target p) c s) = (Inr (), s')"
    using Cons.prems(1) by (cases "kfiles s a") (auto simp: p target_def copy_file_def read_file_def obind_def)
  have "fst (src, dst) \<notin> target ` set (p # ps)" using Cons.prems(2,4) by blast
  then have src: "src \<noteq> target p" by auto
  show ?case
  proof (cases "(src, dst) \<in> set ps")
    case True
    with Cons.IH [OF run True] Cons.prems(3,4) src show ?thesis by simp
  next
    case False
    then have here: "(src, dst) = p" using Cons.prems(2) by simp
    show ?thesis
    proof (cases "target p \<in> target ` set ps")
      case True
      then obtain p' where p': "p' \<in> set ps" "target p' = target p" by auto
      obtain d where d: "p' = (src, d)" using Cons.prems(3) p' here by (cases p') auto
      have "kfiles s' (target (src, d)) = kfiles (write_file (target p) c s) src \<and> on_disk (write_file (target p) c s) src"
        using Cons.prems(3,4) p' d here by (intro Cons.IH [OF run]) auto
      with src p' d here show ?thesis by simp
    next
      case False
      then show ?thesis using copy_all_frame [OF run False] here a p by (simp add: on_disk_def)
    qed
  qed
qed simp

text \<open>The key files are under the project; nothing but the copies touches an absolute path.\<close>

definition absolute :: "string \<Rightarrow> bool" where
  "absolute p \<longleftrightarrow> startswith p ''/''"

lemma key_paths_relative [simp]:
  "\<not> absolute CA_KEY_PATH" "\<not> absolute CA_CERT_PATH" "\<not> absolute JWT_PRIVATE_KEY_PATH" "\<not> absolute JWT_PUBLIC_KEY_PATH"
  "\<not> absolute (service_key_path n)" "\<not> absolute (service_cert_path n)"
  by (simp_all add: absolute_def CA_KEY_PATH_def CA_CERT_PATH_def JWT_PRIVATE_KEY_PATH_def JWT_PUBLIC_KEY_PATH_def
      service_key_path_def service_cert_path_def SERVICE_CERT_DIR_def)

lemma ensure_absolute:
  "absolute q \<Longrightarrow> kfiles (ensure_jwt_keypair C s) q = kfiles s q"
  "absolute q \<Longrightarrow> kfiles (ensure_ca C t s) q = kfiles s q"
  by (auto simp: ensure_jwt_keypair_def ensure_ca_def generate_key_def)

lemma issue_absolute:
  assumes "issue_cert C name is_client required t s = (Inr kc, s')" and "absolute q"
  shows "kfiles s' q = kfiles s q"
proof -
  obtain k c where "kc = (k, c)" by (cases kc)
  with assms(1) have "issue_cert C name is_client required t s = (Inr (k, c), s')" by simp
  then show ?thesis
  proof (cases rule: issue_cert_cases)
    case (issued key ca s1)
    then show ?thesis
      using ensure_absolute(2) [OF assms(2), of C t s] load_ca_Inr(1) [OF issued(3)] assms(2) by auto
  qed simp
qed

lemma issue_paths:
  "issue_cert C name is_client required t s = (Inr kc, s') \<Longrightarrow> kc = (service_key_path name, service_cert_path name)"
  by (cases kc) (auto elim: issue_cert_cases)

lemma issue_keeps_jwt:
  assumes "issue_cert C name is_client required t s = (Inr kc, s')"
  shows "kfiles s' JWT_PUBLIC_KEY_PATH = kfiles s JWT_PUBLIC_KEY_PATH" "kfiles s' JWT_PRIVATE_KEY_PATH = kfiles s JWT_PRIVATE_KEY_PATH"
proof -
  obtain k c where "kc = (k, c)" by (cases kc)
  with assms have "issue_cert C name is_client required t s = (Inr (k, c), s')" by simp
  then have "kfiles s' JWT_PUBLIC_KEY_PATH = kfiles s JWT_PUBLIC_KEY_PATH \<and> kfiles s' JWT_PRIVATE_KEY_PATH = kfiles s JWT_PRIVATE_KEY_PATH"
  proof (cases rule: issue_cert_cases)
    case (issued key ca s1)
    have "JWT_PUBLIC_KEY_PATH \<notin> {CA_KEY_PATH, CA_CERT_PATH}" "JWT_PRIVATE_KEY_PATH \<notin> {CA_KEY_PATH, CA_CERT_PATH}"
      by (simp_all add: JWT_PUBLIC_KEY_PATH_def JWT_PRIVATE_KEY_PATH_def CA_KEY_PATH_def CA_CERT_PATH_def)
    then show ?thesis
      using issued load_ca_Inr(1) [OF issued(3)] by (auto simp: ensure_ca_def generate_key_def)
  qed simp
  then show "kfiles s' JWT_PUBLIC_KEY_PATH = kfiles s JWT_PUBLIC_KEY_PATH" "kfiles s' JWT_PRIVATE_KEY_PATH = kfiles s JWT_PRIVATE_KEY_PATH"
    by auto
qed

definition leaf_paths :: "string \<Rightarrow> string \<times> string" where
  "leaf_paths name = (service_key_path name, service_cert_path name)"

definition all_bundles :: "string \<Rightarrow> (string \<times> string) list" where
  "all_bundles out =
     bundle_list out ''idp'' (Some (leaf_paths ''idp'')) True True None @
     bundle_list out ''gateway'' (Some (leaf_paths ''gateway'')) False True (Some (leaf_paths GATEWAY_CLIENT_CERT_CN)) @
     bundle_list out ''docs-app'' (Some (leaf_paths ''docs-app'')) False False None @
     bundle_list out ''finance-app'' (Some (leaf_paths ''finance-app'')) False False None @
     bundle_list out ''agent'' None False False None"

text \<open>Provisioning is the issuing of five certificates and then the copies.\<close>

lemma prov_main_runs:
  assumes "prov_main C env_sans t a s = (Inr (), s')"
  obtains i s1 g s2 d s3 f s4 c s5 where
    "issue_cert C ''idp'' False ([idp_host a] @ extra_san a @ env_sans) t (ensure_jwt_keypair C (ensure_ca C t s)) = (Inr i, s1)"
    "issue_cert C ''gateway'' False ([gateway_host a] @ extra_san a @ env_sans) t s1 = (Inr g, s2)"
    "issue_cert C ''docs-app'' False ([docs_host a] @ extra_san a @ env_sans) t s2 = (Inr d, s3)"
    "issue_cert C ''finance-app'' False ([finance_host a] @ extra_san a @ env_sans) t s3 = (Inr f, s4)"
    "issue_cert C GATEWAY_CLIENT_CERT_CN True ([] @ extra_san a @ env_sans) t s4 = (Inr c, s5)"
    "copy_all (all_bundles (out_dir a)) s5 = (Inr (), s')"
proof -
  let ?s = "ensure_jwt_keypair C (ensure_ca C t s)"
  obtain i s1 g s2 d s3 f s4 c s5 where run:
    "issue_cert C ''idp'' False ([idp_host a] @ extra_san a @ env_sans) t ?s = (Inr i, s1)"
    "issue_cert C ''gateway'' False ([gateway_host a] @ extra_san a @ env_sans) t s1 = (Inr g, s2)"
    "issue_cert C ''docs-app'' False ([docs_host a] @ extra_san a @ env_sans) t s2 = (Inr d, s3)"
    "issue_cert C ''finance-app'' False ([finance_host a] @ extra_san a @ env_sans) t s3 = (Inr f, s4)"
    "issue_cert C GATEWAY_CLIENT_CERT_CN True ([] @ extra_san a @ env_sans) t s4 = (Inr c, s5)"
    and copies: "copy_all
        (bundle_list (out_dir a) ''idp'' (Some i) True True None @
         bundle_list (out_dir a) ''gateway'' (Some g) False True (Some c) @
         bundle_list (out_dir a) ''docs-app'' (Some d) False False None @
         bundle_list (out_dir a) ''finance-app'' (Some f) False False None @
         bundle_list (out_dir a) ''agent'' None False False None) s5 = (Inr (), s')"
    using assms unfolding prov_main_def Let_def obind_eq_Inr by blast
  from copies run [THEN issue_paths] have "copy_all (all_bundles (out_dir a)) s5 = (Inr (), s')"
    by (simp add: all_bundles_def leaf_paths_def)
  with run show thesis by (rule that)
qed

text \<open>What every issued certificate and the making of the keys keep holds when the copying starts.\<close>

lemma prov_main_copies:
  assumes "prov_main C env_sans t a s = (Inr (), s')" and "P (ensure_jwt_keypair C (ensure_ca C t s))"
    and issuing: "\<And>name is_client required u kc u'. issue_cert C name is_client required t u = (Inr kc, u') \<Longrightarrow> P u \<Longrightarrow> P u'"
  obtains s1 where "copy_all (all_bundles (out_dir a)) s1 = (Inr (), s')" "P s1"
  using assms(1)
proof (rule prov_main_runs)
  fix i s1 g s2 d s3 f s4 c s5
  assume run: "issue_cert C ''idp'' False ([idp_host a] @ extra_san a @ env_sans) t (ensure_jwt_keypair C (ensure_ca C t s)) = (Inr i, s1)"
    "issue_cert C ''gateway'' False ([gateway_host a] @ extra_san a @ env_sans) t s1 = (Inr g, s2)"
    "issue_cert C ''docs-app'' False ([docs_host a] @ extra_san a @ env_sans) t s2 = (Inr d, s3)"
    "issue_cert C ''finance-app'' False ([finance_host a] @ extra_san a @ env_sans) t s3 = (Inr f, s4)"
    "issue_cert C GATEWAY_CLIENT_CERT_CN True ([] @ extra_san a @ env_sans) t s4 = (Inr c, s5)"
    and copies: "copy_all (all_bundles (out_dir a)) s5 = (Inr (), s')"
  have "P s1" by (rule issuing [OF run(1) assms(2)])
  then have "P s2" by (rule issuing [OF run(2)])
  then have "P s3" by (rule issuing [OF run(3)])
  then have "P s4" by (rule issuing [OF run(4)])
  then have "P s5" by (rule issuing [OF run(5)])
  with copies show thesis by (rule that)
qed

lemmas path_defs = CA_KEY_PATH_def CA_CERT_PATH_def JWT_PRIVATE_KEY_PATH_def JWT_PUBLIC_KEY_PATH_def
  service_key_path_def service_cert_path_def SERVICE_CERT_DIR_def GATEWAY_CLIENT_CERT_CN_def

lemma bundle_targets:
  "target ` set (all_bundles out) = (\<lambda>r. out @ r) `
     {''/idp/certs/ca/ca_cert.pem'', ''/idp/certs/services/idp_key.pem'', ''/idp/certs/services/idp_cert.pem'',
      ''/idp/certs/jwt_keys/jwt_private.pem'', ''/idp/certs/jwt_keys/jwt_public.pem'',
      ''/gateway/certs/ca/ca_cert.pem'', ''/gateway/certs/services/gateway_key.pem'', ''/gateway/certs/services/gateway_cert.pem'',
      ''/gateway/certs/services/ztna-gateway-client_key.pem'', ''/gateway/certs/services/ztna-gateway-client_cert.pem'',
      ''/gateway/certs/jwt_keys/jwt_public.pem'',
      ''/docs-app/certs/ca/ca_cert.pem'', ''/docs-app/certs/services/docs-app_key.pem'', ''/docs-app/certs/services/docs-app_cert.pem'',
      ''/finance-app/certs/ca/ca_cert.pem'', ''/finance-app/certs/services/finance-app_key.pem'',
      ''/finance-app/certs/services/finance-app_cert.pem'', ''/agent/certs/ca/ca_cert.pem''}"
  by (simp add: all_bundles_def bundle_list_def leaf_paths_def target_def basename_def path_defs Let_def insert_commute)

text \<open>A property of the files that issuing a certificate and copying to absolute paths keep holds after provisioning.\<close>

lemma copy_all_keeps:
  assumes "copy_all ps s = (r, s')" and "\<forall>p \<in> set ps. absolute (target p)" and "P s"
    and writing: "\<And>p c s. absolute p \<Longrightarrow> P s \<Longrightarrow> P (write_file p c s)"
  shows "P s'"
  using assms(1-3)
proof (induction ps arbitrary: s)
  case (Cons p ps)
  obtain src dst where p: "p = (src, dst)" by (cases p)
  show ?case
  proof (cases "kfiles s src")
    case (Some c)
    then have "copy_all ps (write_file (target p) c s) = (r, s')"
      using Cons.prems(1) by (simp add: p target_def copy_file_def read_file_def obind_def)
    then show ?thesis by (rule Cons.IH) (use Cons.prems writing in auto)
  qed (use Cons.prems in \<open>simp add: p copy_file_def read_file_def obind_def\<close>)
qed (simp add: oret_def)

lemma bundle_targets_absolute: "absolute out \<Longrightarrow> \<forall>p \<in> set (all_bundles out). absolute (target p)"
proof
  fix p assume "absolute out" and "p \<in> set (all_bundles out)"
  moreover from this(2) have "target p \<in> target ` set (all_bundles out)" by simp
  then obtain q where "target p = out @ q" unfolding bundle_targets by (rule imageE)
  ultimately show "absolute (target p)" by (auto simp: absolute_def startswith_iff)
qed

lemma prov_main_keeps:
  assumes "prov_main C env_sans t a s = (Inr (), s')" and "absolute (out_dir a)"
    and "P (ensure_jwt_keypair C (ensure_ca C t s))"
    and issuing: "\<And>name is_client required u kc u'. issue_cert C name is_client required t u = (Inr kc, u') \<Longrightarrow> P u \<Longrightarrow> P u'"
    and writing: "\<And>p c u. absolute p \<Longrightarrow> P u \<Longrightarrow> P (write_file p c u)"
  shows "P s'"
proof -
  obtain u where copies: "copy_all (all_bundles (out_dir a)) u = (Inr (), s')" and "P u"
    using assms(1,3) issuing by (rule prov_main_copies)
  show ?thesis
    by (rule copy_all_keeps [where P = P, OF copies bundle_targets_absolute [OF assms(2)] \<open>P u\<close>]) (rule writing)
qed

section \<open>Provisioning succeeds\<close>

definition ca_usable :: "ca_prims \<Rightarrow> keystore \<Rightarrow> bool" where
  "ca_usable C s \<longleftrightarrow> (\<exists>k c. kfiles s CA_KEY_PATH = Some k \<and> key_valid C k \<and>
     Option.bind (kfiles s CA_CERT_PATH) (parse_cert C) = Some c)"

definition crypto_ok :: "ca_prims \<Rightarrow> bool" where
  "crypto_ok C \<longleftrightarrow> (\<forall>c. parse_cert C (cert_pem C c) = Some c) \<and> (\<forall>n. key_valid C (gen_key C n))"

lemma ensure_ca_usable:
  assumes "crypto_ok C" and "\<not> on_disk s CA_KEY_PATH"
  shows "ca_usable C (ensure_ca C t s)"
  using assms by (simp add: ca_usable_def crypto_ok_def ensure_ca_def generate_key_def)

lemma usable_load_ca: "ca_usable C s \<Longrightarrow> \<exists>k ca. load_ca C t s = (Inr (k, ca), s)"
  by (auto simp: ca_usable_def load_ca_def ensure_ca_def on_disk_def read_file_def Let_def bind_eq_Some_conv)

lemma usable_issue:
  assumes "ca_usable C s"
  shows "\<exists>s'. issue_cert C name is_client required t s = (Inr (leaf_paths name), s') \<and> ca_usable C s' \<and>
    on_disk s' (service_key_path name) \<and> on_disk s' (service_cert_path name) \<and> (\<forall>q. on_disk s q \<longrightarrow> on_disk s' q)"
proof (cases "on_disk s (service_key_path name) \<and> on_disk s (service_cert_path name) \<and> cert_covers C (service_cert_path name) required s")
  case True
  then show ?thesis using assms by (simp add: issue_cert_def Let_def leaf_paths_def)
next
  case False
  obtain k ca where l: "load_ca C t s = (Inr (k, ca), s)" using usable_load_ca [OF assms] by blast
  show ?thesis
    using False l assms by (simp add: issue_cert_def Let_def obind_def generate_key_def leaf_paths_def ca_usable_def)
qed

lemma copy_all_succeeds:
  "\<forall>p \<in> set ps. on_disk s (fst p) \<Longrightarrow> \<exists>s'. copy_all ps s = (Inr (), s')"
proof (induction ps arbitrary: s)
  case (Cons p ps)
  obtain a b where p: "p = (a, b)" by (cases p)
  obtain c where c: "kfiles s a = Some c" using Cons.prems p by (auto simp: on_disk_def)
  have "\<exists>s'. copy_all ps (write_file (b @ ''/'' @ basename a) c s) = (Inr (), s')"
    using Cons.prems by (intro Cons.IH) simp
  with c show ?case by (simp add: p copy_file_def read_file_def obind_def)
qed (simp add: oret_def)

lemma provisioning_succeeds:
  assumes "crypto_ok C" and "\<not> on_disk s CA_KEY_PATH"
  shows "\<exists>s'. prov_main C env_sans t a s = (Inr (), s')"
proof -
  let ?s = "ensure_jwt_keypair C (ensure_ca C t s)"
  have "CA_KEY_PATH \<notin> {JWT_PRIVATE_KEY_PATH, JWT_PUBLIC_KEY_PATH}" "CA_CERT_PATH \<notin> {JWT_PRIVATE_KEY_PATH, JWT_PUBLIC_KEY_PATH}"
    by (simp_all add: path_defs)
  with ensure_ca_usable [OF assms, of t] have u: "ca_usable C ?s"
    by (auto simp: ca_usable_def ensure_jwt_keypair_def generate_key_def)
  have d: "on_disk ?s JWT_PRIVATE_KEY_PATH" "on_disk ?s JWT_PUBLIC_KEY_PATH" "on_disk ?s CA_CERT_PATH"
    using u by (auto simp: ensure_jwt_keypair_def generate_key_def ca_usable_def on_disk_def bind_eq_Some_conv)
  obtain s1 where s1: "issue_cert C ''idp'' False ([idp_host a] @ extra_san a @ env_sans) t ?s = (Inr (leaf_paths ''idp''), s1)"
    "ca_usable C s1" "on_disk s1 (service_key_path ''idp'')" "on_disk s1 (service_cert_path ''idp'')" "\<forall>q. on_disk ?s q \<longrightarrow> on_disk s1 q"
    using usable_issue [OF u] by blast
  obtain s2 where s2: "issue_cert C ''gateway'' False ([gateway_host a] @ extra_san a @ env_sans) t s1 = (Inr (leaf_paths ''gateway''), s2)"
    "ca_usable C s2" "on_disk s2 (service_key_path ''gateway'')" "on_disk s2 (service_cert_path ''gateway'')" "\<forall>q. on_disk s1 q \<longrightarrow> on_disk s2 q"
    using usable_issue [OF s1(2)] by blast
  obtain s3 where s3: "issue_cert C ''docs-app'' False ([docs_host a] @ extra_san a @ env_sans) t s2 = (Inr (leaf_paths ''docs-app''), s3)"
    "ca_usable C s3" "on_disk s3 (service_key_path ''docs-app'')" "on_disk s3 (service_cert_path ''docs-app'')" "\<forall>q. on_disk s2 q \<longrightarrow> on_disk s3 q"
    using usable_issue [OF s2(2)] by blast
  obtain s4 where s4: "issue_cert C ''finance-app'' False ([finance_host a] @ extra_san a @ env_sans) t s3 = (Inr (leaf_paths ''finance-app''), s4)"
    "ca_usable C s4" "on_disk s4 (service_key_path ''finance-app'')" "on_disk s4 (service_cert_path ''finance-app'')" "\<forall>q. on_disk s3 q \<longrightarrow> on_disk s4 q"
    using usable_issue [OF s3(2)] by blast
  obtain s5 where s5: "issue_cert C GATEWAY_CLIENT_CERT_CN True ([] @ extra_san a @ env_sans) t s4 = (Inr (leaf_paths GATEWAY_CLIENT_CERT_CN), s5)"
    "on_disk s5 (service_key_path GATEWAY_CLIENT_CERT_CN)" "on_disk s5 (service_cert_path GATEWAY_CLIENT_CERT_CN)" "\<forall>q. on_disk s4 q \<longrightarrow> on_disk s5 q"
    using usable_issue [OF s4(2)] by blast
  have "\<forall>p \<in> set (all_bundles (out_dir a)). on_disk s5 (fst p)"
    using s1(3-5) s2(3-5) s3(3-5) s4(3-5) s5(2-4) d by (auto simp: all_bundles_def bundle_list_def leaf_paths_def Let_def)
  then obtain s' where "copy_all (all_bundles (out_dir a)) s5 = (Inr (), s')" using copy_all_succeeds by blast
  then have "prov_main C env_sans t a s = (Inr (), s')"
    using s1(1) s2(1) s3(1) s4(1) s5(1)
    by (simp add: prov_main_def Let_def obind_def all_bundles_def)
  then show ?thesis by blast
qed

text \<open>What the bundles hold.\<close>

lemma bundle_contents:
  assumes "prov_main C env_sans t a s = (Inr (), s')" and "absolute (out_dir a)"
  shows "(\<forall>host \<in> {''idp'', ''gateway'', ''docs-app'', ''finance-app'', ''agent''}.
      kfiles s' (out_dir a @ ''/'' @ host @ ''/certs/ca/ca_key.pem'') = kfiles s (out_dir a @ ''/'' @ host @ ''/certs/ca/ca_key.pem'')) \<and>
    (\<forall>host \<in> {''gateway'', ''docs-app'', ''finance-app'', ''agent''}.
      kfiles s' (out_dir a @ ''/'' @ host @ ''/certs/jwt_keys/jwt_private.pem'') =
      kfiles s (out_dir a @ ''/'' @ host @ ''/certs/jwt_keys/jwt_private.pem'')) \<and>
    kfiles s' (out_dir a @ ''/gateway/certs/jwt_keys/jwt_public.pem'') = kfiles s' JWT_PUBLIC_KEY_PATH \<and>
    on_disk s' JWT_PUBLIC_KEY_PATH"
proof -
  let ?out = "out_dir a"
  obtain s1 where run: "copy_all (all_bundles ?out) s1 = (Inr (), s')" and base: "\<And>q. absolute q \<Longrightarrow> kfiles s1 q = kfiles s q"
    and pub: "on_disk s1 JWT_PUBLIC_KEY_PATH"
  proof (rule prov_main_copies [OF assms(1)])
    let ?P = "\<lambda>u. (\<forall>q. absolute q \<longrightarrow> kfiles u q = kfiles s q) \<and> on_disk u JWT_PUBLIC_KEY_PATH"
    show "?P (ensure_jwt_keypair C (ensure_ca C t s))"
      by (simp add: ensure_absolute) (auto simp: ensure_jwt_keypair_def generate_key_def)
    show "?P u'" if "issue_cert C name is_client required t u = (Inr kc, u')" "?P u" for name is_client required u kc u'
      using that issue_absolute [OF that(1)] issue_keeps_jwt(1) [OF that(1)] by (simp add: on_disk_def)
  qed (use that in auto)
  have abs: "absolute (?out @ q)" for q
    using assms(2) by (auto simp: absolute_def startswith_iff)
  have frame: "kfiles s' (?out @ q) = kfiles s (?out @ q)" if "?out @ q \<notin> target ` set (all_bundles ?out)" for q
    using copy_all_frame [OF run that] base [OF abs] by simp
  have tg: "absolute q" if "q \<in> target ` set (all_bundles ?out)" for q
    using that abs unfolding bundle_targets by blast
  then have rel: "kfiles s' q = kfiles s1 q" if "\<not> absolute q" for q
    using that copy_all_frame [OF run] by blast
  have src: "(JWT_PUBLIC_KEY_PATH, ?out @ ''/gateway/certs/jwt_keys'') \<in> set (all_bundles ?out)"
    by (simp add: all_bundles_def bundle_list_def leaf_paths_def Let_def)
  have t: "target (JWT_PUBLIC_KEY_PATH, ?out @ ''/gateway/certs/jwt_keys'') = ?out @ ''/gateway/certs/jwt_keys/jwt_public.pem''"
    by (simp add: target_def basename_def path_defs)
  have rels: "\<forall>p \<in> set (all_bundles ?out). \<not> absolute (fst p)"
    by (auto simp: all_bundles_def bundle_list_def leaf_paths_def Let_def)
  have "kfiles s' (target (JWT_PUBLIC_KEY_PATH, ?out @ ''/gateway/certs/jwt_keys'')) = kfiles s1 JWT_PUBLIC_KEY_PATH"
  proof (rule copy_all_copies [OF run src, THEN conjunct1])
    show "\<forall>p \<in> set (all_bundles ?out). target p = target (JWT_PUBLIC_KEY_PATH, ?out @ ''/gateway/certs/jwt_keys'') \<longrightarrow> fst p = JWT_PUBLIC_KEY_PATH"
      unfolding t by (simp add: all_bundles_def bundle_list_def leaf_paths_def target_def basename_def path_defs Let_def)
    show "\<forall>p \<in> set (all_bundles ?out). fst p \<notin> target ` set (all_bundles ?out)"
      using rels tg by blast
  qed
  then have "kfiles s' (?out @ ''/gateway/certs/jwt_keys/jwt_public.pem'') = kfiles s' JWT_PUBLIC_KEY_PATH"
    using rel [of JWT_PUBLIC_KEY_PATH] by (simp add: t)
  moreover have "on_disk s' JWT_PUBLIC_KEY_PATH" using rel [of JWT_PUBLIC_KEY_PATH] pub by (simp add: on_disk_def)
  ultimately show ?thesis
    using frame by (simp add: bundle_targets)
qed

text \<open>The files of one host: its bundle, copied to the root of its project; it has generated nothing yet.\<close>

definition deploy :: "string \<Rightarrow> string \<Rightarrow> keystore \<Rightarrow> keystore" where
  "deploy out host s = \<lparr>kfiles = (\<lambda>p. kfiles s (out @ ''/'' @ host @ ''/'' @ p)), generated = 0\<rparr>"

section \<open>Properties\<close>


text \<open>
  A Gateway set up from its bundle refuses every token: it holds the IdP's public key and no private
  key, so the first verification makes it generate its own pair over the key it was given.
\<close>

theorem provisioned_gateway_loses_the_public_key:
  assumes "prov_main C env_sans t a s = (Inr (), s')" and "absolute (out_dir a)"
    and "kfiles s (out_dir a @ ''/gateway/certs/jwt_keys/jwt_private.pem'') = None"
    and "load_public_key_pem G (deploy (out_dir a) ''gateway'' s') = (r, g')"
  shows "kfiles (deploy (out_dir a) ''gateway'' s') JWT_PUBLIC_KEY_PATH = kfiles s' JWT_PUBLIC_KEY_PATH \<and>
    r = Inr (public_half G (gen_key G 0)) \<and> kfiles g' JWT_PUBLIC_KEY_PATH = Some (public_half G (gen_key G 0)) \<and>
    kfiles g' JWT_PRIVATE_KEY_PATH = Some (gen_key G 0)"
proof -
  let ?g = "deploy (out_dir a) ''gateway'' s'"
  note b = bundle_contents [OF assms(1,2)]
  have pub: "kfiles ?g JWT_PUBLIC_KEY_PATH = kfiles s' JWT_PUBLIC_KEY_PATH"
    using b by (simp add: deploy_def JWT_PUBLIC_KEY_PATH_def)
  have priv: "\<not> on_disk ?g JWT_PRIVATE_KEY_PATH"
    using b assms(3) by (simp add: deploy_def on_disk_def JWT_PRIVATE_KEY_PATH_def)
  obtain key where "kfiles ?g JWT_PUBLIC_KEY_PATH = Some key"
    using b pub by (auto simp: on_disk_def)
  from verifier_overwrites_public_key [OF this priv assms(4)] pub show ?thesis by (simp add: deploy_def)
qed

section \<open>Witness\<close>

definition lab :: prov_args where
  "lab = \<lparr>idp_host = ''192.168.1.10'', gateway_host = ''192.168.1.11'', docs_host = ''192.168.1.12'', finance_host = ''192.168.1.12'',
     extra_san = [], out_dir = ''/dist''\<rparr>"

lemma lab_provisioned: "\<exists>s'. prov_main toy_ca [] 5 lab empty_keys = (Inr (), s')"
  by (rule provisioning_succeeds) (use toy_parse_pem in \<open>simp_all add: crypto_ok_def on_disk_def empty_keys_def\<close>, simp add: toy_ca_def)


theorem provisioned_gateway_loses_the_public_key_witness:
  "\<exists>s' r g'. prov_main toy_ca [] 5 lab empty_keys = (Inr (), s') \<and>
     load_public_key_pem (toy_ca\<lparr>gen_key := (\<lambda>n. ''other'')\<rparr>) (deploy ''/dist'' ''gateway'' s') = (r, g') \<and> r = Inr ''pub-other''"
proof -
  let ?G = "toy_ca\<lparr>gen_key := (\<lambda>n. ''other'')\<rparr>"
  obtain s' where run: "prov_main toy_ca [] 5 lab empty_keys = (Inr (), s')" using lab_provisioned by blast
  obtain r g' where load: "load_public_key_pem ?G (deploy (out_dir lab) ''gateway'' s') = (r, g')" by fastforce
  have "absolute (out_dir lab)" "kfiles empty_keys (out_dir lab @ ''/gateway/certs/jwt_keys/jwt_private.pem'') = None"
    by (simp_all add: lab_def absolute_def empty_keys_def)
  from provisioned_gateway_loses_the_public_key [OF run this load] run load show ?thesis
    by (simp add: toy_ca_def lab_def)
qed

end
