(* ===== verification/Requests.thy ===== *)
theory Requests
  imports Prims
begin

text \<open>
  What the request handlers share (\<open>common/http_utils.py\<close>): a request brings its peer
  address, the readings of the clock in the order in which the code takes them, the text of the
  local time, the random values drawn for it, and the correlation id of its thread; a
  handler returns a status and a JSON value.
\<close>

record request_env =
  peer :: string
  clk :: "nat \<Rightarrow> time"
  local_time :: string
  local_hour :: int
  random_jti :: string
  random_nonce :: string
  correlation :: string

type_synonym response = "int \<times> pyval"

text \<open>\<open>round(x, 1)\<close>: to the nearest tenth, halves to the even one.\<close>

definition round1 :: "time \<Rightarrow> time" where
  "round1 x =
     (let y = 10 * x; n = \<lfloor>y\<rfloor>; d = y - of_int n in
      of_int (if d < 1 / 2 \<or> (d = 1 / 2 \<and> even n) then n else n + 1) / 10)"

definition error_body :: "string \<Rightarrow> pyval" where
  "error_body e = PyDict [(''error'', PyStr e)]"

definition handle_health :: "string \<Rightarrow> response" where
  "handle_health service = (200, PyDict [(''status'', PyStr ''ok''), (''service'', PyStr service)])"

text \<open>A request for the witnesses.\<close>

definition calm :: request_env where
  "calm = \<lparr>peer = ''10.0.0.7'', clk = (\<lambda>n. 1000 + real n), local_time = ''2026-01-01T00:16:40'', local_hour = 0,
     random_jti = ''j1'', random_nonce = ''n1'', correlation = ''c1''\<rparr>"

lemma calm_simps [simp]:
  "clk calm n = 1000 + real n" "random_jti calm = ''j1''" "peer calm = ''10.0.0.7''" "local_hour calm = 0"
  by (simp_all add: calm_def)

end
