(* ===== verification/Obs.thy ===== *)
theory Obs
  imports Json Prims Config
begin

text \<open>
  \<open>common/obs.py\<close>: operational log lines and the correlation id of the thread that serves a
  request (\<open>None\<close> when the thread has none). Writing the line is the last thing that \<open>log\<close>
  does and every failure is swallowed, so the model returns the line, if there is one, and the
  stream it goes to. The text of the clock and the process number are arguments.
\<close>

section \<open>Levels\<close>

datatype level = DEBUG | INFO | WARNING | ERROR | CRITICAL

fun level_no :: "level \<Rightarrow> int" where
  "level_no DEBUG = 10"
| "level_no INFO = 20"
| "level_no WARNING = 30"
| "level_no ERROR = 40"
| "level_no CRITICAL = 50"

lemma level_no_inj: "level_no a = level_no b \<longleftrightarrow> a = b"
  by (cases a; cases b) auto

instantiation level :: linorder
begin

definition less_eq_level :: "level \<Rightarrow> level \<Rightarrow> bool" where
  "less_eq_level a b \<longleftrightarrow> level_no a \<le> level_no b"

definition less_level :: "level \<Rightarrow> level \<Rightarrow> bool" where
  "less_level a b \<longleftrightarrow> level_no a < level_no b"

instance
  by standard (auto simp: less_eq_level_def less_level_def level_no_inj)

end

text \<open>\<open>_LEVELS.get(name, 20)\<close>: an unknown name counts as INFO.\<close>

definition LEVELS :: "(string \<times> level) list" where
  "LEVELS = [(''DEBUG'', DEBUG), (''INFO'', INFO), (''WARNING'', WARNING), (''ERROR'', ERROR), (''CRITICAL'', CRITICAL)]"

definition level_named :: "string \<Rightarrow> level" where
  "level_named s = (case map_of LEVELS s of None \<Rightarrow> INFO | Some l \<Rightarrow> l)"

section \<open>Correlation ids\<close>

type_synonym thread_id = "string option"

text \<open>\<open>uuid\<close> is the random \<open>uuid.uuid4().hex\<close>.\<close>

definition new_correlation_id :: "string \<Rightarrow> string" where
  "new_correlation_id uuid = take 16 uuid"

definition set_correlation_id :: "string \<Rightarrow> string \<Rightarrow> thread_id \<Rightarrow> string \<times> thread_id" where
  "set_correlation_id uuid given th =
     (let v = py_take 64 (strip given); v' = (if v = [] then new_correlation_id uuid else v) in (v', Some v'))"

definition get_correlation_id :: "thread_id \<Rightarrow> string" where
  "get_correlation_id th = (case th of None \<Rightarrow> ''-'' | Some v \<Rightarrow> if v = [] then ''-'' else v)"

definition clear_correlation_id :: "thread_id \<Rightarrow> thread_id" where
  "clear_correlation_id th = None"

section \<open>Log lines\<close>

definition rpad :: "nat \<Rightarrow> string \<Rightarrow> string" where
  "rpad n s = s @ replicate (n - length s) (CHR '' '')"

text \<open>The stream (true for the standard error) and the line, \<open>None\<close> below the threshold.\<close>

definition obs_log ::
  "prims \<Rightarrow> config \<Rightarrow> string \<Rightarrow> int \<Rightarrow> thread_id \<Rightarrow> string \<Rightarrow> string \<Rightarrow> string \<Rightarrow> dict \<Rightarrow> (bool \<times> string) option" where
  "obs_log P cfg clock pid th level_name service event given =
     (let lname = upper level_name; l = level_named lname; cid = get_correlation_id th in
      if l < level_named (log_level_name cfg) then None
      else
        let entry = dupdate [(''ts'', PyStr (clock @ ''Z'')), (''level'', PyStr lname), (''service'', PyStr service),
                     (''event'', PyStr event), (''correlation_id'', PyStr cid), (''pid'', PyInt pid)] given;
            extras = join_with '' '' (map (\<lambda>(k, v). k @ ''='' @ py_str P v) (filter (\<lambda>(k, v). v \<noteq> PyNone) given));
            line = (if json_logs cfg then json_dumps (float_repr P) True (PyDict entry)
                    else ''['' @ service @ ''] '' @ rpad 7 lname @ '' '' @ event @
                         (if extras = [] then [] else '' ('' @ extras @ '')'') @
                         (let c = dget entry ''correlation_id'' in if py_eq c (PyStr ''-'') then [] else '' cid='' @ py_str P c))
        in Some (ERROR \<le> l, line))"

text \<open>A correlation id that came from a caller is never empty, and at most 64 characters long.\<close>

lemma set_correlation_id_bounds:
  assumes "set_correlation_id uuid v th = (cid, th')" and "uuid \<noteq> []" and "length uuid = 32"
  shows "cid \<noteq> [] \<and> py_len cid \<le> 64 \<and> get_correlation_id th' = cid"
  using assms py_len_py_take [of 64 "strip v"] length_filter_le [of "\<lambda>c. \<not> is_cont c" "take 16 uuid"]
  by (auto simp: set_correlation_id_def new_correlation_id_def get_correlation_id_def Let_def py_len_def split: if_splits)

text \<open>What is logged at the default level: everything but DEBUG.\<close>

lemma level_bounds: "level_named s < INFO \<longleftrightarrow> level_named s = DEBUG"
  by (cases "level_named s") (auto simp: less_level_def)

end
