(* ===== verification/JsonReader.thy ===== *)
theory JsonReader
  imports Json
begin

text \<open>
  \<open>json.loads\<close>: the scanner of the standard library on the bytes of a text, with its extensions
  (\<open>NaN\<close>, \<open>Infinity\<close>, the last of equal keys wins) and its refusals (control characters in a
  string, leading zeros, text after the value). \<open>None\<close> is any exception; every call in the source
  catches all of them. A float literal is read as its exact real value. The values recurse through
  lists and objects on fuel, and \<open>json_loads\<close> supplies as much as a text of that length can use (\<open>json_loads_has_fuel\<close>).
\<close>

definition json_ws :: "char \<Rightarrow> bool" where
  "json_ws c \<longleftrightarrow> c \<in> {CHR '' '', CHR 0x09, CHR 0x0A, CHR 0x0D}"

definition skip_ws :: "string \<Rightarrow> string" where
  "skip_ws s = dropWhile json_ws s"

section \<open>Strings\<close>

definition hex_value :: "char \<Rightarrow> nat option" where
  "hex_value c =
     (let n = of_char c :: nat in
      if 48 \<le> n \<and> n \<le> 57 then Some (n - 48)
      else if 97 \<le> n \<and> n \<le> 102 then Some (n - 87)
      else if 65 \<le> n \<and> n \<le> 70 then Some (n - 55) else None)"

definition four_hex :: "char \<Rightarrow> char \<Rightarrow> char \<Rightarrow> char \<Rightarrow> nat option" where
  "four_hex a b c d =
     (case (hex_value a, hex_value b, hex_value c, hex_value d) of
        (Some p, Some q, Some u, Some w) \<Rightarrow> Some (p * 4096 + q * 256 + u * 16 + w) | _ \<Rightarrow> None)"

text \<open>The UTF-8 bytes of a code point.\<close>

definition utf8_bytes :: "nat \<Rightarrow> string" where
  "utf8_bytes n = map char_of
     (if n < 128 then [n]
      else if n < 2048 then [192 + n div 64, 128 + n mod 64]
      else if n < 65536 then [224 + n div 4096, 128 + n div 64 mod 64, 128 + n mod 64]
      else [240 + n div 262144, 128 + n div 4096 mod 64, 128 + n div 64 mod 64, 128 + n mod 64])"

definition short_escapes :: "(char \<times> nat) list" where
  "short_escapes = [(CHR 0x22, 34), (CHR 0x5C, 92), (CHR ''/'', 47), (CHR ''b'', 8), (CHR ''f'', 12),
     (CHR ''n'', 10), (CHR ''r'', 13), (CHR ''t'', 9)]"

text \<open>The text behind a backslash and a \<open>u\<close>: one code unit, or two that make a pair.\<close>

fun read_unicode :: "string \<Rightarrow> (nat \<times> string) option" where
  "read_unicode (a # b # c # d # s) =
     (case four_hex a b c d of
        None \<Rightarrow> None
      | Some hi \<Rightarrow>
          (case s of
             x # y # a' # b' # c' # d' # s' \<Rightarrow>
               (case four_hex a' b' c' d' of
                  Some lo \<Rightarrow>
                    if 0xD800 \<le> hi \<and> hi < 0xDC00 \<and> x = CHR 0x5C \<and> y = CHR ''u'' \<and> 0xDC00 \<le> lo \<and> lo < 0xE000
                    then Some (0x10000 + (hi - 0xD800) * 1024 + (lo - 0xDC00), s')
                    else Some (hi, s)
                | None \<Rightarrow> Some (hi, s))
           | _ \<Rightarrow> Some (hi, s)))"
| "read_unicode s = None"

lemma read_unicode_shorter: "read_unicode s = Some (n, r) \<Longrightarrow> length r < length s"
  by (induction s rule: read_unicode.induct) (auto split: option.splits list.splits if_splits)

text \<open>The text behind an opening quote.\<close>

function read_string :: "string \<Rightarrow> (string \<times> string) option" where
  "read_string s =
     (case s of
        [] \<Rightarrow> None
      | c # r \<Rightarrow>
          if c = CHR 0x22 then Some ([], r)
          else if c = CHR 0x5C then
            (case r of
               [] \<Rightarrow> None
             | e # r' \<Rightarrow>
                 (case (if e = CHR ''u'' then read_unicode r' else map_option (\<lambda>n. (n, r')) (map_of short_escapes e)) of
                    None \<Rightarrow> None
                  | Some (n, r'') \<Rightarrow> map_option (\<lambda>(t, u). (utf8_bytes n @ t, u)) (read_string r'')))
          else if of_char c < (32 :: nat) then None
          else map_option (\<lambda>(t, u). (c # t, u)) (read_string r))"
  by pat_completeness auto

termination read_string
  by (relation "measure length") (auto dest: read_unicode_shorter split: if_splits)

declare read_string.simps [simp del]

section \<open>Numbers\<close>

definition digits_value :: "string \<Rightarrow> int" where
  "digits_value ds = foldl (\<lambda>n c. 10 * n + int (digit_val c)) 0 ds"

definition scale10 :: "real \<Rightarrow> int \<Rightarrow> real" where
  "scale10 x e = (if 0 \<le> e then x * 10 ^ nat e else x / 10 ^ nat (- e))"

text \<open>The optional fraction and the optional exponent; neither is taken unless a digit follows.\<close>

definition read_fraction :: "string \<Rightarrow> string \<times> string" where
  "read_fraction s =
     (case s of
        c # r \<Rightarrow> if c = CHR ''.'' \<and> takeWhile is_digit r \<noteq> [] then (takeWhile is_digit r, dropWhile is_digit r) else ([], s)
      | [] \<Rightarrow> ([], s))"

definition read_exponent :: "string \<Rightarrow> int option \<times> string" where
  "read_exponent s =
     (case s of
        c # r \<Rightarrow>
          if c = CHR ''e'' \<or> c = CHR ''E'' then
            (let (neg, r') = (case r of
                 x # y \<Rightarrow> if x = CHR ''-'' then (True, y) else if x = CHR ''+'' then (False, y) else (False, r)
               | [] \<Rightarrow> (False, r)) in
             if takeWhile is_digit r' = [] then (None, s)
             else (Some ((if neg then -1 else 1) * digits_value (takeWhile is_digit r')), dropWhile is_digit r'))
          else (None, s)
      | [] \<Rightarrow> (None, s))"

definition read_number :: "string \<Rightarrow> (pyval \<times> string) option" where
  "read_number s =
     (let (neg, s1) = (case s of c # r \<Rightarrow> if c = CHR ''-'' then (True, r) else (False, s) | [] \<Rightarrow> (False, s)) in
      case s1 of
        [] \<Rightarrow> None
      | d # r \<Rightarrow>
          if \<not> is_digit d then None
          else
            let (ds, s2) = (if d = CHR ''0'' then ([d], r) else (takeWhile is_digit s1, dropWhile is_digit s1));
                (fs, s3) = read_fraction s2;
                (ex, s4) = read_exponent s3;
                sign = (if neg then -1 else 1 :: int)
            in
            if fs = [] \<and> ex = None then Some (PyInt (sign * digits_value ds), s2)
            else Some (PyFloat (Fin (scale10 (of_int (sign * digits_value (ds @ fs)))
                   ((case ex of None \<Rightarrow> 0 | Some e \<Rightarrow> e) - int (length fs)))), s4))"

section \<open>Values\<close>

definition word_values :: "(string \<times> pyval) list" where
  "word_values = [(''null'', PyNone), (''true'', PyBool True), (''false'', PyBool False), (''NaN'', PyFloat NaN),
     (''Infinity'', PyFloat PosInf), (''-Infinity'', PyFloat NegInf)]"

definition read_atom :: "string \<Rightarrow> (pyval \<times> string) option" where
  "read_atom s =
     (case find (\<lambda>(w, v). startswith s w) word_values of
        Some (w, v) \<Rightarrow> Some (v, drop (length w) s)
      | None \<Rightarrow> read_number s)"

fun read_value :: "nat \<Rightarrow> string \<Rightarrow> (pyval \<times> string) option"
  and read_items :: "nat \<Rightarrow> string \<Rightarrow> (pyval list \<times> string) option"
  and read_members :: "nat \<Rightarrow> string \<Rightarrow> (dict \<times> string) option" where
  "read_value 0 s = None"
| "read_value (Suc n) s =
     (case s of
        [] \<Rightarrow> None
      | c # r \<Rightarrow>
          if c = CHR 0x22 then map_option (\<lambda>(t, u). (PyStr t, u)) (read_string r)
          else if c = CHR ''['' then
            (case skip_ws r of
               [] \<Rightarrow> None
             | x # u \<Rightarrow> if x = CHR '']'' then Some (PyList [], u)
                 else map_option (\<lambda>(vs, w). (PyList vs, w)) (read_items n (x # u)))
          else if c = CHR ''{'' then
            (case skip_ws r of
               [] \<Rightarrow> None
             | x # u \<Rightarrow> if x = CHR ''}'' then Some (PyDict [], u)
                 else map_option (\<lambda>(d, w). (PyDict (dupdate [] d), w)) (read_members n (x # u)))
          else read_atom s)"
| "read_items 0 s = None"
| "read_items (Suc n) s =
     (case read_value n s of
        None \<Rightarrow> None
      | Some (v, r) \<Rightarrow>
          (case skip_ws r of
             [] \<Rightarrow> None
           | x # u \<Rightarrow>
               if x = CHR '']'' then Some ([v], u)
               else if x = CHR '','' then map_option (\<lambda>(vs, w). (v # vs, w)) (read_items n (skip_ws u))
               else None))"
| "read_members 0 s = None"
| "read_members (Suc n) s =
     (case s of
        [] \<Rightarrow> None
      | q # r \<Rightarrow>
          if q \<noteq> CHR 0x22 then None
          else (case read_string r of
            None \<Rightarrow> None
          | Some (k, r1) \<Rightarrow>
              (case skip_ws r1 of
                 [] \<Rightarrow> None
               | x # u \<Rightarrow>
                   if x \<noteq> CHR '':'' then None
                   else (case read_value n (skip_ws u) of
                     None \<Rightarrow> None
                   | Some (v, r2) \<Rightarrow>
                       (case skip_ws r2 of
                          [] \<Rightarrow> None
                        | y # w \<Rightarrow>
                            if y = CHR ''}'' then Some ([(k, v)], w)
                            else if y = CHR '','' then map_option (\<lambda>(d, z). ((k, v) # d, z)) (read_members n (skip_ws w))
                            else None)))))"

definition json_loads :: "string \<Rightarrow> pyval option" where
  "json_loads s =
     (if startswith s [CHR 0xEF, CHR 0xBB, CHR 0xBF] then None
      else case read_value (2 * length s + 1) (skip_ws s) of
        None \<Rightarrow> None
      | Some (v, r) \<Rightarrow> if skip_ws r = [] then Some v else None)"

section \<open>The fuel is enough\<close>

lemma skip_ws_shorter: "length (skip_ws s) \<le> length s"
  by (simp add: skip_ws_def length_dropWhile_le)

lemma skip_ws_Cons_shorter: "skip_ws s = x # u \<Longrightarrow> length u < length s"
  using skip_ws_shorter [of s] by simp

lemma read_string_shorter: "read_string s = Some (t, r) \<Longrightarrow> length r < length s"
proof (induction "length s" arbitrary: s t r rule: less_induct)
  case less
  have IH: "read_string s' = Some (t', r') \<Longrightarrow> length s' < length s \<Longrightarrow> length r' < length s'" for s' t' r'
    using less.hyps by blast
  from less.prems show ?case
    by (subst (asm) read_string.simps)
      (fastforce split: list.splits option.splits if_splits dest: IH read_unicode_shorter)
qed

lemma read_fraction_shorter: "length (snd (read_fraction s)) \<le> length s"
  by (auto simp: read_fraction_def le_SucI length_dropWhile_le split: list.split)

lemma read_exponent_shorter: "length (snd (read_exponent s)) \<le> length s"
proof (cases s)
  case (Cons c r)
  have "length (dropWhile is_digit y) \<le> Suc (Suc (length y))" for y using length_dropWhile_le [of is_digit y] by simp
  with Cons show ?thesis by (auto simp: read_exponent_def Let_def length_dropWhile_le le_SucI split: list.split)
qed (simp add: read_exponent_def)

lemma read_number_shorter: "read_number s = Some (v, r) \<Longrightarrow> length r \<le> length s"
proof -
  assume run: "read_number s = Some (v, r)"
  define s1 where "s1 = (case s of c # r \<Rightarrow> if c = CHR ''-'' then r else s | [] \<Rightarrow> s)"
  have "length s1 \<le> length s" by (simp add: s1_def split: list.split)
  from run have "s1 \<noteq> []" by (auto simp: read_number_def s1_def split: list.splits if_splits)
  then obtain d u where s1: "s1 = d # u" by (cases s1) auto
  define s2 where "s2 = (if d = CHR ''0'' then u else dropWhile is_digit s1)"
  have "length s2 \<le> length s1" using length_dropWhile_le [of is_digit s1] by (simp add: s2_def s1)
  moreover from run have "r = s2 \<or> r = snd (read_exponent (snd (read_fraction s2)))"
    using s1 by (auto simp: read_number_def s1_def s2_def Let_def split: list.splits if_splits prod.splits)
  moreover have "length (snd (read_exponent (snd (read_fraction s2)))) \<le> length s2"
    using read_exponent_shorter read_fraction_shorter by (rule order_trans)
  ultimately show ?thesis using \<open>length s1 \<le> length s\<close> by auto
qed

lemma read_atom_shorter: "read_atom s = Some (v, r) \<Longrightarrow> length r \<le> length s"
  by (auto simp: read_atom_def split: option.splits dest: read_number_shorter)

lemma read_all_shorter:
  "(\<forall>s v r. read_value n s = Some (v, r) \<longrightarrow> length r \<le> length s) \<and>
   (\<forall>s vs r. read_items n s = Some (vs, r) \<longrightarrow> length r \<le> length s) \<and>
   (\<forall>s d r. read_members n s = Some (d, r) \<longrightarrow> length r \<le> length s)"
proof (induction n)
  case (Suc n)
  have V: "length r \<le> length s" if "read_value n s = Some (v, r)" for s v r using Suc that by blast
  have I: "length r \<le> length s" if "read_items n s = Some (vs, r)" for s vs r using Suc that by blast
  have I': "length r \<le> length s" if "read_items n (skip_ws s) = Some (vs, r)" for s vs r
    using I [OF that] skip_ws_shorter by (rule order_trans)
  have M: "length r \<le> length s" if "read_members n s = Some (d, r)" for s d r using Suc that by blast
  have M': "length r \<le> length s" if "read_members n (skip_ws s) = Some (d, r)" for s d r
    using M [OF that] skip_ws_shorter by (rule order_trans)
  have V': "length r \<le> length s" if "read_value n (skip_ws s) = Some (v, r)" for s v r
    using V [OF that] skip_ws_shorter by (rule order_trans)
  have W: "length u < length s" if "skip_ws s = x # u" for s x u using that by (rule skip_ws_Cons_shorter)
  show ?case
  proof (intro conjI allI impI)
    fix s v r assume "read_value (Suc n) s = Some (v, r)"
    then show "length r \<le> length s"
      by (fastforce split: list.splits if_splits dest: I M W read_string_shorter read_atom_shorter)
  next
    fix s vs r assume "read_items (Suc n) s = Some (vs, r)"
    then show "length r \<le> length s"
      by (auto split: list.splits if_splits option.splits dest!: V W I')
  next
    fix s d r assume "read_members (Suc n) s = Some (d, r)"
    then show "length r \<le> length s"
      by (auto split: list.splits if_splits option.splits dest!: V' W M' read_string_shorter)
  qed
qed simp

lemmas read_shorter = read_all_shorter [THEN conjunct1, rule_format] read_all_shorter [THEN conjunct2, THEN conjunct1, rule_format]
  read_all_shorter [THEN conjunct2, THEN conjunct2, rule_format]

lemma one_more_fuel:
  "(\<forall>s. 2 * length s + 1 \<le> n \<longrightarrow> read_value (Suc n) s = read_value n s) \<and>
   (\<forall>s. 2 * length s + 2 \<le> n \<longrightarrow> read_items (Suc n) s = read_items n s) \<and>
   (\<forall>s. 2 * length s + 2 \<le> n \<longrightarrow> read_members (Suc n) s = read_members n s)"
proof (induction n)
  case (Suc n)
  have V: "read_value (Suc n) s = read_value n s" if "2 * length s + 1 \<le> n" for s using Suc that by blast
  have I: "read_items (Suc n) s = read_items n s" if "2 * length s + 2 \<le> n" for s using Suc that by blast
  have M: "read_members (Suc n) s = read_members n s" if "2 * length s + 2 \<le> n" for s using Suc that by blast
  show ?case
  proof (intro conjI allI impI)
    fix s :: string assume s: "2 * length s + 1 \<le> Suc n"
    show "read_value (Suc (Suc n)) s = read_value (Suc n) s"
    proof (cases s)
      case (Cons c r)
      have "read_items (Suc n) (x # u) = read_items n (x # u)" "read_members (Suc n) (x # u) = read_members n (x # u)"
        if "skip_ws r = x # u" for x u
        using skip_ws_Cons_shorter [OF that] s Cons by (intro I M; simp)+
      then show ?thesis unfolding Cons read_value.simps(2) by (auto simp del: read_items.simps read_members.simps split: list.split)
    qed simp
  next
    fix s :: string assume s: "2 * length s + 2 \<le> Suc n"
    have "read_items (Suc n) (skip_ws u) = read_items n (skip_ws u)"
      if "read_value n s = Some (v, r)" "skip_ws r = x # u" for v r x u
      using read_shorter(1) [OF that(1)] skip_ws_Cons_shorter [OF that(2)] skip_ws_shorter [of u] s by (intro I) linarith
    moreover have "read_value (Suc n) s = read_value n s" using s by (intro V) simp
    ultimately show "read_items (Suc (Suc n)) s = read_items (Suc n) s"
      unfolding read_items.simps(2) by (auto split: option.split list.split)
  next
    fix s :: string assume s: "2 * length s + 2 \<le> Suc n"
    show "read_members (Suc (Suc n)) s = read_members (Suc n) s"
    proof (cases s)
      case (Cons q r)
      have v: "read_value (Suc n) (skip_ws u) = read_value n (skip_ws u)"
        if "read_string r = Some (k, r1)" "skip_ws r1 = x # u" for k r1 x u
        using read_string_shorter [OF that(1)] skip_ws_Cons_shorter [OF that(2)] skip_ws_shorter [of u] s Cons by (intro V) simp
      moreover have "read_members (Suc n) (skip_ws w) = read_members n (skip_ws w)"
        if "read_string r = Some (k, r1)" "skip_ws r1 = x # u" "read_value n (skip_ws u) = Some (v, r2)" "skip_ws r2 = y # w" for k r1 x u v r2 y w
        using read_string_shorter [OF that(1)] skip_ws_Cons_shorter [OF that(2)] skip_ws_shorter [of u] read_shorter(1) [OF that(3)]
          skip_ws_Cons_shorter [OF that(4)] skip_ws_shorter [of w] s Cons by (intro M) simp
      ultimately show ?thesis unfolding Cons read_members.simps(2) by (auto split: option.split list.split)
    qed simp
  qed
qed simp

text \<open>More fuel than \<open>json_loads\<close> supplies gives the same: no text is refused for want of it.\<close>

lemma json_loads_has_fuel: "2 * length s + 1 \<le> n \<Longrightarrow> read_value n (skip_ws s) = read_value (2 * length s + 1) (skip_ws s)"
proof (induction n)
  case (Suc n)
  show ?case
  proof (cases "n = 2 * length s")
    case False
    then have "2 * length s + 1 \<le> n" using Suc.prems by simp
    then show ?thesis using Suc.IH one_more_fuel [of n] skip_ws_shorter [of s] by simp
  qed simp
qed simp

section \<open>Reading back what was written\<close>

text \<open>Strings of ASCII characters.\<close>

lemma hex_value_digit: "k < 16 \<Longrightarrow> hex_value (''0123456789abcdef'' ! k) = Some k"
proof -
  assume k: "k < 16"
  have "\<forall>k \<in> set [0..<16]. hex_value (''0123456789abcdef'' ! k) = Some k" by code_simp
  with k show ?thesis by simp
qed

lemma read_unicode_hex4: "n < 0xD800 \<Longrightarrow> read_unicode (hex4 n @ s) = Some (n, s)"
proof -
  assume n: "n < 0xD800"
  have "n div 16 div 16 = n div 256" "n div 256 div 16 = n div 4096" by (simp_all flip: div_mult2_eq)
  moreover have lt: "n div 4096 < 16" using n by (simp add: less_mult_imp_div_less)
  moreover from lt have top: "n div 4096 mod 16 = n div 4096" by simp
  moreover have "n div 16 * 16 + n mod 16 = n" "n div 16 div 16 * 16 + n div 16 mod 16 = n div 16"
    "n div 256 div 16 * 16 + n div 256 mod 16 = n div 256" by (rule div_mult_mod_eq)+
  ultimately have "n div 4096 * 4096 + n div 256 mod 16 * 256 + n div 16 mod 16 * 16 + n mod 16 = n" by linarith
  then have "four_hex (''0123456789abcdef'' ! (n div 4096 mod 16)) (''0123456789abcdef'' ! (n div 256 mod 16))
      (''0123456789abcdef'' ! (n div 16 mod 16)) (''0123456789abcdef'' ! (n mod 16)) = Some n"
    using hex_value_digit [OF lt] top by (simp add: four_hex_def hex_value_digit)
  then obtain a b c d where "hex4 n = [a, b, c, d]" "four_hex a b c d = Some n"
    by (simp add: hex4_def)
  then show ?thesis
    using n by (simp split: list.split option.split)
qed

lemma ascii_char_cases:
  fixes c :: char
  assumes "of_char c < (128 :: nat)"
  shows "utf8_bytes (of_char c) = [c]"
  using assms by (simp add: utf8_bytes_def)

lemma read_string_char:
  assumes "of_char c < (128 :: nat)"
  shows "read_string (json_char (of_char c) @ r) = map_option (\<lambda>(t, u). (c # t, u)) (read_string r)"
proof -
  let ?n = "of_char c :: nat"
  have b: "utf8_bytes ?n = [c]" by (rule ascii_char_cases [OF assms])
  have esc: "read_string (CHR 0x5C # e # r) = map_option (\<lambda>(t, u). (c # t, u)) (read_string r)"
    if "map_of short_escapes e = Some ?n" for e
  proof -
    have "e \<noteq> CHR ''u''" using that by (auto simp: short_escapes_def)
    with that b show ?thesis by (subst read_string.simps) simp
  qed
  have uni: "read_string (u_escape ?n @ r) = map_option (\<lambda>(t, u). (c # t, u)) (read_string r)"
    using assms b by (subst read_string.simps) (simp add: u_escape_def read_unicode_hex4)
  have plain: "read_string (c # r) = map_option (\<lambda>(t, u). (c # t, u)) (read_string r)"
    if "32 \<le> ?n" "?n \<noteq> 34" "?n \<noteq> 92"
    using that by (subst read_string.simps) auto
  show ?thesis
    using assms esc uni plain by (auto simp: json_char_def short_escapes_def)
qed

lemma code_points_ascii: "list_all (\<lambda>n. n < 128) ns \<Longrightarrow> code_points ns = ns"
  by (induction ns rule: code_points.induct) auto

lemma read_string_json: "ascii s \<Longrightarrow> read_string (tl (json_string s) @ r) = Some (s, r)"
proof -
  assume s: "ascii s"
  have cp: "code_points (map of_char s) = map of_char s"
    using s by (intro code_points_ascii) (simp add: ascii_def list_all_iff)
  have "read_string (concat (map json_char (map of_char s)) @ CHR 0x22 # r) = Some (s, r)"
    using s
  proof (induction s)
    case Nil
    then show ?case by (subst read_string.simps) simp
  next
    case (Cons c s)
    then show ?case by (simp add: read_string_char ascii_def)
  qed
  then show ?thesis by (simp add: json_string_def cp)
qed

text \<open>Numbers: the digits that \<open>str\<close> prints, followed by a delimiter.\<close>

definition delimited :: "string \<Rightarrow> bool" where
  "delimited r \<longleftrightarrow> r = [] \<or> hd r \<in> {CHR '','', CHR '']'', CHR ''}''}"

lemma dec_nat_first:
  assumes "n > 0"
  obtains c cs where "dec_nat n = c # cs" "c \<noteq> CHR ''0''"
proof -
  have "\<exists>c cs. dec_nat n = c # cs \<and> c \<noteq> CHR ''0''"
    using assms
  proof (induction n rule: dec_nat.induct)
    case (1 n)
    show ?case
    proof (cases "n < 10")
      case True
      then have "digit_char n = CHR ''0'' \<Longrightarrow> n = 0"
        using digit_char_props(2) [of n] digit_char_props(2) [of 0] by simp
      with True "1.prems" show ?thesis by (subst dec_nat.simps) auto
    next
      case False
      then have "0 < n div 10" by (simp add: div_greater_zero_iff)
      with False 1 obtain c cs where "dec_nat (n div 10) = c # cs" "c \<noteq> CHR ''0''" by auto
      with False show ?thesis by (subst dec_nat.simps) auto
    qed
  qed
  then show thesis using that by blast
qed

lemma dec_nat_all_digits: "\<forall>c \<in> set (dec_nat n). is_digit c"
  using dec_nat_digits digit_char_props(1) by blast

lemma digits_value_dec_nat: "digits_value (dec_nat n) = int n"
proof (induction n rule: dec_nat.induct)
  case (1 n)
  show ?case
  proof (cases "n < 10")
    case True
    then show ?thesis by (subst dec_nat.simps) (simp add: digits_value_def digit_char_props)
  next
    case False
    with 1 have "digits_value (dec_nat (n div 10)) = int (n div 10)" by simp
    moreover have "10 * int (n div 10) + int (n mod 10) = int n" by presburger
    ultimately show ?thesis
      using False by (subst dec_nat.simps) (simp add: digits_value_def digit_char_props)
  qed
qed

lemma delimited_facts:
  assumes "delimited r"
  shows "takeWhile is_digit r = []" "dropWhile is_digit r = r" "read_fraction r = ([], r)" "read_exponent r = (None, r)"
  using assms by (cases r; auto simp: delimited_def read_fraction_def read_exponent_def is_digit_def)+

lemma read_digits:
  assumes "delimited r"
  shows "\<exists>d ds. dec_nat n = d # ds \<and> is_digit d \<and>
    (if d = CHR ''0'' then ([d], ds @ r) else (takeWhile is_digit (d # ds @ r), dropWhile is_digit (d # ds @ r))) = (d # ds, r)"
proof (cases "n = 0")
  case True
  then show ?thesis by (simp add: dec_nat.simps is_digit_def)
next
  case False
  then obtain c cs where c: "dec_nat n = c # cs" "c \<noteq> CHR ''0''" by (metis dec_nat_first gr0I)
  moreover have "takeWhile is_digit (dec_nat n @ r) = dec_nat n" "dropWhile is_digit (dec_nat n @ r) = r"
    using dec_nat_all_digits [of n] delimited_facts [OF assms] by (simp_all add: takeWhile_append dropWhile_append)
  ultimately have "takeWhile is_digit (c # cs @ r) = c # cs" "dropWhile is_digit (c # cs @ r) = r" by simp_all
  with c dec_nat_all_digits [of n] show ?thesis
    by (intro exI [of _ c] exI [of _ cs] conjI) (simp_all del: takeWhile.simps dropWhile.simps)
qed

lemma read_number_dec_int:
  assumes "delimited r"
  shows "read_number (dec_int i @ r) = Some (PyInt i, r)"
proof -
  obtain d ds where d: "dec_nat (nat \<bar>i\<bar>) = d # ds" "is_digit d"
    "(if d = CHR ''0'' then ([d], ds @ r) else (takeWhile is_digit (d # ds @ r), dropWhile is_digit (d # ds @ r))) = (d # ds, r)"
    using read_digits [OF assms, of "nat \<bar>i\<bar>"] by blast
  have v: "digits_value (d # ds) = \<bar>i\<bar>" using digits_value_dec_nat [of "nat \<bar>i\<bar>"] d(1) by simp
  have m: "d \<noteq> CHR ''-''" using d(2) by (auto simp: is_digit_def)
  show ?thesis
  proof (cases "i < 0")
    case True
    then have "dec_int i = CHR ''-'' # d # ds" using d(1) by (simp add: dec_int_def)
    then show ?thesis
      using True d(2) v delimited_facts [OF assms] by (simp add: read_number_def d(3) del: takeWhile.simps dropWhile.simps)
  next
    case False
    then have "dec_int i = d # ds" using d(1) by (simp add: dec_int_def)
    then show ?thesis
      using False d(2) v m delimited_facts [OF assms] by (simp add: read_number_def d(3) del: takeWhile.simps dropWhile.simps)
  qed
qed

text \<open>Values without floats, with ASCII strings and distinct keys.\<close>

fun plain_json :: "pyval \<Rightarrow> bool" where
  "plain_json (PyFloat x) = False"
| "plain_json (PyStr s) = ascii s"
| "plain_json (PyList vs) = list_all plain_json vs"
| "plain_json (PyDict d) = (odict_ok d \<and> list_all (\<lambda>(k, v). ascii k \<and> plain_json v) d)"
| "plain_json v = True"

definition token_start :: "string \<Rightarrow> bool" where
  "token_start s \<longleftrightarrow> (case s of [] \<Rightarrow> False | c # _ \<Rightarrow> \<not> json_ws c \<and> c \<noteq> CHR '']'' \<and> c \<noteq> CHR ''}'')"

lemma skip_ws_token: "token_start s \<Longrightarrow> skip_ws (s @ r) = s @ r"
  by (cases s) (auto simp: token_start_def skip_ws_def)

lemma json_string_start: "json_string s = CHR 0x22 # tl (json_string s)"
  by (simp add: json_string_def)

lemma token_start_string: "token_start (json_string s @ r)"
  by (simp add: json_string_def token_start_def json_ws_def)

lemma dec_int_first:
  obtains c s where "dec_int i = c # s" "c = CHR ''-'' \<or> is_digit c" "c = CHR ''-'' \<longrightarrow> (\<exists>d t. s = d # t \<and> is_digit d)"
proof -
  obtain d t where "dec_nat (nat \<bar>i\<bar>) = d # t" "is_digit d"
    using dec_nat_all_digits [of "nat \<bar>i\<bar>"] by (cases "dec_nat (nat \<bar>i\<bar>)") auto
  moreover from this have "d \<noteq> CHR ''-''" by (auto simp: is_digit_def)
  ultimately show thesis using that by (cases "i < 0") (auto simp: dec_int_def)
qed

lemma token_start_dumps: "plain_json v \<Longrightarrow> token_start (json_dumps fr srt v)"
proof (cases v)
  case (PyInt i)
  obtain c s where "dec_int i = c # s" "c = CHR ''-'' \<or> is_digit c" by (rule dec_int_first)
  with PyInt show ?thesis by (auto simp: token_start_def json_ws_def is_digit_def)
qed (auto simp: token_start_def json_ws_def json_string_def)

lemma read_atom_dec_int:
  assumes "delimited r"
  shows "read_atom (dec_int i @ r) = Some (PyInt i, r)"
proof -
  obtain c s where c: "dec_int i = c # s" "c = CHR ''-'' \<or> is_digit c" "c = CHR ''-'' \<longrightarrow> (\<exists>d t. s = d # t \<and> is_digit d)"
    by (rule dec_int_first)
  have "c \<noteq> CHR ''n''" "c \<noteq> CHR ''t''" "c \<noteq> CHR ''f''" "c \<noteq> CHR ''N''" "c \<noteq> CHR ''I''"
    using c(2) by (auto simp: is_digit_def)
  moreover have "\<not> startswith (c # s @ r) ''-Infinity''"
    using c(3) by (auto simp: is_digit_def)
  ultimately have "find (\<lambda>(w, v). startswith (dec_int i @ r) w) word_values = None"
    by (simp add: word_values_def c(1))
  then show ?thesis by (simp add: read_atom_def read_number_dec_int [OF assms])
qed

lemma read_value_word:
  "read_value (Suc n) (''null'' @ r) = Some (PyNone, r)" "read_value (Suc n) (''true'' @ r) = Some (PyBool True, r)"
  "read_value (Suc n) (''false'' @ r) = Some (PyBool False, r)"
  by (simp_all add: read_atom_def word_values_def)

lemma read_value_int:
  assumes "delimited r"
  shows "read_value (Suc n) (dec_int i @ r) = Some (PyInt i, r)"
proof -
  obtain c s where c: "dec_int i = c # s" "c = CHR ''-'' \<or> is_digit c" by (rule dec_int_first)
  then have "c \<noteq> CHR 0x22" "c \<noteq> CHR ''[''" "c \<noteq> CHR ''{''" by (auto simp: is_digit_def)
  with c read_atom_dec_int [OF assms, of i] show ?thesis by simp
qed

text \<open>Lists and objects, given that their elements are read back.\<close>

lemma read_items_dumps:
  assumes "vs \<noteq> []" and "\<And>v. v \<in> set vs \<Longrightarrow> token_start (f v)"
    and "\<And>v n r. v \<in> set vs \<Longrightarrow> delimited r \<Longrightarrow> 2 * length (f v) \<le> n \<Longrightarrow> read_value n (f v @ r) = Some (v, r)"
    and "2 * length (join_with '', '' (map f vs)) + 1 \<le> n"
  shows "read_items n (join_with '', '' (map f vs) @ CHR '']'' # r) = Some (vs, r)"
  using assms
proof (induction vs arbitrary: n)
  case (Cons v vs)
  obtain m where n: "n = Suc m" using Cons.prems(4) by (cases n) auto
  show ?case
  proof (cases vs)
    case Nil
    then have "read_value m (f v @ CHR '']'' # r) = Some (v, CHR '']'' # r)"
      using Cons.prems n by (intro Cons.prems(3)) (auto simp: delimited_def)
    then show ?thesis using Nil by (simp add: n skip_ws_def json_ws_def)
  next
    case (Cons w ws)
    let ?rest = "join_with '', '' (map f vs)"
    have join: "join_with '', '' (f v # map f vs) = f v @ '', '' @ ?rest" using Cons by simp
    have t: "token_start (?rest @ CHR '']'' # r)"
    proof -
      have "token_start (f w)" using Cons.prems(2) Cons by simp
      then show ?thesis using Cons by (cases ws; cases "f w") (auto simp: token_start_def)
    qed
    have v: "read_value m (f v @ CHR '','' # CHR '' '' # ?rest @ CHR '']'' # r) = Some (v, CHR '','' # CHR '' '' # ?rest @ CHR '']'' # r)"
      using Cons.prems(3) [of v] Cons.prems(4) join n by (auto simp: delimited_def)
    have "2 * length ?rest + 1 \<le> m" using Cons.prems(4) join n by simp
    then have "read_items m (?rest @ CHR '']'' # r) = Some (vs, r)"
      using Cons Cons.prems by (intro Cons.IH) auto
    moreover have "skip_ws (CHR '' '' # ?rest @ CHR '']'' # r) = ?rest @ CHR '']'' # r"
      using skip_ws_token [OF t, of "[]"] by (simp add: skip_ws_def json_ws_def)
    ultimately show ?thesis
      using v by (simp add: join n skip_ws_def json_ws_def del: join_with.simps)
  qed
qed simp

lemma read_members_step:
  assumes "ascii k" and "token_start t" and "read_value m (t @ y # w) = Some (v, y # w)" and "\<not> json_ws y"
  shows "read_members (Suc m) (json_string k @ CHR '':'' # CHR '' '' # t @ y # w) =
    (if y = CHR ''}'' then Some ([(k, v)], w)
     else if y = CHR '','' then map_option (\<lambda>(d, z). ((k, v) # d, z)) (read_members m (skip_ws w)) else None)"
proof -
  obtain u where u: "json_string k = CHR 0x22 # u" using json_string_start by blast
  have "read_string (u @ q) = Some (k, q)" for q using read_string_json [OF assms(1), of q] u by simp
  moreover have "skip_ws (CHR '':'' # q) = CHR '':'' # q" "skip_ws (y # w) = y # w" for q
    using assms(4) by (simp_all add: skip_ws_def json_ws_def)
  moreover have "skip_ws (CHR '' '' # t @ y # w) = t @ y # w"
    using skip_ws_token [OF assms(2), of "y # w"] by (simp add: skip_ws_def json_ws_def)
  ultimately show ?thesis using u assms(3) by simp
qed

lemma read_members_dumps:
  assumes "d \<noteq> []" and "\<And>k v. (k, v) \<in> set d \<Longrightarrow> ascii k \<and> token_start (f v)"
    and "\<And>k v n r. (k, v) \<in> set d \<Longrightarrow> delimited r \<Longrightarrow> 2 * length (f v) \<le> n \<Longrightarrow> read_value n (f v @ r) = Some (v, r)"
    and "2 * length (join_with '', '' (map (\<lambda>(k, v). json_string k @ CHR '':'' # CHR '' '' # f v) d)) + 1 \<le> n"
  shows "read_members n (join_with '', '' (map (\<lambda>(k, v). json_string k @ CHR '':'' # CHR '' '' # f v) d) @ CHR ''}'' # r) = Some (d, r)"
  using assms
proof (induction d arbitrary: n)
  case (Cons kv d)
  obtain k v where kv: "kv = (k, v)" by (cases kv)
  let ?g = "\<lambda>(k, v). json_string k @ CHR '':'' # CHR '' '' # f v"
  obtain m where n: "n = Suc m" using Cons.prems(4) by (cases n) auto
  have kt: "ascii k" "token_start (f v)" using Cons.prems(2) [of k v] by (auto simp: kv)
  have fits: "2 * length (f v) \<le> m" using Cons.prems(4) n by (cases d) (auto simp: kv)
  have v: "read_value m (f v @ q) = Some (v, q)" if "delimited q" for q
    using that fits by (intro Cons.prems(3) [of k]) (simp_all add: kv)
  show ?case
  proof (cases d)
    case Nil
    then show ?thesis
      using read_members_step [OF kt v, of "CHR ''}''" r] by (simp add: n kv delimited_def json_ws_def del: read_members.simps)
  next
    case (Cons w ws)
    let ?rest = "join_with '', '' (map ?g d)"
    have join: "join_with '', '' (map ?g (kv # d)) @ CHR ''}'' # r =
        json_string k @ CHR '':'' # CHR '' '' # f v @ CHR '','' # CHR '' '' # ?rest @ CHR ''}'' # r"
      using Cons by (simp add: kv)
    have "token_start (?rest @ CHR ''}'' # r)"
      using Cons by (cases w; cases ws) (simp_all add: token_start_string)
    from skip_ws_token [OF this, of "[]"]
    have skip: "skip_ws (CHR '' '' # ?rest @ CHR ''}'' # r) = ?rest @ CHR ''}'' # r"
      by (simp add: skip_ws_def json_ws_def)
    have "2 * length ?rest + 1 \<le> m" using Cons.prems(4) Cons n by (simp add: kv)
    then have "read_members m (?rest @ CHR ''}'' # r) = Some (d, r)"
    proof (rule Cons.IH [rotated -1])
      show "d \<noteq> []" using Cons by simp
    next
      fix k' v' assume "(k', v') \<in> set d"
      then show "ascii k' \<and> token_start (f v')" by (intro Cons.prems(2)) simp
    next
      fix k' v' n' q assume "(k', v') \<in> set d" "delimited q" "2 * length (f v') \<le> n'"
      then show "read_value n' (f v' @ q) = Some (v', q)" by (intro Cons.prems(3) [of k']) simp_all
    qed
    then show ?thesis
      unfolding join n
      by (subst read_members_step [OF kt v]) (simp_all add: delimited_def json_ws_def skip kv del: read_members.simps)
  qed
qed simp

lemma dupdate_Nil: "odict_ok d \<Longrightarrow> dupdate [] d = d"
proof -
  have "odict_ok (e @ d) \<Longrightarrow> fold (\<lambda>(k, v) e. dset k v e) d e = e @ d" for e
  proof (induction d arbitrary: e)
    case (Cons x d)
    obtain k v where x: "x = (k, v)" by (cases x)
    have "dset k v e = e @ [(k, v)]"
      using Cons.prems by (induction e) (auto simp: x)
    with Cons show ?case by (simp add: x)
  qed simp
  from this [of "[]"] show "odict_ok d \<Longrightarrow> dupdate [] d = d" by (simp add: dupdate_def)
qed

lemma read_value_dumps:
  assumes "plain_json v" and "delimited r" and "2 * length (json_dumps fr False v) \<le> n"
  shows "read_value n (json_dumps fr False v @ r) = Some (v, r)"
  using assms
proof (induction v arbitrary: r n)
  case PyNone
  then show ?case using read_value_word(1) [of "n - 1" r] by (cases n) simp_all
next
  case (PyBool b)
  then show ?case using read_value_word(2,3) [of "n - 1" r] by (cases n; cases b) simp_all
next
  case (PyInt i)
  obtain c s where "dec_int i = c # s" by (rule dec_int_first)
  with PyInt obtain m where "n = Suc m" by (cases n) auto
  with PyInt show ?case by (simp add: read_value_int del: read_value.simps)
next
  case (PyStr s)
  then obtain m where "n = Suc m" by (cases n) (auto simp: json_string_def)
  moreover obtain u where u: "json_string s = CHR 0x22 # u" using json_string_start by blast
  ultimately show ?case using PyStr.prems(1) read_string_json [of s r] by simp
next
  case (PyList vs)
  let ?f = "json_dumps fr False"
  obtain m where n: "n = Suc m" using PyList.prems(3) by (cases n) auto
  show ?case
  proof (cases "vs = []")
    case True
    then show ?thesis by (simp add: n skip_ws_def json_ws_def)
  next
    case False
    have ts: "token_start (?f v)" if "v \<in> set vs" for v
      using PyList.prems(1) that by (auto simp: list_all_iff intro: token_start_dumps)
    have "read_items m (join_with '', '' (map ?f vs) @ CHR '']'' # r) = Some (vs, r)"
      using PyList n False ts by (intro read_items_dumps) (auto simp: list_all_iff)
    moreover obtain c s where "join_with '', '' (map ?f vs) = c # s" "token_start (c # s)"
    proof -
      obtain w ws where vs: "vs = w # ws" using False by (cases vs) auto
      with ts [of w] show thesis using that by (cases ws; cases "?f w") (auto simp: token_start_def)
    qed
    ultimately show ?thesis
      using skip_ws_token [of "c # s" "CHR '']'' # r"] by (simp add: n token_start_def)
  qed
next
  case (PyDict d)
  let ?f = "json_dumps fr False"
  let ?g = "\<lambda>(k, v). json_string k @ CHR '':'' # CHR '' '' # ?f v"
  obtain m where n: "n = Suc m" using PyDict.prems(3) by (cases n) auto
  show ?case
  proof (cases "d = []")
    case True
    then show ?thesis by (simp add: n skip_ws_def json_ws_def)
  next
    case False
    have ts: "ascii k \<and> token_start (?f v)" if "(k, v) \<in> set d" for k v
      using PyDict.prems(1) that by (auto simp: list_all_iff intro: token_start_dumps)
    have "read_members m (join_with '', '' (map ?g d) @ CHR ''}'' # r) = Some (d, r)"
    proof (rule read_members_dumps)
      fix k v n q assume kv: "(k, v) \<in> set d" and q: "delimited q" "2 * length (?f v) \<le> n"
      have "plain_json v" using PyDict.prems(1) kv by (auto simp: list_all_iff)
      with PyDict.IH [of "(k, v)" v] kv q show "read_value n (?f v @ q) = Some (v, q)" by auto
    qed (use False ts PyDict.prems n in auto)
    moreover obtain s where "join_with '', '' (map ?g d) = CHR 0x22 # s"
    proof -
      obtain k v ws where "d = (k, v) # ws" using False by (cases d) auto
      then show thesis using that by (cases ws) (auto simp: json_string_def)
    qed
    moreover have "dupdate [] d = d" using PyDict.prems(1) by (intro dupdate_Nil) simp
    ultimately show ?thesis by (simp add: n skip_ws_def json_ws_def)
  qed
qed simp

text \<open>What \<open>json.dumps\<close> writes, \<open>json.loads\<close> reads back.\<close>

lemma json_loads_dumps:
  assumes "plain_json v"
  shows "json_loads (json_dumps fr False v) = Some v"
proof -
  let ?s = "json_dumps fr False v"
  have ts: "token_start ?s" by (rule token_start_dumps [OF assms])
  have "read_value (2 * length ?s + 1) (?s @ []) = Some (v, [])"
    by (rule read_value_dumps [OF assms]) (simp_all add: delimited_def)
  moreover have "\<not> startswith ?s [CHR 0xEF, CHR 0xBB, CHR 0xBF]"
  proof (cases v)
    case (PyInt i)
    obtain c s where "dec_int i = c # s" "c = CHR ''-'' \<or> is_digit c" by (rule dec_int_first)
    with PyInt show ?thesis by (auto simp: is_digit_def)
  qed (use assms in \<open>auto simp: json_string_def\<close>)
  ultimately show ?thesis
    using skip_ws_token [OF ts, of "[]"] by (simp add: json_loads_def skip_ws_def)
qed

text \<open>The text is ASCII, so it survives the encoding to UTF-8 and back.\<close>

lemma ascii_hex4: "ascii (hex4 n)"
  unfolding ascii_def
proof
  fix c assume "c \<in> set (hex4 n)"
  then obtain i where c: "c = ''0123456789abcdef'' ! (n div 16 ^ i mod 16)"
    unfolding hex4_def set_map by blast
  have "''0123456789abcdef'' ! (n div 16 ^ i mod 16) \<in> set ''0123456789abcdef''" by (rule nth_mem) simp
  with c show "(of_char c :: nat) < 128" by auto
qed

lemma ascii_json_char: "ascii (json_char n)"
  using ascii_hex4 by (auto simp: json_char_def u_escape_def)

lemma ascii_json_string: "ascii (json_string s)"
  using ascii_json_char by (auto simp: json_string_def ascii_def)

lemma ascii_join_with: "ascii sep \<Longrightarrow> \<forall>w \<in> set ws. ascii w \<Longrightarrow> ascii (join_with sep ws)"
  by (induction sep ws rule: join_with.induct) auto

lemma ascii_json_dumps: "plain_json v \<Longrightarrow> ascii (json_dumps fr False v)"
proof (induction v)
  case (PyList vs)
  then have "ascii (join_with '', '' (map (json_dumps fr False) vs))"
    by (intro ascii_join_with) (auto simp: list_all_iff)
  then show ?case by simp
next
  case (PyDict d)
  have "ascii (json_dumps fr False v)" if "(k, v) \<in> set d" for k v
    using PyDict.IH [of "(k, v)" v] PyDict.prems that by (auto simp: list_all_iff)
  then have "ascii (join_with '', '' (map (\<lambda>(k, v). json_string k @ '': '' @ json_dumps fr False v) d))"
    by (intro ascii_join_with) (auto simp: ascii_json_string)
  then show ?case by simp
qed (auto simp: ascii_json_string ascii_dec_int)

end
