(* ===== verification/HttpUtils.thy ===== *)
theory HttpUtils
  imports Requests Obs JsonReader
begin

text \<open>
  \<open>common/http_utils.py\<close>, one request: the routes, the body, the answer, and \<open>_dispatch\<close> around the
  handler of the service. The state of a service is its life-cycle record (\<open>_ServiceState\<close>), the
  correlation id of the serving thread, the answers and log lines it has written and the state
  \<open>app\<close> of the application, on which the handlers work. The concurrent life of a service is in
  the theory \<open>ServiceLife\<close>.
\<close>

section \<open>The service record\<close>

record service =
  service_name :: string
  started_at :: time
  live :: bool
  ready :: bool
  draining :: bool
  inflight :: int

definition new_service :: "string \<Rightarrow> time \<Rightarrow> service" where
  "new_service name now = \<lparr>service_name = name, started_at = now, live = True, ready = False, draining = False, inflight = 0\<rparr>"

definition enter_request :: "service \<Rightarrow> service" where
  "enter_request s = s\<lparr>inflight := inflight s + 1\<rparr>"

definition exit_request :: "service \<Rightarrow> service" where
  "exit_request s = s\<lparr>inflight := max 0 (inflight s - 1)\<rparr>"

text \<open>
  \<open>readiness()\<close>: \<open>health\<close> is the outcome of \<open>get_backend().health()\<close>, where an exception is its
  text.
\<close>

definition readiness :: "service \<Rightarrow> time \<Rightarrow> string + bool \<times> string \<Rightarrow> bool \<times> dict" where
  "readiness s now health =
     (let ok = ready s \<and> \<not> draining s;
          checks = (if draining s then [(''draining'', PyStr ''shutting down; not accepting new work'')] else []);
          (ok', detail) = (case health of
             Inr (store_ok, text) \<Rightarrow> (ok \<and> store_ok, text)
           | Inl e \<Rightarrow> (False, ''unavailable: '' @ e))
      in (ok', [(''service'', PyStr (service_name s)), (''uptime_seconds'', PyFloat (Fin (round1 (now - started_at s)))),
                (''inflight_requests'', PyInt (inflight s)),
                (''checks'', PyDict (checks @ [(''state_store'', PyStr detail)]))]))"

definition builtin_health :: "service option \<Rightarrow> time \<Rightarrow> response" where
  "builtin_health state now =
     (case state of
        None \<Rightarrow> (200, PyDict [(''status'', PyStr ''ok'')])
      | Some s \<Rightarrow> (if live s then 200 else 503,
          PyDict [(''status'', PyStr (if live s then ''ok'' else ''unhealthy'')), (''service'', PyStr (service_name s)),
                  (''uptime_seconds'', PyFloat (Fin (round1 (now - started_at s))))]))"

definition builtin_ready :: "service option \<Rightarrow> time \<Rightarrow> string + bool \<times> string \<Rightarrow> response" where
  "builtin_ready state now health =
     (case state of
        None \<Rightarrow> (200, PyDict [(''status'', PyStr ''ready'')])
      | Some s \<Rightarrow>
          (case readiness s now health of
             (ok, detail) \<Rightarrow> (if ok then 200 else 503,
               PyDict (dset ''status'' (PyStr (if ok then ''ready'' else ''not_ready'')) detail))))"

section \<open>Requests and answers\<close>

text \<open>What the socket delivers: \<open>wire\<close> is all that the client sends behind the headers.\<close>

record http_request =
  verb :: string
  raw_path :: string
  hdr_correlation :: "string option"
  content_length :: "string option"
  wire :: string

record sent =
  status :: int
  headers :: "(string \<times> string) list"
  payload :: string

definition read_json_body :: "string option \<Rightarrow> string \<Rightarrow> pyval res" where
  "read_json_body len sock =
     ebind (case len of
              None \<Rightarrow> Inr 0
            | Some s \<Rightarrow> if s = [] then Inr 0 else (case py_int s of None \<Rightarrow> Inl ValueError | Some n \<Rightarrow> Inr n)) (\<lambda>n.
     if n = 0 then Inr (PyDict [])
     else if n < -1 then Inl ValueError
     else
       let raw = (if n = -1 then sock else take (nat n) sock) in
       Inr (case Option.bind (utf8_decode raw) json_loads of None \<Rightarrow> PyDict [] | Some v \<Rightarrow> v))"

definition send_json :: "prims \<Rightarrow> thread_id \<Rightarrow> response \<Rightarrow> sent" where
  "send_json P th r =
     (let body = json_dumps (float_repr P) False (snd r) in
      \<lparr>status = fst r,
       headers = [(''Content-Type'', ''application/json''), (''Content-Length'', dec_int (int (length body))),
                  (''X-Request-Id'', get_correlation_id th)],
       payload = body\<rparr>)"

section \<open>Routes\<close>

type_synonym route = "(string \<times> string) \<times> string"

definition is_variable :: "string \<Rightarrow> bool" where
  "is_variable p \<longleftrightarrow> startswith p ''{'' \<and> endswith p ''}''"

text \<open>The parameters of one pattern, \<open>None\<close> at the first segment that differs.\<close>

fun match_parts :: "string list \<Rightarrow> string list \<Rightarrow> (string, string) odict \<Rightarrow> (string, string) odict option" where
  "match_parts (p # ps) (u # us) params =
     (if is_variable p then match_parts ps us (AList.update (butlast (tl p)) u params)
      else if p = u then match_parts ps us params else None)"
| "match_parts _ _ params = Some params"

definition parts :: "string \<Rightarrow> string list" where
  "parts path = split_on (CHR ''/'') (strip_char (CHR ''/'') path)"

fun match_route :: "route list \<Rightarrow> string \<Rightarrow> string \<Rightarrow> (string \<times> (string, string) odict) option" where
  "match_route [] m path = None"
| "match_route (((m', pattern), name) # rs) m path =
     (if m' \<noteq> m \<or> length (parts pattern) \<noteq> length (parts path) then match_route rs m path
      else case match_parts (parts pattern) (parts path) [] of
        Some params \<Rightarrow> Some (name, params)
      | None \<Rightarrow> match_route rs m path)"

section \<open>Dispatch\<close>

record 'a server =
  life :: "service option"
  thread :: thread_id
  answers :: "sent list"
  log_lines :: "(bool \<times> string) list"
  app :: 'a

text \<open>
  What one request brings besides its text: the random id, the readings of the clock, the clock as
  text, the process id, and the texts that Python prints for an exception.
\<close>

record surroundings =
  req_uuid :: string
  req_clock :: "nat \<Rightarrow> time"
  req_stamp :: string
  req_pid :: int
  exn_repr :: "exn \<Rightarrow> string"
  exn_str :: "exn \<Rightarrow> string"

definition answer :: "prims \<Rightarrow> response \<Rightarrow> ('a server, unit) op" where
  "answer P r s = (Inr (), s\<lparr>answers := answers s @ [send_json P (thread s) r]\<rparr>)"

definition put_log :: "prims \<Rightarrow> config \<Rightarrow> surroundings \<Rightarrow> string \<Rightarrow> string \<Rightarrow> string \<Rightarrow> dict \<Rightarrow> ('a server, unit) op" where
  "put_log P cfg q lev srv event given s =
     (Inr (), case obs_log P cfg (req_stamp q) (req_pid q) (thread s) lev srv event given of
        None \<Rightarrow> s | Some l \<Rightarrow> s\<lparr>log_lines := log_lines s @ [l]\<rparr>)"

definition service_label :: "service option \<Rightarrow> string" where
  "service_label state = (case state of None \<Rightarrow> ''service'' | Some s \<Rightarrow> service_name s)"

text \<open>The call of the handler: any exception of the code becomes a 500 with a generic body.\<close>

definition guarded ::
  "prims \<Rightarrow> config \<Rightarrow> surroundings \<Rightarrow> string \<Rightarrow> string \<Rightarrow> ('a, response) op \<Rightarrow> ('a server, response) op" where
  "guarded P cfg q path meth handler s =
     (case on_part app (\<lambda>a s. s\<lparr>app := a\<rparr>) handler s of
        (Inr r, s1) \<Rightarrow> (Inr r, s1)
      | (Inl Unmodelled, s1) \<Rightarrow> (Inl Unmodelled, s1)
      | (Inl x, s1) \<Rightarrow>
          obind (put_log P cfg q ''ERROR'' (service_label (life s1)) ''unhandled_handler_exception''
                  [(''path'', PyStr path), (''method'', PyStr meth), (''error'', PyStr (exn_repr q x))]) (\<lambda>_.
            oret (500, PyDict [(''error'', PyStr ''internal_error''),
                               (''correlation_id'', PyStr (get_correlation_id (thread s1)))])) s1)"

text \<open>The application of one service: its routes, its handlers, and the health of its store.\<close>

record 'a application =
  routes :: "route list"
  handlers :: "string \<Rightarrow> (string, string) odict \<Rightarrow> pyval \<Rightarrow> ('a, response) op"
  store_health :: "('a, bool \<times> string) op"

definition check_ready :: "'a application \<Rightarrow> surroundings \<Rightarrow> ('a server, response) op" where
  "check_ready A q s =
     (case life s of
        None \<Rightarrow> (Inr (builtin_ready None (req_clock q 1) (Inl [])), s)
      | Some st \<Rightarrow>
          (case store_health A (app s) of
             (r, a) \<Rightarrow> (Inr (builtin_ready (Some st) (req_clock q 1)
                (case r of Inr h \<Rightarrow> Inr h | Inl x \<Rightarrow> Inl (exn_str q x))), s\<lparr>app := a\<rparr>)))"

definition handle_request ::
  "prims \<Rightarrow> config \<Rightarrow> surroundings \<Rightarrow> 'a application \<Rightarrow> http_request \<Rightarrow> ('a server, unit) op" where
  "handle_request P cfg q A req =
     (let path = hd (split_on (CHR ''?'') (raw_path req)); m = verb req in
      if m = ''GET'' \<and> path = ''/health'' \<and> (''GET'', ''/health'') \<notin> fst ` set (routes A) then
        (\<lambda>s. answer P (builtin_health (life s) (req_clock q 1)) s)
      else if m = ''GET'' \<and> path = ''/ready'' \<and> (''GET'', ''/ready'') \<notin> fst ` set (routes A) then
        obind (check_ready A q) (answer P)
      else (\<lambda>s.
        if (case life s of None \<Rightarrow> False | Some st \<Rightarrow> draining st) then
          answer P (503, error_body ''server_shutting_down'') s
        else (case match_route (routes A) m path of
            None \<Rightarrow> answer P (404, PyDict [(''error'', PyStr ''not_found''), (''path'', PyStr path)]) s
          | Some (name, params) \<Rightarrow>
              obind (olift (if m \<in> {''POST'', ''PUT''} then read_json_body (content_length req) (wire req) else Inr (PyDict []))) (\<lambda>body.
              obind (guarded P cfg q path m (handlers A name params body)) (\<lambda>r.
              obind (answer P r) (\<lambda>_.
              if path \<in> {''/health'', ''/ready''} then oret ()
              else put_log P cfg q ''DEBUG'' (service_label (life s)) ''request''
                [(''method'', PyStr m), (''path'', PyStr path), (''status'', PyInt (fst r)),
                 (''duration_ms'', PyFloat (Fin (round1 ((req_clock q 2 - req_clock q 0) * 1000))))]))) s)))"

text \<open>\<open>_dispatch\<close>: the exit at the end happens whatever the request did.\<close>

definition dispatch ::
  "prims \<Rightarrow> config \<Rightarrow> surroundings \<Rightarrow> 'a application \<Rightarrow> http_request \<Rightarrow> ('a server, unit) op" where
  "dispatch P cfg q A req s =
     (let (_, th) = set_correlation_id (req_uuid q) (case hdr_correlation req of None \<Rightarrow> [] | Some v \<Rightarrow> v) (thread s);
          (r, s1) = handle_request P cfg q A req (s\<lparr>thread := th, life := map_option enter_request (life s)\<rparr>)
      in (r, s1\<lparr>life := map_option exit_request (life s1), thread := clear_correlation_id (thread s1)\<rparr>))"

definition do_GET :: "prims \<Rightarrow> config \<Rightarrow> surroundings \<Rightarrow> 'a application \<Rightarrow> http_request \<Rightarrow> ('a server, unit) op" where
  "do_GET P cfg q A req = dispatch P cfg q A (req\<lparr>verb := ''GET''\<rparr>)"

definition do_POST :: "prims \<Rightarrow> config \<Rightarrow> surroundings \<Rightarrow> 'a application \<Rightarrow> http_request \<Rightarrow> ('a server, unit) op" where
  "do_POST P cfg q A req = dispatch P cfg q A (req\<lparr>verb := ''POST''\<rparr>)"

section \<open>What a request leaves behind\<close>

text \<open>
  From \<open>s\<close> to \<open>s'\<close> the answers \<open>rs\<close> were sent, and neither the life cycle nor the thread changed.
\<close>

definition advanced :: "'a server \<Rightarrow> sent list \<Rightarrow> 'a server \<Rightarrow> bool" where
  "advanced s rs s' \<longleftrightarrow> life s' = life s \<and> thread s' = thread s \<and> answers s' = answers s @ rs"

abbreviation path_of :: "http_request \<Rightarrow> string" where
  "path_of req \<equiv> hd (split_on (CHR ''?'') (raw_path req))"

text \<open>The handler that the request selects does not leave the model, whatever the body is.\<close>

definition modelled :: "'a application \<Rightarrow> http_request \<Rightarrow> 'a \<Rightarrow> bool" where
  "modelled A req a \<longleftrightarrow> (\<forall>name params body. match_route (routes A) (verb req) (path_of req) = Some (name, params) \<longrightarrow>
     fst (handlers A name params body a) \<noteq> Inl Unmodelled)"

lemma advanced_trans: "advanced s rs t \<Longrightarrow> advanced t rs' u \<Longrightarrow> advanced s (rs @ rs') u"
  by (simp add: advanced_def)

lemma put_log_lines: "\<exists>ls. put_log P cfg q lev srv event given s = (Inr (), s\<lparr>log_lines := log_lines s @ ls\<rparr>)"
  by (cases "obs_log P cfg (req_stamp q) (req_pid q) (thread s) lev srv event given")
    (auto simp: put_log_def intro: exI [of _ "[]"])

lemma put_log_advanced: "\<exists>s'. put_log P cfg q lev srv event given s = (Inr (), s') \<and> advanced s [] s'"
  by (simp add: put_log_def advanced_def split: option.splits)

lemma answer_advanced: "\<exists>s'. answer P r s = (Inr (), s') \<and> advanced s [send_json P (thread s) r] s'"
  by (simp add: answer_def advanced_def)

lemma guarded_advanced:
  assumes "fst (handler (app s)) \<noteq> Inl Unmodelled"
  shows "\<exists>r s'. guarded P cfg q path meth handler s = (Inr r, s') \<and> advanced s [] s'"
proof -
  obtain h a where h: "handler (app s) = (h, a)" by fastforce
  have part: "on_part app (\<lambda>a s. s\<lparr>app := a\<rparr>) handler s = (h, s\<lparr>app := a\<rparr>)" by (simp add: on_part_def h)
  show ?thesis
  proof (cases h)
    case (Inr b)
    then show ?thesis by (simp add: guarded_def part advanced_def)
  next
    case (Inl x)
    obtain s' where l: "put_log P cfg q ''ERROR'' (service_label (life s)) ''unhandled_handler_exception''
        [(''path'', PyStr path), (''method'', PyStr meth), (''error'', PyStr (exn_repr q x))] (s\<lparr>app := a\<rparr>) = (Inr (), s')"
      "advanced (s\<lparr>app := a\<rparr>) [] s'"
      using put_log_advanced by blast
    with assms h Inl show ?thesis
      by (cases x) (auto simp: guarded_def part obind_def oret_def advanced_def)
  qed
qed

lemma check_ready_advanced: "\<exists>r s'. check_ready A q s = (Inr r, s') \<and> advanced s [] s'"
  by (cases "life s"; cases "store_health A (app s)") (auto simp: check_ready_def advanced_def)

text \<open>How a request is served, once its body could be read.\<close>

definition finish_request ::
  "prims \<Rightarrow> config \<Rightarrow> surroundings \<Rightarrow> http_request \<Rightarrow> string \<Rightarrow> string \<Rightarrow> response \<Rightarrow> ('a server, unit) op" where
  "finish_request P cfg q req path srv r =
     (if path \<in> {''/health'', ''/ready''} then oret ()
      else put_log P cfg q ''DEBUG'' srv ''request''
        [(''method'', PyStr (verb req)), (''path'', PyStr path), (''status'', PyInt (fst r)),
         (''duration_ms'', PyFloat (Fin (round1 ((req_clock q 2 - req_clock q 0) * 1000))))])"

lemma finish_request_lines:
  "\<exists>ls. finish_request P cfg q req path srv r s = (Inr (), s\<lparr>log_lines := log_lines s @ ls\<rparr>)"
  using put_log_lines by (auto simp: finish_request_def oret_def intro: exI [of _ "[]"])

lemma finish_request_advanced: "\<exists>s'. finish_request P cfg q req path srv r s = (Inr (), s') \<and> advanced s [] s'"
  using put_log_advanced by (auto simp: finish_request_def oret_def advanced_def)

definition own_endpoint :: "'a application \<Rightarrow> http_request \<Rightarrow> string \<Rightarrow> bool" where
  "own_endpoint A req path \<longleftrightarrow> verb req = ''GET'' \<and> path_of req = path \<and> (''GET'', path) \<notin> fst ` set (routes A)"

definition is_draining :: "'a server \<Rightarrow> bool" where
  "is_draining s \<longleftrightarrow> (case life s of None \<Rightarrow> False | Some st \<Rightarrow> draining st)"

lemma handle_request_eq:
  "own_endpoint A req ''/health'' \<Longrightarrow>
     handle_request P cfg q A req s = answer P (builtin_health (life s) (req_clock q 1)) s"
  "\<not> own_endpoint A req ''/health'' \<Longrightarrow> own_endpoint A req ''/ready'' \<Longrightarrow>
     handle_request P cfg q A req s = obind (check_ready A q) (answer P) s"
  "\<not> own_endpoint A req ''/health'' \<Longrightarrow> \<not> own_endpoint A req ''/ready'' \<Longrightarrow> is_draining s \<Longrightarrow>
     handle_request P cfg q A req s = answer P (503, error_body ''server_shutting_down'') s"
  "\<not> own_endpoint A req ''/health'' \<Longrightarrow> \<not> own_endpoint A req ''/ready'' \<Longrightarrow> \<not> is_draining s \<Longrightarrow>
     handle_request P cfg q A req s =
       (case match_route (routes A) (verb req) (path_of req) of
          None \<Rightarrow> answer P (404, PyDict [(''error'', PyStr ''not_found''), (''path'', PyStr (path_of req))]) s
        | Some (name, params) \<Rightarrow>
            obind (olift (if verb req \<in> {''POST'', ''PUT''} then read_json_body (content_length req) (wire req) else Inr (PyDict []))) (\<lambda>body.
            obind (guarded P cfg q (path_of req) (verb req) (handlers A name params body)) (\<lambda>r.
            obind (answer P r) (\<lambda>_. finish_request P cfg q req (path_of req) (service_label (life s)) r))) s)"
  by (simp_all only: handle_request_def Let_def own_endpoint_def is_draining_def finish_request_def if_True if_False
      simp_thms)

lemma obind_answer_advanced:
  assumes "\<exists>r s1. m s = (Inr r, s1) \<and> advanced s [] s1"
    and "\<And>r t. \<exists>t'. f r t = (Inr (), t') \<and> advanced t [] t'"
  shows "\<exists>resp s'. obind m (\<lambda>r. obind (answer P r) (\<lambda>_. f r)) s = (Inr (), s') \<and> advanced s [send_json P (thread s) resp] s'"
proof -
  obtain r s1 where s1: "m s = (Inr r, s1)" "advanced s [] s1" using assms(1) by blast
  obtain s2 where s2: "answer P r s1 = (Inr (), s2)" "advanced s1 [send_json P (thread s1) r] s2"
    using answer_advanced by blast
  obtain s3 where s3: "f r s2 = (Inr (), s3)" "advanced s2 [] s3" using assms(2) by blast
  have "advanced s [send_json P (thread s) r] s3"
    using advanced_trans [OF advanced_trans [OF s1(2) s2(2)] s3(2)] s1(2) by (simp add: advanced_def)
  with s1 s2 s3 show ?thesis by (intro exI [of _ r] exI [of _ s3]) (simp add: obind_def)
qed

lemma handle_request_answers:
  assumes "modelled A req (app s)" and "verb req \<in> {''POST'', ''PUT''} \<Longrightarrow> \<exists>v. read_json_body (content_length req) (wire req) = Inr v"
  shows "\<exists>resp s'. handle_request P cfg q A req s = (Inr (), s') \<and> advanced s [send_json P (thread s) resp] s'"
proof -
  have ready: "obind (check_ready A q) (answer P) s = obind (check_ready A q) (\<lambda>r. obind (answer P r) (\<lambda>_. oret ())) s"
    by (simp add: obind_def answer_def oret_def split: prod.splits sum.splits)
  have direct: "\<exists>resp' s'. answer P resp s = (Inr (), s') \<and> advanced s [send_json P (thread s) resp'] s'" for resp
    using answer_advanced by blast
  show ?thesis
  proof (cases "own_endpoint A req ''/health''")
    case True
    then show ?thesis using direct by (simp add: handle_request_eq(1))
  next
    case h: False
    show ?thesis
    proof (cases "own_endpoint A req ''/ready''")
      case True
      then show ?thesis
        using obind_answer_advanced [where f = "\<lambda>_. oret ()" and P = P and m = "check_ready A q" and s = s, OF check_ready_advanced]
        by (simp add: handle_request_eq(2) [OF h] ready oret_def advanced_def)
    next
      case r: False
      show ?thesis
      proof (cases "is_draining s \<or> match_route (routes A) (verb req) (path_of req) = None")
        case True
        then show ?thesis using direct by (cases "is_draining s") (auto simp: handle_request_eq(3,4) [OF h r])
      next
        case False
        then obtain name params where m: "match_route (routes A) (verb req) (path_of req) = Some (name, params)" by auto
        obtain body where "(if verb req \<in> {''POST'', ''PUT''} then read_json_body (content_length req) (wire req) else Inr (PyDict [])) = Inr body"
          using assms(2) by (cases "verb req \<in> {''POST'', ''PUT''}") (auto simp del: insert_iff)
        with False m have run: "handle_request P cfg q A req s =
            obind (guarded P cfg q (path_of req) (verb req) (handlers A name params body)) (\<lambda>r.
            obind (answer P r) (\<lambda>_. finish_request P cfg q req (path_of req) (service_label (life s)) r)) s"
          by (simp add: handle_request_eq(4) [OF h r])
        have "fst (handlers A name params body (app s)) \<noteq> Inl Unmodelled" using assms(1) m by (simp add: modelled_def)
        then show ?thesis
          unfolding run by (intro obind_answer_advanced guarded_advanced finish_request_advanced)
      qed
    qed
  qed
qed

lemma draining_answer:
  assumes "dispatch P cfg q A req s = (r, s')" and "is_draining s"
    and "\<not> own_endpoint A req ''/health''" and "\<not> own_endpoint A req ''/ready''"
  shows "r = Inr () \<and> app s' = app s \<and>
    (\<exists>th. answers s' = answers s @ [send_json P th (503, error_body ''server_shutting_down'')])"
proof -
  obtain cid th where c: "set_correlation_id (req_uuid q) (case hdr_correlation req of None \<Rightarrow> [] | Some v \<Rightarrow> v) (thread s) = (cid, th)"
    by fastforce
  have "is_draining (s\<lparr>thread := th, life := map_option enter_request (life s)\<rparr>)"
    using assms(2) by (cases "life s") (simp_all add: is_draining_def enter_request_def)
  with assms(1) handle_request_eq(3) [OF assms(3,4)] show ?thesis
    by (auto simp: dispatch_def c Let_def answer_def)
qed

text \<open>The only part of a request that reaches the state of the application: the handler, or the health of the store.\<close>

lemma answer_app: "answer P r s = (x, s') \<Longrightarrow> app s' = app s"
  by (auto simp: answer_def)

lemma put_log_app: "put_log P cfg q lev srv event given s = (x, s') \<Longrightarrow> app s' = app s"
  by (auto simp: put_log_def split: option.splits)

lemma guarded_app: "guarded P cfg q path meth handler s = (r, s') \<Longrightarrow> app s' = snd (handler (app s))"
proof -
  assume run: "guarded P cfg q path meth handler s = (r, s')"
  obtain h a where h: "handler (app s) = (h, a)" by fastforce
  show ?thesis
  proof (cases h)
    case (Inl x)
    obtain l u where l: "put_log P cfg q ''ERROR'' (service_label (life s)) ''unhandled_handler_exception''
        [(''path'', PyStr path), (''method'', PyStr meth), (''error'', PyStr (exn_repr q x))] (s\<lparr>app := a\<rparr>) = (l, u)" by fastforce
    with put_log_app [OF l] run Inl h show ?thesis
      by (cases x; cases l) (auto simp: guarded_def on_part_def obind_def oret_def)
  qed (use run h in \<open>auto simp: guarded_def on_part_def\<close>)
qed

lemma finish_request_app: "finish_request P cfg q req path srv r s = (x, s') \<Longrightarrow> app s' = app s"
  by (auto simp: finish_request_def oret_def dest: put_log_app split: if_splits)

lemma dispatch_app:
  assumes "dispatch P cfg q A req s = (r, s')"
  obtains (nothing) "app s' = app s"
  | (probe) "own_endpoint A req ''/ready''" "app s' = snd (store_health A (app s))"
  | (handler) name params body where "\<not> is_draining s" "match_route (routes A) (verb req) (path_of req) = Some (name, params)"
      "app s' = snd (handlers A name params body (app s))"
proof -
  obtain cid th where c: "set_correlation_id (req_uuid q) (case hdr_correlation req of None \<Rightarrow> [] | Some v \<Rightarrow> v) (thread s) = (cid, th)"
    by fastforce
  let ?s = "s\<lparr>thread := th, life := map_option enter_request (life s)\<rparr>"
  obtain x t where run: "handle_request P cfg q A req ?s = (x, t)" by fastforce
  then have s': "app s' = app t" using assms by (auto simp: dispatch_def c Let_def)
  have same: "is_draining ?s = is_draining s" by (cases "life s") (simp_all add: is_draining_def enter_request_def)
  show thesis
  proof (cases "own_endpoint A req ''/health''")
    case True
    with run have "app t = app ?s" by (simp add: handle_request_eq(1) answer_app)
    with s' show thesis using that(1) by simp
  next
    case h: False
    show thesis
    proof (cases "own_endpoint A req ''/ready''")
      case True
      from run [unfolded handle_request_eq(2) [OF h True]] have "app t = app s \<or> app t = snd (store_health A (app s))"
        by (auto simp: obind_def check_ready_def split: prod.splits sum.splits option.splits dest!: answer_app)
      with s' True show thesis using that(1,2) by auto
    next
      case r: False
      show thesis
      proof (cases "is_draining s \<or> match_route (routes A) (verb req) (path_of req) = None")
        case True
        with run have "app t = app ?s"
          by (cases "is_draining s") (auto simp: handle_request_eq(3,4) [OF h r] same dest: answer_app)
        with s' show thesis using that(1) by simp
      next
        case False
        then obtain name params where m: "match_route (routes A) (verb req) (path_of req) = Some (name, params)" by auto
        show thesis
        proof (cases "if verb req \<in> {''POST'', ''PUT''} then read_json_body (content_length req) (wire req) else Inr (PyDict [])")
          case (Inl e)
          with run False m have "app t = app ?s" by (simp add: handle_request_eq(4) [OF h r] same olift_def obind_def)
          with s' show thesis using that(1) by simp
        next
          case (Inr body)
          have "obind (guarded P cfg q (path_of req) (verb req) (handlers A name params body)) (\<lambda>r.
              obind (answer P r) (\<lambda>_. finish_request P cfg q req (path_of req) (service_label (life ?s)) r)) ?s = (x, t)"
            using run False m Inr by (simp add: handle_request_eq(4) [OF h r] same)
          then have "app t = snd (handlers A name params body (app ?s))"
            by (auto simp: obind_def split: prod.splits sum.splits dest!: answer_app finish_request_app guarded_app)
          with s' False m show thesis using that(3) by auto
        qed
      qed
    qed
  qed
qed

text \<open>A request whose body can be read and whose handler returns is answered with what the handler returned.\<close>

lemma dispatch_handler:
  assumes "\<not> own_endpoint A req ''/health''" and "\<not> own_endpoint A req ''/ready''" and "\<not> is_draining s"
    and "match_route (routes A) (verb req) (path_of req) = Some (name, params)"
    and "(if verb req \<in> {''POST'', ''PUT''} then read_json_body (content_length req) (wire req) else Inr (PyDict [])) = Inr body"
    and "handlers A name params body (app s) = (Inr resp, a)"
  shows "\<exists>s' th. dispatch P cfg q A req s = (Inr (), s') \<and> app s' = a \<and> answers s' = answers s @ [send_json P th resp]"
proof -
  obtain cid th where c: "set_correlation_id (req_uuid q) (case hdr_correlation req of None \<Rightarrow> [] | Some v \<Rightarrow> v) (thread s) = (cid, th)"
    by fastforce
  let ?s = "s\<lparr>thread := th, life := map_option enter_request (life s)\<rparr>"
  have nd: "\<not> is_draining ?s" using assms(3) by (cases "life s") (simp_all add: is_draining_def enter_request_def)
  have g: "guarded P cfg q (path_of req) (verb req) (handlers A name params body) ?s = (Inr resp, ?s\<lparr>app := a\<rparr>)"
    using assms(6) by (simp add: guarded_def on_part_def)
  let ?t = "?s\<lparr>app := a, answers := answers s @ [send_json P th resp]\<rparr>"
  from finish_request_lines [of P cfg q req "path_of req" "service_label (life ?s)" resp ?t] obtain ls where
    l: "finish_request P cfg q req (path_of req) (service_label (life ?s)) resp ?t = (Inr (), ?t\<lparr>log_lines := log_lines ?t @ ls\<rparr>)"
    by blast
  have "handle_request P cfg q A req ?s = (Inr (), ?t\<lparr>log_lines := log_lines ?t @ ls\<rparr>)"
    using handle_request_eq(4) [OF assms(1,2) nd, of P cfg q] assms(4,5) g l
    by (simp add: obind_def olift_def answer_def)
  then show ?thesis by (auto simp: dispatch_def c Let_def)
qed

lemma dispatch_get:
  assumes "\<not> own_endpoint A req ''/health''" and "\<not> own_endpoint A req ''/ready''" and "\<not> is_draining s"
    and "verb req = ''GET''" and "match_route (routes A) ''GET'' (path_of req) = Some (name, params)"
    and "handlers A name params (PyDict []) (app s) = (Inr resp, a)"
  shows "\<exists>s' th. dispatch P cfg q A req s = (Inr (), s') \<and> app s' = a \<and> answers s' = answers s @ [send_json P th resp]"
  using dispatch_handler [OF assms(1-3) _ _ assms(6)] assms(4,5) by simp

text \<open>A JSON text on the wire, behind its length in decimal.\<close>

lemma body_read_back:
  assumes "plain_json v"
  shows "read_json_body (Some (dec_int (int (length (json_dumps fr False v))))) (json_dumps fr False v @ rest) = Inr v"
proof -
  let ?b = "json_dumps fr False v"
  have "?b \<noteq> []" using token_start_dumps [OF assms, of fr False] by (auto simp: token_start_def)
  then have "dec_int (int (length ?b)) \<noteq> []" "0 < length ?b" by (simp_all add: dec_int_def)
  then show ?thesis
    using utf8_decode_ascii [OF ascii_json_dumps [OF assms]] json_loads_dumps [OF assms]
    by (simp add: read_json_body_def py_int_dec_int)
qed

section \<open>Properties\<close>



text \<open>
  While a service drains, no handler runs: every request but those for an operational endpoint of
  the library is answered 503, and the application is not touched.
\<close>

theorem draining_refuses_work:
  assumes "dispatch P cfg q A req s = (r, s')" and "is_draining s"
    and "\<not> own_endpoint A req ''/health''" and "\<not> own_endpoint A req ''/ready''"
  shows "r = Inr () \<and> app s' = app s \<and>
    (\<exists>th. answers s' = answers s @ [send_json P th (503, error_body ''server_shutting_down'')])"
  by (rule draining_answer [OF assms])

text \<open>
  A service that routes \<open>/health\<close> itself, as all four of this system do, does not report that it
  is alive while it drains: the liveness probe gets the 503 of the refusal.
\<close>

theorem own_health_route_fails_while_draining:
  assumes "dispatch P cfg q A req s = (r, s')" and "is_draining s"
    and "(''GET'', ''/health'') \<in> fst ` set (routes A)" and "path_of req = ''/health''"
  shows "\<exists>th. answers s' = answers s @ [send_json P th (503, error_body ''server_shutting_down'')]"
proof -
  have "\<not> own_endpoint A req ''/health''" "\<not> own_endpoint A req ''/ready''"
    using assms(3,4) by (simp_all add: own_endpoint_def)
  then show ?thesis using draining_answer [OF assms(1,2)] by blast
qed


section \<open>Witnesses\<close>

text \<open>A service with one route, whose handler raises.\<close>

definition probe_app :: "unit application" where
  "probe_app = \<lparr>routes = [((''GET'', ''/data''), ''handle_data''), ((''GET'', ''/health''), ''handle_health'')],
     handlers = (\<lambda>name params body. olift (if name = ''handle_data'' then Inl TypeError else Inr (handle_health ''probe''))),
     store_health = oret (True, ''memory'')\<rparr>"

definition probe_server :: "bool \<Rightarrow> unit server" where
  "probe_server going_down = \<lparr>life = Some ((new_service ''probe'' 0)\<lparr>ready := \<not> going_down, draining := going_down\<rparr>), thread = None,
     answers = [], log_lines = [], app = ()\<rparr>"

definition probe_request :: "string \<Rightarrow> http_request" where
  "probe_request path = \<lparr>verb = ''GET'', raw_path = path, hdr_correlation = Some ''c7'', content_length = None, wire = []\<rparr>"

definition quiet :: surroundings where
  "quiet = \<lparr>req_uuid = ''0123456789abcdef0123456789abcdef'', req_clock = (\<lambda>n. real n), req_stamp = ''2026-01-01T00:00:00'',
     req_pid = 7, exn_repr = (\<lambda>_. ''TypeError()''), exn_str = (\<lambda>_. [])\<rparr>"

lemma probe_modelled: "modelled probe_app req a"
  by (simp add: modelled_def probe_app_def olift_def)

lemma probe_paths: "path_of (probe_request ''/data'') = ''/data''" "path_of (probe_request ''/health'') = ''/health''"
  by (simp_all add: probe_request_def)



theorem draining_refuses_work_witness:
  "\<exists>r s' th. dispatch (toy_prims []) default_config quiet probe_app (probe_request ''/data'') (probe_server True) = (r, s') \<and>
     answers s' = [send_json (toy_prims []) th (503, error_body ''server_shutting_down'')]"
proof -
  obtain r s' where run: "dispatch (toy_prims []) default_config quiet probe_app (probe_request ''/data'') (probe_server True) = (r, s')"
    by fastforce
  have "is_draining (probe_server True)" by (simp add: is_draining_def probe_server_def)
  from draining_refuses_work [OF run this] run show ?thesis
    by (auto simp: own_endpoint_def probe_paths probe_server_def)
qed

theorem own_health_route_fails_while_draining_witness:
  "\<exists>r s' th. dispatch (toy_prims []) default_config quiet probe_app (probe_request ''/health'') (probe_server True) = (r, s') \<and>
     answers s' = [send_json (toy_prims []) th (503, error_body ''server_shutting_down'')]"
proof -
  obtain r s' where run: "dispatch (toy_prims []) default_config quiet probe_app (probe_request ''/health'') (probe_server True) = (r, s')"
    by fastforce
  have "is_draining (probe_server True)" "(''GET'', ''/health'') \<in> fst ` set (routes probe_app)"
    by (simp_all add: is_draining_def probe_server_def probe_app_def)
  from own_health_route_fails_while_draining [OF run this probe_paths(2)] run show ?thesis
    by (auto simp: probe_server_def)
qed


end
