(* ===== verification/Totp.thy ===== *)
theory Totp
  imports Hashes Encoding
begin

text \<open>
  \<open>common/totp.py\<close>: RFC 6238 codes. The clock is an argument; \<open>t // step\<close> is the floor of an
  exact quotient. A counter outside 64 unsigned bits is the \<open>struct.error\<close> of
  \<open>struct.pack(">Q", ..)\<close>, a secret that is not base 32 the \<open>binascii.Error\<close> (a \<open>ValueError\<close>) of
  \<open>b32decode\<close>.
\<close>

text \<open>The argument is what \<open>os.urandom(20)\<close> returns.\<close>

definition generate_secret :: "nat list \<Rightarrow> string" where
  "generate_secret raw = b32encode raw"

definition totp_key :: "string \<Rightarrow> byte list res" where
  "totp_key secret =
     (case b32decode (upper secret @ replicate ((8 - length secret mod 8) mod 8) pad_char) of
        None \<Rightarrow> Inl ValueError
      | Some bs \<Rightarrow> Inr (map word_of_nat bs))"

definition pack_Q :: "int \<Rightarrow> byte list res" where
  "pack_Q n = (if 0 \<le> n \<and> n < 2 ^ 64 then Inr (be_bytes 8 n) else Inl StructError)"

text \<open>\<open>struct.unpack(">I", h[offset:offset + 4])\<close>: exactly four bytes, or a \<open>struct.error\<close>.\<close>

definition unpack_I :: "byte list \<Rightarrow> 32 word res" where
  "unpack_I bs = (if length bs = 4 then Inr (be_word bs) else Inl StructError)"

definition hotp :: "string \<Rightarrow> int \<Rightarrow> nat \<Rightarrow> string res" where
  "hotp secret counter digits =
     ebind (totp_key secret) (\<lambda>key.
     ebind (pack_Q counter) (\<lambda>msg.
     let h = hmac_sha1 key msg; offset = unat (last h AND 0x0F) in
     ebind (unpack_I (take 4 (drop offset h))) (\<lambda>w.
     let code = unat (w AND 0x7FFFFFFF) mod 10 ^ digits in
     Inr (zfill (dec_nat code) digits))))"

definition current_totp :: "string \<Rightarrow> int \<Rightarrow> nat \<Rightarrow> time \<Rightarrow> string res" where
  "current_totp secret step digits t = hotp secret \<lfloor>t / of_int step\<rfloor> digits"

fun try_windows :: "string \<Rightarrow> string \<Rightarrow> int \<Rightarrow> nat \<Rightarrow> int list \<Rightarrow> bool res" where
  "try_windows secret code c digits [] = Inr False"
| "try_windows secret code c digits (w # ws) =
     ebind (hotp secret (c + w) digits) (\<lambda>s.
       if s = zfill code digits then Inr True else try_windows secret code c digits ws)"

definition verify_totp :: "string \<Rightarrow> string \<Rightarrow> int \<Rightarrow> nat \<Rightarrow> int \<Rightarrow> time \<Rightarrow> bool res" where
  "verify_totp secret code step digits window now =
     try_windows secret code \<lfloor>now / of_int step\<rfloor> digits [-window..window]"

definition provisioning_uri :: "string \<Rightarrow> string \<Rightarrow> string \<Rightarrow> string" where
  "provisioning_uri secret username issuer =
     ''otpauth://totp/'' @ issuer @ '':'' @ username @ ''?secret='' @ secret @
     ''&issuer='' @ issuer @ ''&algorithm=SHA1&digits=6&period=30''"

section \<open>The shape of a code\<close>

lemma dec_nat_length: "n < 10 ^ d \<Longrightarrow> 0 < d \<Longrightarrow> length (dec_nat n) \<le> d"
proof (induction n arbitrary: d rule: dec_nat.induct)
  case (1 n)
  show ?case
  proof (cases "n < 10")
    case True
    with 1(3) show ?thesis by (simp add: dec_nat.simps [of n])
  next
    case False
    obtain e where d: "d = Suc e" using 1(3) by (cases d) auto
    with False 1(2) have "0 < e" by (cases e) auto
    note e = d this
    moreover have "n div 10 < 10 ^ e" using 1(2) e(1) by (simp add: less_mult_imp_div_less mult.commute)
    ultimately show ?thesis using 1(1) False by (simp add: dec_nat.simps [of n])
  qed
qed

lemma digit_not_cont: "d < 10 \<Longrightarrow> \<not> is_cont (digit_char d)"
  by (auto simp: is_cont_def digit_char_def Let_def)

lemma py_len_dec_nat: "py_len (dec_nat n) = length (dec_nat n)"
  unfolding py_len_def using dec_nat_digits digit_not_cont
  by (intro arg_cong [where f=length] filter_True) blast

lemma zfill_dec_nat:
  assumes "n < 10 ^ d" and "0 < d"
  shows "zfill (dec_nat n) d = replicate (d - length (dec_nat n)) (CHR ''0'') @ dec_nat n"
proof -
  obtain c cs where c: "dec_nat n = c # cs" using dec_nat_nonempty by (cases "dec_nat n") auto
  then obtain e where "e < 10" "c = digit_char e" using dec_nat_digits [of c n] by auto
  then have "c \<noteq> CHR ''-''" "c \<noteq> CHR ''+''" using digit_char_props by auto
  then show ?thesis
    using py_len_dec_nat [of n] by (simp add: zfill_def c)
qed

lemma zfill_code:
  assumes "n < 10 ^ d" and "0 < d"
  shows "length (zfill (dec_nat n) d) = d" and "\<forall>c \<in> set (zfill (dec_nat n) d). is_digit c"
proof -
  show "length (zfill (dec_nat n) d) = d"
    using dec_nat_length [OF assms] by (simp add: zfill_dec_nat [OF assms])
  have "is_digit c" if "c \<in> set (dec_nat n)" for c
    using dec_nat_digits [OF that] digit_char_props by auto
  then show "\<forall>c \<in> set (zfill (dec_nat n) d). is_digit c"
    by (auto simp: zfill_dec_nat [OF assms] is_digit_def)
qed

lemma zfill_zfill:
  assumes "n < 10 ^ d" and "0 < d"
  shows "zfill (zfill (dec_nat n) d) d = zfill (dec_nat n) d"
proof -
  have dig: "x < 10 \<Longrightarrow> digit_char x \<noteq> CHR ''-'' \<and> digit_char x \<noteq> CHR ''+''" for x
    using digit_char_props by blast
  have all: "\<exists>x < 10. c = digit_char x" if "c \<in> set (zfill (dec_nat n) d)" for c
    using that dec_nat_digits [of c n] digit_char_literals(1)
    by (auto simp: zfill_dec_nat [OF assms] intro: exI [of _ 0] split: if_splits)
  have "py_len (zfill (dec_nat n) d) = length (zfill (dec_nat n) d)"
    unfolding py_len_def using all digit_not_cont by (intro arg_cong [where f=length] filter_True) blast
  then have len: "py_len (zfill (dec_nat n) d) = d" by (simp add: zfill_code [OF assms])
  obtain c cs where c: "zfill (dec_nat n) d = c # cs"
    using zfill_code(1) [OF assms] assms(2) by (cases "zfill (dec_nat n) d") auto
  then have "c \<noteq> CHR ''-''" "c \<noteq> CHR ''+''" using all [of c] dig by auto
  then show ?thesis using len unfolding c by (simp add: zfill_def)
qed

text \<open>The dynamic truncation never reads past the digest: the last nibble is at most 15.\<close>

lemma truncation_in_range:
  "length (take 4 (drop (unat (last (hmac_sha1 k m) AND 0x0F)) (hmac_sha1 k m))) = 4"
proof -
  have "unat (b AND 0x0F) \<le> 15" for b :: byte
  proof -
    have "b AND 0x0F \<le> 15" by (rule word_and_le1)
    then show ?thesis by (simp add: word_le_nat_alt)
  qed
  then have "unat (last (hmac_sha1 k m) AND 0x0F) \<le> 15" .
  then show ?thesis by simp
qed

lemma hotp_cases:
  assumes "totp_key secret = Inr k"
  shows "hotp secret c d = (if 0 \<le> c \<and> c < 2 ^ 64 then
     Inr (zfill (dec_nat (unat (be_word (take 4 (drop (unat (last (hmac_sha1 k (be_bytes 8 c)) AND 0x0F))
       (hmac_sha1 k (be_bytes 8 c)))) AND 0x7FFFFFFF) mod 10 ^ d)) d) else Inl StructError)"
  using assms truncation_in_range by (simp add: hotp_def pack_Q_def unpack_I_def Let_def)

lemma hotp_total:
  assumes "totp_key secret = Inr k" and "0 \<le> c" and "c < 2 ^ 64"
  obtains s where "hotp secret c d = Inr s"
  using hotp_cases [OF assms(1)] assms(2,3) by simp

lemma try_windows_total:
  assumes "totp_key secret = Inr k" and "\<And>w. w \<in> set ws \<Longrightarrow> 0 \<le> c + w \<and> c + w < 2 ^ 64"
  shows "try_windows secret code c d ws = Inr (\<exists>w \<in> set ws. hotp secret (c + w) d = Inr (zfill code d))"
  using assms(2)
proof (induction ws)
  case (Cons w ws)
  have "0 \<le> c + w" "c + w < 2 ^ 64" using Cons.prems [of w] by auto
  then obtain s where "hotp secret (c + w) d = Inr s" using hotp_total [OF assms(1)] by blast
  with Cons show ?case by auto
qed simp

lemma totp_within_a_step:
  assumes "totp_key secret = Inr k" and "\<bar>now - t\<bar> \<le> 30" and "30 \<le> now" and "0 \<le> t" and "now < 30 * 2 ^ 63"
  shows "\<exists>code. current_totp secret 30 6 t = Inr code \<and> length code = 6 \<and> (\<forall>c \<in> set code. is_digit c) \<and>
    verify_totp secret code 30 6 1 now = Inr True"
proof -
  define c where "c = \<lfloor>now / 30\<rfloor>"
  define e where "e = \<lfloor>t / 30\<rfloor>"
  have c: "1 \<le> c" using assms(3) by (simp add: c_def le_floor_iff)
  have c2: "c < 2 ^ 63" using assms(5) by (simp add: c_def floor_less_iff)
  have e: "0 \<le> e" using assms(4) by (simp add: e_def)
  have "t / 30 \<le> now / 30 + 1" "now / 30 \<le> t / 30 + 1" using assms(2) by (auto simp: abs_le_iff)
  then have "e \<le> c + 1" "c \<le> e + 1" unfolding c_def e_def by linarith+
  then have w: "e - c \<in> set [-1..1]" by auto
  have e2: "e < 2 ^ 64" using \<open>e \<le> c + 1\<close> c2 by simp
  define n where "n = unat (be_word (take 4 (drop (unat (last (hmac_sha1 k (be_bytes 8 e)) AND 0x0F))
       (hmac_sha1 k (be_bytes 8 e)))) AND 0x7FFFFFFF) mod 10 ^ 6"
  have n: "n < 10 ^ 6" by (simp add: n_def)
  have code: "hotp secret e 6 = Inr (zfill (dec_nat n) 6)"
    using hotp_cases [OF assms(1), of e 6] e e2 by (simp add: n_def)
  note shape = zfill_code [OF n]
  have idem: "zfill (zfill (dec_nat n) 6) 6 = zfill (dec_nat n) 6"
    using zfill_zfill [OF n] by simp
  have "verify_totp secret (zfill (dec_nat n) 6) 30 6 1 now =
      Inr (\<exists>w \<in> set [-1..1]. hotp secret (c + w) 6 = Inr (zfill (zfill (dec_nat n) 6) 6))"
    unfolding verify_totp_def of_int_numeral c_def [symmetric]
    by (rule try_windows_total [OF assms(1)]) (use c c2 in auto)
  also have "\<dots> = Inr True"
    using bexI [OF _ w, of "\<lambda>w. hotp secret (c + w) 6 = Inr (zfill (zfill (dec_nat n) 6) 6)"] code
    by (simp add: idem del: set_upto)
  finally show ?thesis
    using code shape by (auto simp: current_totp_def e_def)
qed

text \<open>
  A generated secret gives back the bytes it was made of, so that the codes of the authenticator that holds it are accepted.
\<close>

lemma upper_id: "\<forall>x \<in> set s. \<not> is_lower x \<Longrightarrow> upper s = s"
  by (induction s) (auto simp: upper_def to_upper_def)

lemma generated_secret_key:
  assumes "length raw = 20" and "\<forall>b \<in> set raw. b < 256"
  shows "totp_key (generate_secret raw) = Inr (map word_of_nat raw)"
proof -
  have "length raw mod 5 = 0" using assms(1) by simp
  note w = b32encode_whole [OF this assms(2)] and d = b32decode_b32encode [OF this assms(2)]
  have "upper (b32encode raw) = b32encode raw" using w by (intro upper_id) blast
  moreover have "length (b32encode raw) mod 8 = 0" using w by blast
  ultimately show ?thesis using d by (simp add: totp_key_def generate_secret_def)
qed

lemma generated_secret_is_accepted:
  assumes "length raw = 20" and "\<forall>b \<in> set raw. b < 256" and "\<bar>now - t\<bar> \<le> 30" and "30 \<le> now" and "0 \<le> t" and "now < 30 * 2 ^ 63"
  shows "\<exists>code. current_totp (generate_secret raw) 30 6 t = Inr code \<and> verify_totp (generate_secret raw) code 30 6 1 now = Inr True"
  using totp_within_a_step [OF generated_secret_key [OF assms(1,2)] assms(3-6)] by blast

section \<open>Properties\<close>

text \<open>
  A code is six digits, and the login accepts it as long as the server's clock and the
  clock that made it are at most one step of 30 seconds apart, in either direction.
\<close>

theorem totp_tolerates_drift:
  assumes "totp_key secret = Inr k" and "\<bar>now - t\<bar> \<le> 30" and "30 \<le> now" and "0 \<le> t" and "now < 30 * 2 ^ 63"
  shows "\<exists>code. current_totp secret 30 6 t = Inr code \<and> length code = 6 \<and> (\<forall>c \<in> set code. is_digit c) \<and>
    verify_totp secret code 30 6 1 now = Inr True"
  by (rule totp_within_a_step [OF assms])

text \<open>The secret that \<open>pyotp\<close> documents as an example, five bytes long.\<close>

lemma hello_key: "totp_key ''JBSWY3DP'' = Inr [72, 101, 108, 108, 111]"
  using b32decode_hello by (simp add: totp_key_def upper_def to_upper_def is_lower_def)

theorem totp_tolerates_drift_witness:
  "\<exists>code. current_totp ''JBSWY3DP'' 30 6 1000 = Inr code \<and> length code = 6 \<and>
     verify_totp ''JBSWY3DP'' code 30 6 1 1030 = Inr True"
  using totp_tolerates_drift [OF hello_key, of 1030 1000] by auto

text \<open>
  Nothing else is accepted: at any time at most three six-character codes pass, namely
  those of the current step, the one before and the one after.
\<close>

theorem totp_at_most_three_codes:
  assumes "totp_key secret = Inr k" and "30 \<le> now" and "now < 30 * 2 ^ 63"
  shows "{code. length code = 6 \<and> py_len code = 6 \<and> verify_totp secret code 30 6 1 now = Inr True} \<subseteq>
      {code. \<exists>w \<in> {-1, 0, 1}. hotp secret (\<lfloor>now / 30\<rfloor> + w) 6 = Inr code} \<and>
    card {code. length code = 6 \<and> py_len code = 6 \<and> verify_totp secret code 30 6 1 now = Inr True} \<le> 3"
proof -
  define c where "c = \<lfloor>now / 30\<rfloor>"
  have c: "1 \<le> c" using assms(2) by (simp add: c_def le_floor_iff)
  have c2: "c < 2 ^ 63" using assms(3) by (simp add: c_def floor_less_iff)
  let ?A = "{code. length code = 6 \<and> py_len code = 6 \<and> verify_totp secret code 30 6 1 now = Inr True}"
  let ?B = "{code. \<exists>w \<in> {-1, 0, 1}. hotp secret (c + w) 6 = Inr code}"
  have up: "set [-1..1] = {-1, 0, 1 :: int}" by (simp add: upto.simps)
  have verify: "verify_totp secret code 30 6 1 now = Inr (\<exists>w \<in> set [-1..1]. hotp secret (c + w) 6 = Inr (zfill code 6))"
    for code
    unfolding verify_totp_def of_int_numeral c_def [symmetric]
    by (rule try_windows_total [OF assms(1)]) (use c c2 in auto)
  have same: "zfill code 6 = code" if "length code = 6" "py_len code = 6" for code
    using that by (cases code) (auto simp: zfill_def)
  have sub: "?A \<subseteq> ?B"
    unfolding verify up by (auto simp: same)
  let ?R = "(\<lambda>w. hotp secret (c + w) 6) ` {-1, 0, 1}"
  have B: "?B \<subseteq> projr ` ?R"
  proof
    fix s assume "s \<in> ?B"
    then obtain w where w: "w \<in> {-1, 0, 1}" "hotp secret (c + w) 6 = Inr s" by blast
    have "hotp secret (c + w) 6 \<in> ?R" using w(1) by (rule imageI)
    then have "projr (hotp secret (c + w) 6) \<in> projr ` ?R" by (rule imageI)
    then show "s \<in> projr ` ?R" by (simp only: w(2) sum.sel)
  qed
  have fin: "finite (projr ` ?R)" by simp
  have "card ?B \<le> card (projr ` ?R)" using fin B by (rule card_mono)
  also have "\<dots> \<le> card ?R" by (intro card_image_le) simp
  also have "\<dots> \<le> card {-1, 0, 1 :: int}" by (intro card_image_le) simp
  finally have "card ?B \<le> 3" by simp
  moreover have "finite ?B" using B fin by (rule finite_subset)
  ultimately show ?thesis
    using sub card_mono [of ?B ?A] unfolding c_def by linarith
qed

theorem totp_at_most_three_codes_witness:
  "card {code. length code = 6 \<and> py_len code = 6 \<and> verify_totp ''JBSWY3DP'' code 30 6 1 1000 = Inr True} \<le> 3"
  using totp_at_most_three_codes [OF hello_key, of 1000] by simp

end
