(* ===== verification/JwtUtils.thy ===== *)
theory JwtUtils
  imports Prims Config Revocation
begin

text \<open>
  \<open>common/jwt_utils.py\<close>: minting and verifying access tokens. PyJWT is the pair
  \<open>jwt_encode\<close>, \<open>jwt_decode\<close> of the parameter record (with the key files of
  \<open>common/rsa_utils.py\<close> behind them); \<open>jti\<close> is what \<open>uuid.uuid4().hex\<close> returned.
\<close>

definition token_claims ::
  "config \<Rightarrow> string \<Rightarrow> pyval \<Rightarrow> pyval \<Rightarrow> int \<Rightarrow> bool \<Rightarrow> pyval \<Rightarrow> pyval \<Rightarrow> pyval list \<Rightarrow> time \<Rightarrow> string \<Rightarrow> dict res" where
  "token_claims cfg username role device_id score attested cnf_jkt auth_time amr t jti =
     (let now = trunc t in
      ebind (int_of (if auth_time \<noteq> PyNone then auth_time else PyInt now)) (\<lambda>authd.
      Inr ([(''sub'', PyStr username), (''role'', role), (''device_id'', device_id),
            (''device_trust_score'', PyInt score), (''attested'', PyBool attested), (''iat'', PyInt now),
            (''auth_time'', PyInt authd),
            (''amr'', if amr \<noteq> [] then PyList amr else PyList [PyStr ''pwd'', PyStr ''otp'']),
            (''exp'', PyInt (now + token_ttl cfg)), (''jti'', PyStr jti)] @
           (if py_truth cnf_jkt then [(''cnf'', PyDict [(''jkt'', cnf_jkt)])] else []))))"

text \<open>\<open>t\<close> is the clock of the token, \<open>t'\<close> that of the record in the token store.\<close>

definition issue_token ::
  "prims \<Rightarrow> config \<Rightarrow> string \<Rightarrow> pyval \<Rightarrow> pyval \<Rightarrow> int \<Rightarrow> bool \<Rightarrow> pyval \<Rightarrow> pyval \<Rightarrow> pyval list \<Rightarrow> time \<Rightarrow> time \<Rightarrow> string \<Rightarrow>
   (disk, dict) op" where
  "issue_token P cfg username role device_id score attested cnf_jkt auth_time amr t t' jti =
     obind (olift (token_claims cfg username role device_id score attested cnf_jkt auth_time amr t jti)) (\<lambda>claims.
     obind (record_issued jti username (PyInt (trunc t + token_ttl cfg)) device_id t') (\<lambda>_.
     oret [(''access_token'', PyStr (jwt_encode P claims)), (''token_type'', PyStr ''Bearer''),
           (''expires_in'', PyInt (token_ttl cfg)), (''claims'', PyDict claims)]))"

text \<open>A \<open>TokenError\<close> is its reason.\<close>

definition verify_token :: "prims \<Rightarrow> time \<Rightarrow> string \<Rightarrow> string + dict" where
  "verify_token P now token =
     (case jwt_decode P now token of
        JwtClaims claims \<Rightarrow> Inr claims
      | JwtExpired \<Rightarrow> Inl ''token_expired''
      | JwtBadSignature \<Rightarrow> Inl ''token_signature_invalid''
      | JwtMalformed \<Rightarrow> Inl ''token_malformed''
      | JwtOther e \<Rightarrow> Inl (''token_invalid:'' @ e))"

end
