(* ===== verification/AuthBackends.thy ===== *)
theory AuthBackends
  imports Prims Config
begin

text \<open>
  \<open>idp/users_db.py\<close> and \<open>idp/auth_backends.py\<close>: the local directory and the LDAP one behind
  the two functions that the login calls. The directory server is a record of functions:
  whether a bind succeeds (any exception is a refusal), and the groups of an entry, \<open>None\<close>
  where there is no entry or the search raises.
\<close>

section \<open>The local directory\<close>

definition TOTP_SECRETS :: "(string \<times> string) list" where
  "TOTP_SECRETS = [
     (''alice'', ''JBSWY3DPEHPK3PXPJBSWY3DP''), (''bob'', ''KRSXG5CTMVRXEZLUEB2GK43F''),
     (''carol'', ''MFRGGZDFMZTWQ2LKNNWG23TP''), (''admin'', ''GEZDGNBVGY3TQOJQGEZDGNBV'')]"

definition seed_user :: "prims \<Rightarrow> string \<Rightarrow> string \<Rightarrow> string \<Rightarrow> string \<Rightarrow> dict" where
  "seed_user P name password role device =
     [(''password_hash'', PyStr (hashpw P name password)), (''role'', PyStr role),
      (''totp_secret'', PyStr (the (map_of TOTP_SECRETS name))), (''device_id'', PyStr device)]"

definition USERS :: "prims \<Rightarrow> (string \<times> dict) list" where
  "USERS P = [
     (''alice'', seed_user P ''alice'' ''Intern#2026'' ''intern'' ''WIN-LAPTOP-ALICE''),
     (''bob'', seed_user P ''bob'' ''Manager#2026'' ''finance_manager'' ''WIN-LAPTOP-BOB''),
     (''carol'', seed_user P ''carol'' ''Manager#2026'' ''finance_manager'' ''WIN-LAPTOP-CAROL''),
     (''admin'', seed_user P ''admin'' ''Admin#2026'' ''admin'' ''WIN-LAPTOP-ADMIN'')]"

definition local_get_user :: "prims \<Rightarrow> string \<Rightarrow> dict option" where
  "local_get_user P username = map_of (USERS P) username"

definition local_verify_password :: "prims \<Rightarrow> string \<Rightarrow> pyval \<Rightarrow> bool res" where
  "local_verify_password P username password =
     (case map_of (USERS P) username of
        None \<Rightarrow> Inr False
      | Some user \<Rightarrow>
          ebind (as_str password) (\<lambda>pw.
          ebind (dreq user ''password_hash'') (\<lambda>h.
            Inr (case h of PyStr hs \<Rightarrow> checkpw P pw hs | _ \<Rightarrow> False))))"

section \<open>The LDAP directory\<close>

record directory =
  dir_installed :: bool
  dir_bind :: "string \<Rightarrow> pyval \<Rightarrow> bool"
  dir_groups :: "string \<Rightarrow> string list option"

text \<open>
  \<open>template.format(username=username)\<close>: \<open>None\<close> is the exception of a template with any other
  replacement field or a lone brace.
\<close>

fun format_username :: "string \<Rightarrow> string \<Rightarrow> nat \<Rightarrow> string option" where
  "format_username u [] n = (if n = 0 then Some [] else None)"
| "format_username u (c # s) n =
     (if n > 0 then format_username u s (n - 1)
      else if c = CHR ''{'' then
        (if startswith s ''{'' then map_option ((#) c) (format_username u s 1)
         else if startswith s ''username}'' then map_option ((@) u) (format_username u s 9)
         else None)
      else if c = CHR ''}'' then
        (if startswith s ''}'' then map_option ((#) c) (format_username u s 1) else None)
      else map_option ((#) c) (format_username u s 0))"

definition user_dn :: "config \<Rightarrow> string \<Rightarrow> string res" where
  "user_dn cfg username =
     (case format_username username (ldap_user_dn_template cfg) 0 of None \<Rightarrow> Inl (KeyError ''template'') | Some s \<Rightarrow> Inr s)"

definition ldap_verify_password :: "config \<Rightarrow> directory \<Rightarrow> string \<Rightarrow> pyval \<Rightarrow> bool res" where
  "ldap_verify_password cfg D username password =
     ebind (user_dn cfg username) (\<lambda>dn. Inr (dir_bind D dn password))"

fun mapped_role :: "string list \<Rightarrow> string" where
  "mapped_role [] = ''intern''"
| "mapped_role (g # gs) = (case map_of LDAP_GROUP_ROLE_MAP g of Some role \<Rightarrow> role | None \<Rightarrow> mapped_role gs)"

definition ldap_get_user :: "prims \<Rightarrow> config \<Rightarrow> directory \<Rightarrow> string \<Rightarrow> dict option res" where
  "ldap_get_user P cfg D username =
     ebind (user_dn cfg username) (\<lambda>dn.
       Inr (case dir_groups D dn of
              None \<Rightarrow> None
            | Some groups \<Rightarrow>
                (let secret = dget (case map_of (USERS P) username of None \<Rightarrow> [] | Some u \<Rightarrow> u) ''totp_secret'' in
                 if \<not> py_truth secret then None
                 else Some [(''role'', PyStr (mapped_role groups)), (''totp_secret'', secret),
                            (''device_id'', PyStr (''LDAP-'' @ username))])))"

section \<open>The configured backend\<close>

datatype auth = LocalAuth | LdapAuth

text \<open>Any setting but \<open>ldap\<close> selects the local directory; without the package \<open>ldap\<close> raises.\<close>

definition get_auth :: "config \<Rightarrow> directory \<Rightarrow> auth res" where
  "get_auth cfg D =
     (if auth_backend cfg = ''ldap'' then (if dir_installed D then Inr LdapAuth else Inl RuntimeError)
      else Inr LocalAuth)"

fun get_user :: "prims \<Rightarrow> config \<Rightarrow> directory \<Rightarrow> auth \<Rightarrow> string \<Rightarrow> dict option res" where
  "get_user P cfg D LocalAuth username = Inr (local_get_user P username)"
| "get_user P cfg D LdapAuth username = ldap_get_user P cfg D username"

fun verify_password :: "prims \<Rightarrow> config \<Rightarrow> directory \<Rightarrow> auth \<Rightarrow> string \<Rightarrow> pyval \<Rightarrow> bool res" where
  "verify_password P cfg D LocalAuth username password = local_verify_password P username password"
| "verify_password P cfg D LdapAuth username password = ldap_verify_password cfg D username password"

section \<open>What the login relies on\<close>

text \<open>
  The contract of a backend: a user that it returns has a role with a level, and the one-time code secret that is kept for the name. The
  login reads these fields without a check.
\<close>

locale auth_backend =
  fixes get :: "string \<Rightarrow> dict option res" and secret_of :: "string \<Rightarrow> string option"
  assumes user_complete: "get u = Inr (Some e) \<Longrightarrow> \<exists>secret role level. secret_of u = Some secret \<and> secret \<noteq> [] \<and>
    map_of e ''totp_secret'' = Some (PyStr secret) \<and> map_of e ''role'' = Some (PyStr role) \<and> map_of ROLE_LEVELS role = Some level"
begin

lemma user_nonempty: "get u = Inr (Some e) \<Longrightarrow> e \<noteq> []"
  using user_complete by fastforce

lemma user_secret: "get u = Inr (Some e) \<Longrightarrow> map_of e ''totp_secret'' = map_option PyStr (secret_of u) \<and> secret_of u \<noteq> None"
  using user_complete by fastforce

lemma no_secret_no_user: "secret_of u = None \<Longrightarrow> get u \<noteq> Inr (Some e)"
  using user_complete by fastforce

end

definition complete_entry :: "string \<Rightarrow> dict \<Rightarrow> bool" where
  "complete_entry u e \<longleftrightarrow>
     (case map_of e ''totp_secret'' of Some (PyStr secret) \<Rightarrow> map_of TOTP_SECRETS u = Some secret \<and> secret \<noteq> [] | _ \<Rightarrow> False) \<and>
     (case map_of e ''role'' of Some (PyStr role) \<Rightarrow> map_of ROLE_LEVELS role \<noteq> None | _ \<Rightarrow> False)"

lemma complete_entry_iff:
  "complete_entry u e \<longleftrightarrow> (\<exists>secret role level. map_of TOTP_SECRETS u = Some secret \<and> secret \<noteq> [] \<and>
     map_of e ''totp_secret'' = Some (PyStr secret) \<and> map_of e ''role'' = Some (PyStr role) \<and> map_of ROLE_LEVELS role = Some level)"
  unfolding complete_entry_def by (auto split: option.splits pyval.splits)

lemma users_complete: "map_of (USERS P) u = Some e \<Longrightarrow> complete_entry u e"
proof -
  have seed: "complete_entry u (seed_user P u pw role dev)"
    if "map_of TOTP_SECRETS u = Some s" "s \<noteq> []" "map_of ROLE_LEVELS role \<noteq> None" for u pw role dev s
    using that by (simp add: complete_entry_def seed_user_def)
  have "\<forall>p \<in> set (USERS P). complete_entry (fst p) (snd p)"
    unfolding USERS_def by (auto intro!: seed) (simp_all add: TOTP_SECRETS_def ROLE_LEVELS_def)
  then show "map_of (USERS P) u = Some e \<Longrightarrow> complete_entry u e" using map_of_SomeD [of "USERS P" u e] by auto
qed

lemma mapped_role_known: "map_of ROLE_LEVELS (mapped_role gs) \<noteq> None"
proof -
  have "\<forall>p \<in> set LDAP_GROUP_ROLE_MAP. map_of ROLE_LEVELS (snd p) \<noteq> None" by (simp add: LDAP_GROUP_ROLE_MAP_def ROLE_LEVELS_def)
  then have mapped: "map_of LDAP_GROUP_ROLE_MAP g = Some role \<Longrightarrow> map_of ROLE_LEVELS role \<noteq> None" for g role
    by (metis map_of_SomeD snd_conv)
  show ?thesis
  proof (induction gs)
    case (Cons g gs)
    then show ?case using mapped [of g] by (cases "map_of LDAP_GROUP_ROLE_MAP g") simp_all
  qed (simp add: ROLE_LEVELS_def)
qed

interpretation local_auth: auth_backend "get_user P cfg D LocalAuth" "map_of TOTP_SECRETS" for P cfg D
  by unfold_locales (auto simp: local_get_user_def dest: users_complete [unfolded complete_entry_iff])

interpretation ldap_auth: auth_backend "get_user P cfg D LdapAuth" "map_of TOTP_SECRETS" for P cfg D
proof
  fix u e
  assume "get_user P cfg D LdapAuth u = Inr (Some e)"
  then obtain groups where e: "e = [(''role'', PyStr (mapped_role groups)),
      (''totp_secret'', dget (case map_of (USERS P) u of None \<Rightarrow> [] | Some x \<Rightarrow> x) ''totp_secret''), (''device_id'', PyStr (''LDAP-'' @ u))]"
    "py_truth (dget (case map_of (USERS P) u of None \<Rightarrow> [] | Some x \<Rightarrow> x) ''totp_secret'')"
    by (auto simp: ldap_get_user_def ebind_eq_Inr Let_def split: option.splits if_splits)
  from e(2) obtain x where x: "map_of (USERS P) u = Some x" by (cases "map_of (USERS P) u") (auto simp: dict_simps)
  obtain level where "map_of ROLE_LEVELS (mapped_role groups) = Some level" using mapped_role_known by blast
  with users_complete [OF x, unfolded complete_entry_iff] show "\<exists>secret role level. map_of TOTP_SECRETS u = Some secret \<and> secret \<noteq> [] \<and>
      map_of e ''totp_secret'' = Some (PyStr secret) \<and> map_of e ''role'' = Some (PyStr role) \<and> map_of ROLE_LEVELS role = Some level"
    by (auto simp: e(1) x dget_def)
qed

text \<open>Whichever backend is configured.\<close>

lemma configured_secret:
  "get_user P cfg D bk u = Inr (Some e) \<Longrightarrow> map_of e ''totp_secret'' = map_option PyStr (map_of TOTP_SECRETS u) \<and> map_of TOTP_SECRETS u \<noteq> None"
  by (cases bk) (use local_auth.user_secret ldap_auth.user_secret in blast)+

end
