(* ===== verification/IdpServer.thy ===== *)
theory IdpServer
  imports Requests RateLimiter AuditLog Totp JwtUtils AuthBackends DeviceRegistry
begin

text \<open>
  \<open>idp/idp_server.py\<close>: the handlers of the identity provider, as operations on the state of its
  process: the audit log, the login limiter and the device registry (whose store holds the
  file system, and with it the token store). A handler returns a status and a JSON value or
  raises; \<open>http_utils\<close> turns an exception into a 500.
\<close>

record idp =
  idp_audit :: audit
  idp_limiter :: limiter
  idp_registry :: registry

definition with_audit :: "(audit, 'a) op \<Rightarrow> (idp, 'a) op" where
  "with_audit = on_part idp_audit (\<lambda>a s. s\<lparr>idp_audit := a\<rparr>)"

definition with_limiter :: "(limiter \<Rightarrow> 'a \<times> limiter) \<Rightarrow> (idp, 'a) op" where
  "with_limiter f = on_part idp_limiter (\<lambda>l s. s\<lparr>idp_limiter := l\<rparr>) (osafe f)"

definition with_registry :: "(registry, 'a) op \<Rightarrow> (idp, 'a) op" where
  "with_registry = on_part idp_registry (\<lambda>r s. s\<lparr>idp_registry := r\<rparr>)"

definition with_store :: "(store, 'a) op \<Rightarrow> (idp, 'a) op" where
  "with_store = on_part (reg_store \<circ> idp_registry) (\<lambda>st s. s\<lparr>idp_registry := (idp_registry s)\<lparr>reg_store := st\<rparr>\<rparr>)"

definition with_disk :: "(disk, 'a) op \<Rightarrow> (idp, 'a) op" where
  "with_disk m = with_store (on_part store.disk (\<lambda>d st. st\<lparr>store.disk := d\<rparr>) m)"

text \<open>Reading the store does not change it.\<close>

definition read_store :: "(store \<Rightarrow> 'a res) \<Rightarrow> (idp, 'a) op" where
  "read_store f s = (f (reg_store (idp_registry s)), s)"

definition idp_log :: "prims \<Rightarrow> request_env \<Rightarrow> nat \<Rightarrow> dict \<Rightarrow> (idp, unit) op" where
  "idp_log P q n given = with_audit (log_event (float_repr P) (clk q n) (local_time q) given)"

definition login_event :: "request_env \<Rightarrow> string \<Rightarrow> string \<Rightarrow> string \<Rightarrow> dict \<Rightarrow> dict" where
  "login_event q username decision why extra =
     [(''event'', PyStr ''authentication''), (''username'', PyStr username), (''source_ip'', PyStr (peer q)),
      (''decision'', PyStr decision), (''reason'', PyStr why)] @ extra"

section \<open>Enrolment and challenges\<close>

definition handle_enroll :: "prims \<Rightarrow> config \<Rightarrow> request_env \<Rightarrow> pyval \<Rightarrow> (idp, response) op" where
  "handle_enroll P cfg q body =
     obind (olift (as_dict body)) (\<lambda>b.
     let device_id = dget_or b ''device_id'' (PyStr []);
         pem = dget_or b ''public_key_pem'' (PyStr []);
         event = (\<lambda>decision why extra.
           [(''event'', PyStr ''device_enrollment''), (''device_id'', device_id), (''source_ip'', PyStr (peer q)),
            (''decision'', PyStr decision), (''reason'', PyStr why)] @ extra)
     in
     if \<not> py_truth device_id \<or> \<not> py_truth pem then oret (400, error_body ''device_id_and_public_key_required'')
     else (\<lambda>s.
       case with_store (register_device P cfg device_id pem (clk q 0)) s of
         (Inl ValueError, s1) \<Rightarrow>
           obind (idp_log P q 1 (event ''deny'' ''invalid_public_key'' [])) (\<lambda>_.
             oret (400, PyDict [(''error'', PyStr ''invalid_public_key''), (''detail'', PyStr (pem_error P (py_str P pem)))])) s1
       | (Inl x, s1) \<Rightarrow> (Inl x, s1)
       | (Inr r, s1) \<Rightarrow>
           obind (olift (dreq r ''status'')) (\<lambda>status.
           obind (olift (ebind (dreq r ''thumbprint'') as_str)) (\<lambda>tp.
           obind (idp_log P q 1 (event (if py_eq status STATUS_APPROVED then ''allow'' else ''pending'')
               (''enrolled_'' @ py_str P status) [(''thumbprint'', PyStr (take 16 tp))])) (\<lambda>_.
           oret (if py_eq status STATUS_APPROVED
             then (200, PyDict [(''status'', PyStr ''enrolled''), (''device_id'', device_id),
                                (''approval_status'', status), (''thumbprint'', PyStr tp)])
             else (202, PyDict [(''status'', PyStr ''pending_approval''), (''device_id'', device_id),
                                (''approval_status'', status), (''thumbprint'', PyStr tp),
                                (''detail'', PyStr (''Device enrolled but awaiting administrator approval. '' @
                                   ''Attested logins are refused until then. An administrator approves with: '' @
                                   ''python -m tools.manage_devices --approve '' @ py_str P device_id))]))))) s1))"

definition handle_challenge :: "request_env \<Rightarrow> pyval \<Rightarrow> (idp, response) op" where
  "handle_challenge q body =
     obind (olift (as_dict body)) (\<lambda>b.
     let device_id = dget_or b ''device_id'' (PyStr []) in
     if \<not> py_truth device_id then oret (400, error_body ''device_id_required'')
     else obind (read_store (is_enrolled device_id)) (\<lambda>known.
       if \<not> known then oret (404, error_body ''device_not_enrolled'')
       else obind (with_registry (issue_challenge device_id (random_nonce q) (clk q 0))) (\<lambda>nonce_b64.
         oret (200, PyDict [(''nonce'', PyStr nonce_b64), (''expires_in'', PyInt 30)]))))"

section \<open>Login\<close>

text \<open>Steps 1 and 2: the password, then the one-time code. The result says what was wrong.\<close>

definition check_credentials ::
  "prims \<Rightarrow> config \<Rightarrow> directory \<Rightarrow> string \<Rightarrow> pyval \<Rightarrow> pyval \<Rightarrow> time \<Rightarrow> (string + dict) res" where
  "check_credentials P cfg D u password otp now =
     ebind (get_auth cfg D) (\<lambda>bk.
     ebind (get_user P cfg D bk u) (\<lambda>user.
     case user of
       None \<Rightarrow> Inr (Inl ''invalid_credentials'')
     | Some e \<Rightarrow>
         if e = [] then Inr (Inl ''invalid_credentials'')
         else ebind (verify_password P cfg D bk u password) (\<lambda>ok.
           if \<not> ok then Inr (Inl ''invalid_credentials'')
           else ebind (ebind (dreq e ''totp_secret'') as_str) (\<lambda>secret.
             ebind (verify_totp secret (py_str P otp) 30 6 1 now) (\<lambda>good.
               Inr (if good then Inr e else Inl ''invalid_otp''))))))"

text \<open>Step 5: the thumbprint to bind the token to, \<open>None\<close> unless the device is approved.\<close>

definition binding_key :: "config \<Rightarrow> pyval \<Rightarrow> store \<Rightarrow> pyval res" where
  "binding_key cfg device_id st =
     (if \<not> token_binding_enabled cfg then Inr PyNone
      else ebind (get_device device_id st) (\<lambda>r.
        if \<not> py_truth r then Inr PyNone
        else ebind (as_dict r) (\<lambda>e.
          Inr (if py_eq (dget e ''status'') STATUS_APPROVED then dget e ''thumbprint'' else PyNone))))"

text \<open>Steps 4 to 6, after the credentials and the posture have been accepted.\<close>

definition grant_login ::
  "prims \<Rightarrow> config \<Rightarrow> request_env \<Rightarrow> string \<Rightarrow> dict \<Rightarrow> dict \<Rightarrow> pyval \<Rightarrow> (idp, response) op" where
  "grant_login P cfg q u b user score =
     (let device_id = py_or (py_or (dget b ''device_id'') (dget user ''device_id'')) (PyStr (''unknown-'' @ u));
          sig = dget b ''attestation_signature''
      in
      obind (olift (dreq user ''role'')) (\<lambda>role.
      obind (if py_truth sig then with_registry (verify_and_consume P device_id sig (clk q 2)) else oret False) (\<lambda>attested.
      obind (read_store (binding_key cfg device_id)) (\<lambda>cnf.
      obind (olift (int_of score)) (\<lambda>n.
      obind (with_disk (issue_token P cfg u role device_id n attested cnf PyNone
               ([PyStr ''pwd'', PyStr ''otp''] @ (if attested then [PyStr ''device''] else []))
               (clk q 3) (clk q 4) (random_jti q))) (\<lambda>data.
      obind (olift (role_level role)) (\<lambda>level.
      obind (idp_log P q 5 (login_event q u ''allow'' ''mfa_ok''
               [(''role'', role), (''role_level'', PyInt level), (''device_id'', device_id),
                (''device_trust_score'', PyInt n), (''attested'', PyBool attested), (''jti'', PyStr (random_jti q)),
                (''token_bound'', PyBool (py_truth cnf)), (''correlation_id'', PyStr (correlation q))])) (\<lambda>_.
      oret (200, PyDict data)))))))))"

definition handle_login :: "prims \<Rightarrow> config \<Rightarrow> directory \<Rightarrow> request_env \<Rightarrow> pyval \<Rightarrow> (idp, response) op" where
  "handle_login P cfg D q body =
     obind (olift (as_dict body)) (\<lambda>b.
     obind (olift (key_of (dget_or b ''username'' (PyStr [])))) (\<lambda>u.
     obind (with_limiter (is_locked_out u (clk q 0))) (\<lambda>(locked, retry_after).
     if locked then
       obind (idp_log P q 5 (login_event q u ''deny'' ''account_locked'' [])) (\<lambda>_.
         oret (429, PyDict [(''error'', PyStr ''account_locked''),
                            (''retry_after_seconds'', PyFloat (Fin (round1 retry_after)))]))
     else
       obind (olift (check_credentials P cfg D u (dget_or b ''password'' (PyStr [])) (dget_or b ''otp'' (PyStr [])) (clk q 1)))
         (\<lambda>verdict. case verdict of
           Inl why \<Rightarrow>
             obind (with_limiter (\<lambda>l. ((), record_failure cfg u (clk q 2) l))) (\<lambda>_.
             obind (idp_log P q 5 (login_event q u ''deny'' why [])) (\<lambda>_.
               oret (401, error_body why)))
         | Inr user \<Rightarrow>
             let score = dget b ''device_trust_score'' in
             if \<not> is_number score then
               obind (idp_log P q 5 (login_event q u ''deny'' ''missing_device_posture'' [])) (\<lambda>_.
                 oret (400, error_body ''missing_device_posture''))
             else
               obind (with_limiter (\<lambda>l. ((), record_success u l))) (\<lambda>_.
                 grant_login P cfg q u b user score)))))"

section \<open>How a login runs\<close>

lemma idp_log_Inr:
  "idp_log P q n given s = (Inr u, s') \<longleftrightarrow>
     (\<exists>a. log_event (float_repr P) (clk q n) (local_time q) given (idp_audit s) = (Inr u, a) \<and> s' = s\<lparr>idp_audit := a\<rparr>)"
  by (auto simp: idp_log_def with_audit_def on_part_def split: prod.splits)

lemma with_limiter_Inr:
  "with_limiter f s = (Inr a, s') \<longleftrightarrow> a = fst (f (idp_limiter s)) \<and> s' = s\<lparr>idp_limiter := snd (f (idp_limiter s))\<rparr>"
  by (auto simp: with_limiter_def on_part_def osafe_def split: prod.splits)

lemma read_store_Inr: "read_store f s = (Inr a, s') \<longleftrightarrow> f (reg_store (idp_registry s)) = Inr a \<and> s' = s"
  by (auto simp: read_store_def)

text \<open>The four ways in which a login returns.\<close>

lemma handle_login_cases:
  assumes "handle_login P cfg D q body s = (Inr (status, payload), s')"
  obtains (locked) b u s1 where "body = PyDict b" "dget_or b ''username'' (PyStr []) = PyStr u"
      "s1 = s\<lparr>idp_limiter := snd (is_locked_out u (clk q 0) (idp_limiter s))\<rparr>"
      "fst (fst (is_locked_out u (clk q 0) (idp_limiter s)))"
      "idp_log P q 5 (login_event q u ''deny'' ''account_locked'' []) s1 = (Inr (), s')" "status = 429"
  | (refused) b u s1 s2 why where "body = PyDict b" "dget_or b ''username'' (PyStr []) = PyStr u"
      "s1 = s\<lparr>idp_limiter := snd (is_locked_out u (clk q 0) (idp_limiter s))\<rparr>"
      "\<not> fst (fst (is_locked_out u (clk q 0) (idp_limiter s)))"
      "check_credentials P cfg D u (dget_or b ''password'' (PyStr [])) (dget_or b ''otp'' (PyStr [])) (clk q 1) = Inr (Inl why)"
      "s2 = s1\<lparr>idp_limiter := record_failure cfg u (clk q 2) (idp_limiter s1)\<rparr>"
      "idp_log P q 5 (login_event q u ''deny'' why []) s2 = (Inr (), s')" "status = 401"
  | (no_posture) b u s1 user where "body = PyDict b" "dget_or b ''username'' (PyStr []) = PyStr u"
      "s1 = s\<lparr>idp_limiter := snd (is_locked_out u (clk q 0) (idp_limiter s))\<rparr>"
      "\<not> fst (fst (is_locked_out u (clk q 0) (idp_limiter s)))"
      "check_credentials P cfg D u (dget_or b ''password'' (PyStr [])) (dget_or b ''otp'' (PyStr [])) (clk q 1) = Inr (Inr user)"
      "\<not> is_number (dget b ''device_trust_score'')"
      "idp_log P q 5 (login_event q u ''deny'' ''missing_device_posture'' []) s1 = (Inr (), s')" "status = 400"
  | (granted) b u s1 s2 user where "body = PyDict b" "dget_or b ''username'' (PyStr []) = PyStr u"
      "s1 = s\<lparr>idp_limiter := snd (is_locked_out u (clk q 0) (idp_limiter s))\<rparr>"
      "\<not> fst (fst (is_locked_out u (clk q 0) (idp_limiter s)))"
      "check_credentials P cfg D u (dget_or b ''password'' (PyStr [])) (dget_or b ''otp'' (PyStr [])) (clk q 1) = Inr (Inr user)"
      "is_number (dget b ''device_trust_score'')"
      "s2 = s1\<lparr>idp_limiter := record_success u (idp_limiter s1)\<rparr>"
      "grant_login P cfg q u b user (dget b ''device_trust_score'') s2 = (Inr (status, payload), s')"
proof -
  from assms obtain b u where b: "body = PyDict b" "dget_or b ''username'' (PyStr []) = PyStr u"
  proof -
    obtain b where b: "body = PyDict b"
      using assms by (cases body) (simp_all add: handle_login_def as_dict_def olift_eq)
    obtain u where "dget_or b ''username'' (PyStr []) = PyStr u"
      using assms b
      by (cases "dget_or b ''username'' (PyStr [])") (simp_all add: handle_login_def as_dict_def olift_eq key_of_def)
    with b that show ?thesis by blast
  qed
  obtain locked retry where l: "fst (is_locked_out u (clk q 0) (idp_limiter s)) = (locked, retry)" by fastforce
  define s1 where "s1 = s\<lparr>idp_limiter := snd (is_locked_out u (clk q 0) (idp_limiter s))\<rparr>"
  have lim: "with_limiter (is_locked_out u (clk q 0)) s = (Inr (locked, retry), s1)"
    using l by (simp add: with_limiter_Inr s1_def)
  show ?thesis
  proof (cases locked)
    case True
    with assms b lim l show ?thesis
      by (intro locked [OF b s1_def]) (auto simp: handle_login_def obind_eq_Inr olift_eq oret_eq as_dict_def)
  next
    case False
    have nl: "\<not> fst (fst (is_locked_out u (clk q 0) (idp_limiter s)))" using l False by simp
    obtain verdict where v: "check_credentials P cfg D u (dget_or b ''password'' (PyStr [])) (dget_or b ''otp'' (PyStr [])) (clk q 1) = Inr verdict"
      using assms b lim False by (auto simp: handle_login_def obind_eq_Inr olift_eq as_dict_def)
    show ?thesis
    proof (cases verdict)
      case (Inl why)
      with assms b lim False v show ?thesis
        by (intro refused [OF b s1_def nl v [unfolded Inl] refl])
          (auto simp: handle_login_def obind_eq_Inr olift_eq oret_eq as_dict_def with_limiter_Inr)
    next
      case (Inr user)
      show ?thesis
      proof (cases "is_number (dget b ''device_trust_score'')")
        case no: False
        with assms b lim False v Inr show ?thesis
          by (intro no_posture [OF b s1_def nl v [unfolded Inr] no])
            (auto simp: handle_login_def obind_eq_Inr olift_eq oret_eq as_dict_def Let_def)
      next
        case yes: True
        with assms b lim False v Inr show ?thesis
          by (intro granted [OF b s1_def nl v [unfolded Inr] yes refl])
            (auto simp: handle_login_def obind_eq_Inr olift_eq oret_eq as_dict_def Let_def with_limiter_Inr)
      qed
    qed
  qed
qed

lemma check_credentials_ok:
  assumes "check_credentials P cfg D u password otp now = Inr (Inr user)"
  shows "\<exists>bk secret. get_auth cfg D = Inr bk \<and> get_user P cfg D bk u = Inr (Some user) \<and>
    verify_password P cfg D bk u password = Inr True \<and> map_of user ''totp_secret'' = Some (PyStr secret) \<and>
    verify_totp secret (py_str P otp) 30 6 1 now = Inr True"
  using assms by (auto simp: check_credentials_def ebind_eq_Inr as_str_Inr dreq_eq_Inr split: option.splits if_splits)

definition login_device :: "string \<Rightarrow> dict \<Rightarrow> dict \<Rightarrow> pyval" where
  "login_device u b user = py_or (py_or (dget b ''device_id'') (dget user ''device_id'')) (PyStr (''unknown-'' @ u))"

definition login_methods :: "bool \<Rightarrow> pyval list" where
  "login_methods attested = [PyStr ''pwd'', PyStr ''otp''] @ (if attested then [PyStr ''device''] else [])"

lemma with_disk_Inr:
  "with_disk m s = (Inr a, s') \<longleftrightarrow>
     (\<exists>d. m (store.disk (reg_store (idp_registry s))) = (Inr a, d) \<and>
       s' = s\<lparr>idp_registry := (idp_registry s)\<lparr>reg_store := (reg_store (idp_registry s))\<lparr>store.disk := d\<rparr>\<rparr>\<rparr>)"
  by (auto simp: with_disk_def with_store_def on_part_def split: prod.splits)

lemma issue_token_Inr:
  "issue_token P cfg u role dev n att cnf authd amr t t' jti d = (Inr data, d') \<longleftrightarrow>
     (\<exists>claims. token_claims cfg u role dev n att cnf authd amr t jti = Inr claims \<and>
       record_issued jti u (PyInt (trunc t + token_ttl cfg)) dev t' d = (Inr (), d') \<and>
       data = [(''access_token'', PyStr (jwt_encode P claims)), (''token_type'', PyStr ''Bearer''),
           (''expires_in'', PyInt (token_ttl cfg)), (''claims'', PyDict claims)])"
  by (auto simp: issue_token_def obind_eq_Inr olift_eq oret_eq)

lemma grant_login_ok:
  assumes "grant_login P cfg q u b user score s = (Inr (status, payload), s')"
  obtains role attested s1 cnf n claims d s2 level where "status = 200" "map_of user ''role'' = Some role"
    "attested \<longrightarrow> py_truth (dget b ''attestation_signature'') \<and>
       verify_and_consume P (login_device u b user) (dget b ''attestation_signature'') (clk q 2) (idp_registry s) = (Inr True, idp_registry s1)"
    "idp_audit s1 = idp_audit s" "idp_limiter s1 = idp_limiter s"
    "binding_key cfg (login_device u b user) (reg_store (idp_registry s1)) = Inr cnf" "int_of score = Inr n"
    "token_claims cfg u role (login_device u b user) n attested cnf PyNone (login_methods attested) (clk q 3) (random_jti q) = Inr claims"
    "record_issued (random_jti q) u (PyInt (trunc (clk q 3) + token_ttl cfg)) (login_device u b user) (clk q 4)
       (store.disk (reg_store (idp_registry s1))) = (Inr (), d)"
    "s2 = s1\<lparr>idp_registry := (idp_registry s1)\<lparr>reg_store := (reg_store (idp_registry s1))\<lparr>store.disk := d\<rparr>\<rparr>\<rparr>"
    "idp_log P q 5 (login_event q u ''allow'' ''mfa_ok''
       [(''role'', role), (''role_level'', PyInt level), (''device_id'', login_device u b user),
        (''device_trust_score'', PyInt n), (''attested'', PyBool attested), (''jti'', PyStr (random_jti q)),
        (''token_bound'', PyBool (py_truth cnf)), (''correlation_id'', PyStr (correlation q))]) s2 = (Inr (), s')"
    "payload = PyDict [(''access_token'', PyStr (jwt_encode P claims)), (''token_type'', PyStr ''Bearer''),
       (''expires_in'', PyInt (token_ttl cfg)), (''claims'', PyDict claims)]"
    "reg_store (idp_registry s1) = reg_store (idp_registry s)"
proof -
  let ?dev = "login_device u b user" and ?sig = "dget b ''attestation_signature''"
  from assms obtain role where role: "map_of user ''role'' = Some role"
    by (cases "map_of user ''role''") (simp_all add: grant_login_def dreq_def olift_eq Let_def)
  let ?att = "if py_truth ?sig then with_registry (verify_and_consume P ?dev ?sig (clk q 2)) else oret False"
  define step where "step = ?att"
  have run: "grant_login P cfg q u b user score = obind step (\<lambda>attested.
      obind (read_store (binding_key cfg ?dev)) (\<lambda>cnf.
      obind (olift (int_of score)) (\<lambda>n.
      obind (with_disk (issue_token P cfg u role ?dev n attested cnf PyNone (login_methods attested)
               (clk q 3) (clk q 4) (random_jti q))) (\<lambda>data.
      obind (olift (role_level role)) (\<lambda>level.
      obind (idp_log P q 5 (login_event q u ''allow'' ''mfa_ok''
               [(''role'', role), (''role_level'', PyInt level), (''device_id'', ?dev),
                (''device_trust_score'', PyInt n), (''attested'', PyBool attested), (''jti'', PyStr (random_jti q)),
                (''token_bound'', PyBool (py_truth cnf)), (''correlation_id'', PyStr (correlation q))])) (\<lambda>_.
      oret (200, PyDict data)))))))"
    by (simp add: grant_login_def dreq_def role login_device_def login_methods_def step_def Let_def)
  from assms obtain attested s1 where att: "step s = (Inr attested, s1)"
    unfolding run by (auto simp: obind_eq_Inr)
  have a1: "attested \<longrightarrow> py_truth ?sig \<and> verify_and_consume P ?dev ?sig (clk q 2) (idp_registry s) = (Inr True, idp_registry s1)"
    "idp_audit s1 = idp_audit s" "idp_limiter s1 = idp_limiter s"
    using att unfolding step_def by (auto simp: with_registry_def on_part_def oret_eq split: if_splits prod.splits)
  have "reg_store (snd (verify_and_consume P d sig now reg)) = reg_store reg" for d sig now reg
    by (cases "key_of d") (simp_all add: verify_and_consume_def)
  then have keep: "reg_store (idp_registry s1) = reg_store (idp_registry s)"
    using att unfolding step_def by (auto simp: with_registry_def on_part_def oret_eq split: if_splits prod.splits) (metis snd_conv)
  from assms att obtain cnf n s2 data level where g:
    "binding_key cfg ?dev (reg_store (idp_registry s1)) = Inr cnf" "int_of score = Inr n"
    "with_disk (issue_token P cfg u role ?dev n attested cnf PyNone (login_methods attested)
       (clk q 3) (clk q 4) (random_jti q)) s1 = (Inr data, s2)"
    "idp_log P q 5 (login_event q u ''allow'' ''mfa_ok''
       [(''role'', role), (''role_level'', PyInt level), (''device_id'', ?dev),
        (''device_trust_score'', PyInt n), (''attested'', PyBool attested), (''jti'', PyStr (random_jti q)),
        (''token_bound'', PyBool (py_truth cnf)), (''correlation_id'', PyStr (correlation q))]) s2 = (Inr (), s')"
    "status = 200" "payload = PyDict data"
    unfolding run by (auto simp: obind_eq_Inr olift_eq oret_eq read_store_Inr)
  from g(3) obtain d claims where
    "token_claims cfg u role ?dev n attested cnf PyNone (login_methods attested) (clk q 3) (random_jti q) = Inr claims"
    "record_issued (random_jti q) u (PyInt (trunc (clk q 3) + token_ttl cfg)) ?dev (clk q 4)
       (store.disk (reg_store (idp_registry s1))) = (Inr (), d)"
    "s2 = s1\<lparr>idp_registry := (idp_registry s1)\<lparr>reg_store := (reg_store (idp_registry s1))\<lparr>store.disk := d\<rparr>\<rparr>\<rparr>"
    "data = [(''access_token'', PyStr (jwt_encode P claims)), (''token_type'', PyStr ''Bearer''),
       (''expires_in'', PyInt (token_ttl cfg)), (''claims'', PyDict claims)]"
    by (auto simp: with_disk_Inr issue_token_Inr)
  then show ?thesis
    using g(6) keep by (intro that [OF g(5) role a1 g(1,2) _ _ _ g(4)]) simp_all
qed

text \<open>What a granted login leaves on the disk: a record of the token that it answers with.\<close>

lemma login_records_token:
  assumes "handle_login P cfg D q (PyDict b) s = (Inr (200, payload), s')"
  obtains u data claims dev where "dget_or b ''username'' (PyStr []) = PyStr u" "payload = PyDict data"
    "map_of data ''claims'' = Some (PyDict claims)" "map_of claims ''jti'' = Some (PyStr (random_jti q))"
    "record_issued (random_jti q) u (PyInt (trunc (clk q 3) + token_ttl cfg)) dev (clk q 4)
       (store.disk (reg_store (idp_registry s))) = (Inr (), store.disk (reg_store (idp_registry s')))"
proof -
  from assms obtain b' u s1 s2 user where g: "PyDict b = PyDict b'" "dget_or b' ''username'' (PyStr []) = PyStr u"
      "s1 = s\<lparr>idp_limiter := snd (is_locked_out u (clk q 0) (idp_limiter s))\<rparr>"
      "s2 = s1\<lparr>idp_limiter := record_success u (idp_limiter s1)\<rparr>"
      "grant_login P cfg q u b' user (dget b' ''device_trust_score'') s2 = (Inr (200, payload), s')"
    by (rule handle_login_cases) auto
  have reg: "idp_registry s2 = idp_registry s" using g(3,4) by simp
  show thesis
    using g(5)
  proof (rule grant_login_ok)
    fix role attested s3 cnf n claims d s4 level
    assume d: "token_claims cfg u role (login_device u b' user) n attested cnf PyNone (login_methods attested) (clk q 3) (random_jti q) = Inr claims"
      "record_issued (random_jti q) u (PyInt (trunc (clk q 3) + token_ttl cfg)) (login_device u b' user) (clk q 4)
         (store.disk (reg_store (idp_registry s3))) = (Inr (), d)"
      "s4 = s3\<lparr>idp_registry := (idp_registry s3)\<lparr>reg_store := (reg_store (idp_registry s3))\<lparr>store.disk := d\<rparr>\<rparr>\<rparr>"
      "idp_log P q 5 (login_event q u ''allow'' ''mfa_ok''
         [(''role'', role), (''role_level'', PyInt level), (''device_id'', login_device u b' user),
          (''device_trust_score'', PyInt n), (''attested'', PyBool attested), (''jti'', PyStr (random_jti q)),
          (''token_bound'', PyBool (py_truth cnf)), (''correlation_id'', PyStr (correlation q))]) s4 = (Inr (), s')"
      "payload = PyDict [(''access_token'', PyStr (jwt_encode P claims)), (''token_type'', PyStr ''Bearer''),
         (''expires_in'', PyInt (token_ttl cfg)), (''claims'', PyDict claims)]"
      "reg_store (idp_registry s3) = reg_store (idp_registry s2)"
    have "map_of claims ''jti'' = Some (PyStr (random_jti q))"
      using d(1) by (auto simp: token_claims_def Let_def ebind_eq_Inr)
    moreover have "store.disk (reg_store (idp_registry s')) = d" using d(3,4) by (auto simp: idp_log_Inr)
    ultimately show thesis using that [of u _ claims] g(1,2) d(2,5,6) reg by simp
  qed
qed

text \<open>What a successful login returns, and the claims in it.\<close>

lemma login_payload:
  assumes "handle_login P cfg D q (PyDict b) s = (Inr (200, payload), s')"
  obtains u user role n attested cnf claims where "dget_or b ''username'' (PyStr []) = PyStr u" "map_of user ''role'' = Some role"
    "check_credentials P cfg D u (dget_or b ''password'' (PyStr [])) (dget_or b ''otp'' (PyStr [])) (clk q 1) = Inr (Inr user)"
    "int_of (dget b ''device_trust_score'') = Inr n"
    "token_claims cfg u role (login_device u b user) n attested cnf PyNone (login_methods attested) (clk q 3) (random_jti q) = Inr claims"
    "payload = PyDict [(''access_token'', PyStr (jwt_encode P claims)), (''token_type'', PyStr ''Bearer''),
       (''expires_in'', PyInt (token_ttl cfg)), (''claims'', PyDict claims)]"
proof -
  from assms obtain b' u s1 s2 user where g: "PyDict b = PyDict b'" "dget_or b' ''username'' (PyStr []) = PyStr u"
      "check_credentials P cfg D u (dget_or b' ''password'' (PyStr [])) (dget_or b' ''otp'' (PyStr [])) (clk q 1) = Inr (Inr user)"
      "grant_login P cfg q u b' user (dget b' ''device_trust_score'') s2 = (Inr (200, payload), s')"
    by (rule handle_login_cases) auto
  show thesis
    using g(4) by (rule grant_login_ok) (rule that [of u user], use g(1-3) in auto)
qed

section \<open>Properties\<close>

text \<open>
  C2: Nobody logs in without both factors. A login answered with 200 was not locked out, and its user exists in the
  configured directory, gave the password the directory accepts and a current one-time
  code for the secret that is kept here for that name, with a directory server too; the token carries that user's name and role, expires after the configured time, and
  says \<open>attested\<close> only if the device answered its challenge.
\<close>

theorem login_requires_both_factors:
  assumes "handle_login P cfg D q body s = (Inr (200, payload), s')"
  shows "\<exists>b u bk user secret pd claims att. body = PyDict b \<and> dget_or b ''username'' (PyStr []) = PyStr u \<and>
    \<not> fst (fst (is_locked_out u (clk q 0) (idp_limiter s))) \<and>
    get_auth cfg D = Inr bk \<and> get_user P cfg D bk u = Inr (Some user) \<and>
    verify_password P cfg D bk u (dget_or b ''password'' (PyStr [])) = Inr True \<and>
    map_of user ''totp_secret'' = Some (PyStr secret) \<and> map_of TOTP_SECRETS u = Some secret \<and>
    verify_totp secret (py_str P (dget_or b ''otp'' (PyStr []))) 30 6 1 (clk q 1) = Inr True \<and>
    payload = PyDict pd \<and> map_of pd ''claims'' = Some (PyDict claims) \<and> map_of pd ''access_token'' = Some (PyStr (jwt_encode P claims)) \<and>
    map_of claims ''sub'' = Some (PyStr u) \<and> map_of claims ''role'' = map_of user ''role'' \<and>
    map_of claims ''exp'' = Some (PyInt (trunc (clk q 3) + token_ttl cfg)) \<and> map_of claims ''attested'' = Some (PyBool att) \<and>
    (att \<longrightarrow> fst (verify_and_consume P (dget claims ''device_id'') (dget b ''attestation_signature'') (clk q 2) (idp_registry s)) = Inr True)"
proof -
  from assms obtain b u s1 s2 user where g: "body = PyDict b" "dget_or b ''username'' (PyStr []) = PyStr u"
      "s1 = s\<lparr>idp_limiter := snd (is_locked_out u (clk q 0) (idp_limiter s))\<rparr>"
      "\<not> fst (fst (is_locked_out u (clk q 0) (idp_limiter s)))"
      "check_credentials P cfg D u (dget_or b ''password'' (PyStr [])) (dget_or b ''otp'' (PyStr [])) (clk q 1) = Inr (Inr user)"
      "s2 = s1\<lparr>idp_limiter := record_success u (idp_limiter s1)\<rparr>"
      "grant_login P cfg q u b user (dget b ''device_trust_score'') s2 = (Inr (200, payload), s')"
    by (rule handle_login_cases) auto
  have reg: "idp_registry s2 = idp_registry s" using g(3,6) by simp
  show ?thesis
    using g(7)
  proof (rule grant_login_ok)
    fix role attested s3 cnf n claims d0 s4 level
    assume d: "map_of user ''role'' = Some role"
    "attested \<longrightarrow> py_truth (dget b ''attestation_signature'') \<and>
       verify_and_consume P (login_device u b user) (dget b ''attestation_signature'') (clk q 2) (idp_registry s2) = (Inr True, idp_registry s3)"
    "token_claims cfg u role (login_device u b user) n attested cnf PyNone (login_methods attested) (clk q 3) (random_jti q) = Inr claims"
    "payload = PyDict [(''access_token'', PyStr (jwt_encode P claims)), (''token_type'', PyStr ''Bearer''),
       (''expires_in'', PyInt (token_ttl cfg)), (''claims'', PyDict claims)]"
    have c: "map_of claims ''sub'' = Some (PyStr u)" "map_of claims ''role'' = Some role" "dget claims ''device_id'' = login_device u b user"
    "map_of claims ''exp'' = Some (PyInt (trunc (clk q 3) + token_ttl cfg))" "map_of claims ''attested'' = Some (PyBool attested)"
    using d(3) by (auto simp: token_claims_def Let_def dict_simps)
  have a: "attested \<longrightarrow> fst (verify_and_consume P (dget claims ''device_id'') (dget b ''attestation_signature'') (clk q 2) (idp_registry s)) = Inr True"
    using d(2) reg by (auto simp: c(3))
  have p: "map_of [(''access_token'', PyStr (jwt_encode P claims)), (''token_type'', PyStr ''Bearer''),
       (''expires_in'', PyInt (token_ttl cfg)), (''claims'', PyDict claims)] ''claims'' = Some (PyDict claims)"
    "map_of [(''access_token'', PyStr (jwt_encode P claims)), (''token_type'', PyStr ''Bearer''),
       (''expires_in'', PyInt (token_ttl cfg)), (''claims'', PyDict claims)] ''access_token'' = Some (PyStr (jwt_encode P claims))"
    by simp_all
  from check_credentials_ok [OF g(5)] obtain bk secret where "get_auth cfg D = Inr bk" "get_user P cfg D bk u = Inr (Some user)"
    "verify_password P cfg D bk u (dget_or b ''password'' (PyStr [])) = Inr True" "map_of user ''totp_secret'' = Some (PyStr secret)"
    "verify_totp secret (py_str P (dget_or b ''otp'' (PyStr []))) 30 6 1 (clk q 1) = Inr True"
    by blast
  moreover from this have "map_of TOTP_SECRETS u = Some secret" using configured_secret [of P cfg D bk u user] by auto
  ultimately show ?thesis using g(1,2,4) c a p d(1,4) by metis
  qed
qed

lemma idp_log_keeps:
  assumes "idp_log P q n given s = (Inr (), s')" and "verify_chain (float_repr P) (idp_audit s) = Inr (Intact k)"
    and "log_writable (idp_audit s)" and "map_of given ''hash'' = None" and "odict_ok given"
  shows "verify_chain (float_repr P) (idp_audit s') = Inr (Intact (Suc k)) \<and>
    (\<exists>e. read_events (idp_audit s') = read_events (idp_audit s) @ [PyDict e] \<and>
      (\<forall>j x. j \<noteq> ''prev_hash'' \<and> map_of given j = Some x \<longrightarrow> map_of e j = Some x))"
proof -
  from assms(1) obtain a where a: "log_event (float_repr P) (clk q n) (local_time q) given (idp_audit s) = (Inr (), a)"
    "s' = s\<lparr>idp_audit := a\<rparr>"
    by (auto simp: idp_log_Inr)
  show ?thesis using log_event_keeps [OF assms(2,4,5,3) a(1)] a(2) by simp
qed

lemma login_logged:
  assumes "handle_login P cfg D q (PyDict b) s = (Inr (status, payload), s')"
    and "verify_chain (float_repr P) (idp_audit s) = Inr (Intact k)" and "log_writable (idp_audit s)"
  shows "verify_chain (float_repr P) (idp_audit s') = Inr (Intact (Suc k)) \<and>
    (\<exists>e. read_events (idp_audit s') = read_events (idp_audit s) @ [PyDict e] \<and>
      map_of e ''username'' = Some (dget_or b ''username'' (PyStr [])) \<and>
      map_of e ''decision'' = Some (PyStr (if status = 200 then ''allow'' else ''deny'')))"
proof -
  have ev: "map_of (login_event q u dec why extra) ''username'' = Some (PyStr u)"
    "map_of (login_event q u dec why extra) ''decision'' = Some (PyStr dec)" for u dec why extra
    by (simp_all add: login_event_def)
  have fin: ?thesis
    if l: "idp_log P q 5 (login_event q u dec why extra) t = (Inr (), s')" and t: "idp_audit t = idp_audit s"
      and u: "dget_or b ''username'' (PyStr []) = PyStr u" and dec: "dec = (if status = 200 then ''allow'' else ''deny'')"
      and extra: "extra = [] \<or> map fst extra = [''role'', ''role_level'', ''device_id'', ''device_trust_score'', ''attested'', ''jti'',
         ''token_bound'', ''correlation_id'']"
    for u dec why extra t
  proof -
    have "set (map fst extra) \<subseteq> {''role'', ''role_level'', ''device_id'', ''device_trust_score'', ''attested'', ''jti'',
         ''token_bound'', ''correlation_id''}" "distinct (map fst extra)"
      using extra by auto
    then have ok: "map_of (login_event q u dec why extra) ''hash'' = None" "odict_ok (login_event q u dec why extra)"
      by (auto simp: login_event_def map_of_eq_None_iff)
    have a: "verify_chain (float_repr P) (idp_audit t) = Inr (Intact k)" "log_writable (idp_audit t)"
      using assms(2,3) t by simp_all
    from idp_log_keeps [OF l a ok] ev t u dec show ?thesis by fastforce
  qed
  show ?thesis
    using assms(1)
  proof (cases rule: handle_login_cases)
    case (locked b' u s1)
    then show ?thesis by (intro fin [OF locked(5)]) auto
  next
    case (refused b' u s1 s2 why)
    then show ?thesis by (intro fin [OF refused(7)]) auto
  next
    case (no_posture b' u s1 user)
    then show ?thesis by (intro fin [OF no_posture(7)]) auto
  next
    case (granted b' u s1 s2 user)
    show ?thesis
      using granted(8)
    proof (rule grant_login_ok)
      fix role attested s3 cnf n claims d0 s4 level
      assume g: "status = 200" "idp_audit s3 = idp_audit s2"
        "s4 = s3\<lparr>idp_registry := (idp_registry s3)\<lparr>reg_store := (reg_store (idp_registry s3))\<lparr>store.disk := d0\<rparr>\<rparr>\<rparr>"
        "idp_log P q 5 (login_event q u ''allow'' ''mfa_ok''
           [(''role'', role), (''role_level'', PyInt level), (''device_id'', login_device u b' user),
            (''device_trust_score'', PyInt n), (''attested'', PyBool attested), (''jti'', PyStr (random_jti q)),
            (''token_bound'', PyBool (py_truth cnf)), (''correlation_id'', PyStr (correlation q))]) s4 = (Inr (), s')"
      show ?thesis
        using g granted(1-3,7) by (intro fin [OF g(4)]) auto
    qed
  qed
qed

text \<open>
  C12: Every login that is answered is in the audit log: on an intact log, exactly one event is added, it names the
  user, says \<open>allow\<close> exactly for a 200, and the log is intact again.
\<close>

theorem every_login_is_audited:
  assumes "handle_login P cfg D q (PyDict b) s = (Inr (status, payload), s')"
    and "verify_chain (float_repr P) (idp_audit s) = Inr (Intact k)" and "log_writable (idp_audit s)"
  shows "verify_chain (float_repr P) (idp_audit s') = Inr (Intact (Suc k)) \<and>
    (\<exists>e. read_events (idp_audit s') = read_events (idp_audit s) @ [PyDict e] \<and>
      map_of e ''username'' = Some (dget_or b ''username'' (PyStr [])) \<and>
      map_of e ''decision'' = Some (PyStr (if status = 200 then ''allow'' else ''deny'')))"
  by (rule login_logged [OF assms])

text \<open>
  A refused login counts and leaves nothing behind: with wrong credentials the answer is 401,
  one failure is recorded for the user at that time, and registry, challenges and token
  store are as before.
\<close>

theorem wrong_credentials_count:
  assumes "check_credentials P cfg D u (dget_or b ''password'' (PyStr [])) (dget_or b ''otp'' (PyStr [])) (clk q 1) = Inr (Inl why)"
    and "dget_or b ''username'' (PyStr []) = PyStr u"
    and "\<not> fst (fst (is_locked_out u (clk q 0) (idp_limiter s)))"
    and "handle_login P cfg D q (PyDict b) s = (r, s')"
  shows "idp_limiter s' = record_failure cfg u (clk q 2) (snd (is_locked_out u (clk q 0) (idp_limiter s))) \<and>
    idp_registry s' = idp_registry s \<and> (\<exists>x. r = Inl x \<or> r = Inr (401, error_body why))"
proof -
  obtain retry where l: "fst (is_locked_out u (clk q 0) (idp_limiter s)) = (False, retry)"
    using assms(3) by (cases "fst (is_locked_out u (clk q 0) (idp_limiter s))") auto
  define s1 where "s1 = s\<lparr>idp_limiter := snd (is_locked_out u (clk q 0) (idp_limiter s))\<rparr>"
  define s2 where "s2 = s1\<lparr>idp_limiter := record_failure cfg u (clk q 2) (idp_limiter s1)\<rparr>"
  have lim: "with_limiter (is_locked_out u (clk q 0)) s = (Inr (False, retry), s1)"
    using l by (simp add: with_limiter_Inr s1_def)
  have fail: "with_limiter (\<lambda>l. ((), record_failure cfg u (clk q 2) l)) s1 = (Inr (), s2)"
    by (simp add: with_limiter_Inr s2_def)
  have run: "handle_login P cfg D q (PyDict b) s =
      obind (idp_log P q 5 (login_event q u ''deny'' why [])) (\<lambda>_. oret (401, error_body why)) s2"
    using assms(1,2) by (simp add: handle_login_def as_dict_def obind_def [of "with_limiter (is_locked_out u (clk q 0))"]
        lim obind_def [of "with_limiter (\<lambda>l. ((), record_failure cfg u (clk q 2) l))"] fail)
  have frame: "idp_limiter (snd (idp_log P q 5 e s2)) = idp_limiter s2 \<and> idp_registry (snd (idp_log P q 5 e s2)) = idp_registry s2" for e
    by (simp add: idp_log_def with_audit_def on_part_def split: prod.splits)
  show ?thesis
    using assms(4) frame [of "login_event q u ''deny'' why []"] unfolding run
    by (cases "idp_log P q 5 (login_event q u ''deny'' why []) s2"; cases "fst (idp_log P q 5 (login_event q u ''deny'' why []) s2)")
      (auto simp: obind_def oret_def s2_def s1_def)
qed

text \<open>
  C21: A locked account is no oracle: while it is locked, the answer to a login does not depend on the password, the
  one-time code or anything else in the request but the user name.
\<close>

theorem lockout_hides_credentials:
  assumes "fst (fst (is_locked_out u (clk q 0) (idp_limiter s)))"
    and "dget_or b ''username'' (PyStr []) = PyStr u" and "dget_or b' ''username'' (PyStr []) = PyStr u"
  shows "handle_login P cfg D q (PyDict b) s = handle_login P cfg D q (PyDict b') s \<and>
    idp_registry (snd (handle_login P cfg D q (PyDict b) s)) = idp_registry s"
proof -
  obtain retry where l: "fst (is_locked_out u (clk q 0) (idp_limiter s)) = (True, retry)"
    using assms(1) by (cases "fst (is_locked_out u (clk q 0) (idp_limiter s))") auto
  define s1 where "s1 = s\<lparr>idp_limiter := snd (is_locked_out u (clk q 0) (idp_limiter s))\<rparr>"
  have lim: "with_limiter (is_locked_out u (clk q 0)) s = (Inr (True, retry), s1)"
    using l by (simp add: with_limiter_Inr s1_def)
  have run: "handle_login P cfg D q (PyDict c) s =
      obind (idp_log P q 5 (login_event q u ''deny'' ''account_locked'' [])) (\<lambda>_.
         oret (429, PyDict [(''error'', PyStr ''account_locked''), (''retry_after_seconds'', PyFloat (Fin (round1 retry)))])) s1"
    if "dget_or c ''username'' (PyStr []) = PyStr u" for c
    using that by (simp add: handle_login_def as_dict_def obind_def [of "with_limiter (is_locked_out u (clk q 0))"] lim)
  have "idp_log P q 5 e s1 = (r, t) \<Longrightarrow> idp_registry t = idp_registry s" for e r t
    by (auto simp: idp_log_def with_audit_def on_part_def s1_def split: prod.splits)
  then have "idp_registry (snd (obind (idp_log P q 5 e) (\<lambda>_. oret x) s1)) = idp_registry s" for e x
    by (cases "idp_log P q 5 e s1"; cases "fst (idp_log P q 5 e s1)") (simp_all add: obind_def oret_def)
  then show ?thesis using run [OF assms(2)] run [OF assms(3)] by simp
qed

section \<open>Witnesses\<close>

definition fresh_idp :: idp where
  "fresh_idp = \<lparr>idp_audit = no_log, idp_limiter = [], idp_registry = empty_registry\<rparr>"

definition no_directory :: directory where
  "no_directory = \<lparr>dir_installed = False, dir_bind = (\<lambda>_ _. False), dir_groups = (\<lambda>_. None)\<rparr>"

definition alice_body :: "string \<Rightarrow> dict" where
  "alice_body otp = [(''username'', PyStr ''alice''), (''password'', PyStr ''Intern#2026''), (''otp'', PyStr otp),
     (''device_trust_score'', PyInt 90)]"

lemma alice_key: "\<exists>k. totp_key ''JBSWY3DPEHPK3PXPJBSWY3DP'' = Inr k"
  by (simp add: totp_key_def b32decode_def rstrip_by_def b32_val_def Let_def upper_def to_upper_def is_lower_def)

lemma alice_user: "map_of (USERS P) ''alice'' = Some (seed_user P ''alice'' ''Intern#2026'' ''intern'' ''WIN-LAPTOP-ALICE'')"
  by (simp add: USERS_def)

lemma toy_checkpw: "checkpw (toy_prims c) pw (hashpw (toy_prims c) salt pw)"
  by (simp add: toy_prims_def)

text \<open>The claims of the token that alice gets, from the device \<open>dev\<close> with the trust score \<open>n\<close>.\<close>

definition alice_claims :: "string \<Rightarrow> int \<Rightarrow> dict" where
  "alice_claims dev n = [(''sub'', PyStr ''alice''), (''role'', PyStr ''intern''), (''device_id'', PyStr dev),
     (''device_trust_score'', PyInt n), (''attested'', PyBool False), (''iat'', PyInt 1003), (''auth_time'', PyInt 1003),
     (''amr'', PyList [PyStr ''pwd'', PyStr ''otp'']), (''exp'', PyInt 1048), (''jti'', PyStr ''j1'')]"

definition alice_data :: "prims \<Rightarrow> string \<Rightarrow> int \<Rightarrow> dict" where
  "alice_data P dev n = [(''access_token'', PyStr (jwt_encode P (alice_claims dev n))), (''token_type'', PyStr ''Bearer''),
     (''expires_in'', PyInt 45), (''claims'', PyDict (alice_claims dev n))]"

lemma alice_logs_in:
  assumes hash: "\<And>pw salt. checkpw P pw (hashpw P salt pw)"
    and body: "dget_or b ''username'' (PyStr []) = PyStr ''alice''" "dget_or b ''password'' (PyStr []) = PyStr ''Intern#2026''"
      "dget_or b ''otp'' (PyStr []) = PyStr otp" "dget b ''device_trust_score'' = PyInt n" "\<not> py_truth (dget b ''attestation_signature'')"
    and otp: "verify_totp ''JBSWY3DPEHPK3PXPJBSWY3DP'' otp 30 6 1 1001 = Inr True"
    and dev: "py_or (py_or (dget b ''device_id'') (PyStr ''WIN-LAPTOP-ALICE'')) (PyStr (''unknown-'' @ ''alice'')) = PyStr dev"
  shows "\<exists>s'. handle_login P default_config no_directory calm (PyDict b) fresh_idp = (Inr (200, PyDict (alice_data P dev n)), s')"
proof -
  let ?P = P and ?user = "seed_user P ''alice'' ''Intern#2026'' ''intern'' ''WIN-LAPTOP-ALICE''"
  have cred: "check_credentials ?P default_config no_directory ''alice'' (PyStr ''Intern#2026'') (PyStr otp) 1001 = Inr (Inr ?user)"
    using otp by (simp add: check_credentials_def get_auth_def default_config_def local_get_user_def alice_user
        local_verify_password_def seed_user_def dreq_def as_str_def hash TOTP_SECRETS_def py_str_def)
  have lim: "is_locked_out ''alice'' 1000 [] = ((False, 0), [(''alice'', fresh_entry)])"
    by (simp add: is_locked_out_def rl_get_def fresh_entry_def)
  obtain d where d: "record_issued ''j1'' ''alice'' (PyInt 1048) (PyStr dev) 1004 empty_disk = (Inr (), d)"
  proof -
    have "healthy empty_disk" by (simp add: empty_disk_def healthy_def)
    then show ?thesis using that atomic_write_healthy
      by (fastforce simp: record_issued_def tok_load_def empty_disk_def tok_save_def)
  qed
  have log: "\<exists>a. log_event fr t stamp given no_log = (Inr (), a)" if "map_of given ''hash'' = None" "odict_ok given" for fr t stamp given
  proof -
    obtain r a where "log_event fr t stamp given no_log = (r, a)" by fastforce
    with log_event_keeps [OF no_log_intact that no_log_writable] show ?thesis by blast
  qed
  define s1 where "s1 = fresh_idp\<lparr>idp_limiter := [(''alice'', fresh_entry)]\<rparr>"
  define s2 where "s2 = s1\<lparr>idp_limiter := record_success ''alice'' [(''alice'', fresh_entry)]\<rparr>"
  have lim1: "with_limiter (is_locked_out ''alice'' (clk calm 0)) fresh_idp = (Inr (False, 0), s1)"
    by (simp add: with_limiter_Inr s1_def fresh_idp_def lim)
  have lim2: "with_limiter (\<lambda>l. ((), record_success ''alice'' l)) s1 = (Inr (), s2)"
    by (simp add: with_limiter_Inr s1_def s2_def)
  have run1: "handle_login ?P default_config no_directory calm (PyDict b) fresh_idp =
      grant_login ?P default_config calm ''alice'' b ?user (PyInt n) s2"
    using cred lim1 by (simp add: handle_login_def body as_dict_def dict_simps is_number_def Let_def
        obind_def [of "with_limiter (is_locked_out ''alice'' 1000)"]
        obind_def [of "with_limiter (\<lambda>l. ((), record_success ''alice'' l))"] lim2)
  have s2: "reg_store (idp_registry s2) = reg_store empty_registry" "idp_audit s2 = no_log"
    by (simp_all add: s2_def s1_def fresh_idp_def)
  have bind: "binding_key default_config (PyStr dev) (reg_store empty_registry) = Inr PyNone"
    by (simp add: binding_key_def get_device_def empty_registry_def run_memory dict_simps)
  have disk: "store.disk (reg_store empty_registry) = empty_disk" by (simp add: empty_registry_def)
  have claims: "token_claims default_config ''alice'' (PyStr ''intern'') (PyStr dev) n False PyNone PyNone
      [PyStr ''pwd'', PyStr ''otp''] 1003 ''j1'' = Inr (alice_claims dev n)"
    by (simp add: token_claims_def Let_def alice_claims_def trunc_def default_config_def)
  define s3 where "s3 = s2\<lparr>idp_registry := (idp_registry s2)\<lparr>reg_store := (reg_store (idp_registry s2))\<lparr>store.disk := d\<rparr>\<rparr>\<rparr>"
  have issue: "with_disk (issue_token ?P default_config ''alice'' (PyStr ''intern'') (PyStr dev) n False PyNone PyNone
      [PyStr ''pwd'', PyStr ''otp''] 1003 1004 ''j1'') s2 = (Inr (alice_data P dev n), s3)"
    using claims d by (auto simp: with_disk_Inr issue_token_Inr s2 disk s3_def trunc_def default_config_def alice_data_def)
  have audit: "\<exists>s4. idp_log ?P calm 5 (login_event calm ''alice'' ''allow'' ''mfa_ok'' extra) s3 = (Inr (), s4)"
    if "extra = [(''role'', r), (''role_level'', l), (''device_id'', v), (''device_trust_score'', m), (''attested'', a), (''jti'', j),
      (''token_bound'', t), (''correlation_id'', c)]" for extra r l v m a j t c
  proof -
    have "idp_audit s3 = no_log" by (simp add: s3_def s2)
    moreover have "\<exists>a. log_event (float_repr ?P) (clk calm 5) (local_time calm) (login_event calm ''alice'' ''allow'' ''mfa_ok'' extra) no_log = (Inr (), a)"
      by (rule log) (simp_all add: that login_event_def)
    ultimately show ?thesis by (auto simp: idp_log_Inr)
  qed
  have user: "map_of ?user ''role'' = Some (PyStr ''intern'')" "dget ?user ''device_id'' = PyStr ''WIN-LAPTOP-ALICE''"
    by (simp_all add: seed_user_def dict_simps)
  have device: "py_or (py_or (dget b ''device_id'') (dget ?user ''device_id'')) (PyStr (''unknown-'' @ ''alice'')) = PyStr dev"
    using dev by (simp only: user)
  have "\<exists>s4. grant_login ?P default_config calm ''alice'' b ?user (PyInt n) s2 = (Inr (200, PyDict (alice_data P dev n)), s4)"
    using audit issue
    by (simp add: grant_login_def user(1) dreq_def body(5) device [simplified] obind_eq_Inr read_store_Inr s2 bind oret_eq Let_def)
  then show ?thesis using run1 by auto
qed

lemma alice_login:
  obtains otp payload s' where "handle_login (toy_prims []) default_config no_directory calm (PyDict (alice_body otp)) fresh_idp = (Inr (200, payload), s')"
proof -
  obtain k where k: "totp_key ''JBSWY3DPEHPK3PXPJBSWY3DP'' = Inr k" using alice_key by blast
  from totp_within_a_step [OF k, of 1001 1001] obtain otp where
    otp: "verify_totp ''JBSWY3DPEHPK3PXPJBSWY3DP'' otp 30 6 1 1001 = Inr True" by auto
  have "\<exists>s'. handle_login (toy_prims []) default_config no_directory calm (PyDict (alice_body otp)) fresh_idp =
      (Inr (200, PyDict (alice_data (toy_prims []) ''WIN-LAPTOP-ALICE'' 90)), s')"
    using otp by (intro alice_logs_in) (simp_all add: toy_checkpw alice_body_def dict_simps py_or_def)
  then show thesis using that by blast
qed

theorem login_requires_both_factors_witness:
  "\<exists>otp payload s' secret. handle_login (toy_prims []) default_config no_directory calm (PyDict (alice_body otp)) fresh_idp = (Inr (200, payload), s') \<and>
     verify_totp secret otp 30 6 1 1001 = Inr True"
proof -
  obtain otp payload s' where run: "handle_login (toy_prims []) default_config no_directory calm (PyDict (alice_body otp)) fresh_idp = (Inr (200, payload), s')"
    by (rule alice_login)
  from login_requires_both_factors [OF run] obtain secret where
    "verify_totp secret (py_str (toy_prims []) (dget_or (alice_body otp) ''otp'' (PyStr []))) 30 6 1 (clk calm 1) = Inr True"
    by auto
  then have "verify_totp secret otp 30 6 1 1001 = Inr True" by (simp add: alice_body_def dict_simps py_str_def)
  with run show ?thesis by blast
qed

theorem every_login_is_audited_witness:
  "\<exists>otp payload s'. handle_login (toy_prims []) default_config no_directory calm (PyDict (alice_body otp)) fresh_idp = (Inr (200, payload), s') \<and>
     verify_chain (float_repr (toy_prims [])) (idp_audit s') = Inr (Intact 1)"
proof -
  obtain otp payload s' where run: "handle_login (toy_prims []) default_config no_directory calm (PyDict (alice_body otp)) fresh_idp = (Inr (200, payload), s')"
    by (rule alice_login)
  have "verify_chain (float_repr (toy_prims [])) (idp_audit fresh_idp) = Inr (Intact 0)" "log_writable (idp_audit fresh_idp)"
    by (simp_all add: fresh_idp_def no_log_intact no_log_writable)
  from every_login_is_audited [OF run this] run show ?thesis by auto
qed

theorem wrong_credentials_count_witness:
  "idp_limiter (snd (handle_login (toy_prims []) default_config no_directory calm (PyDict [(''username'', PyStr ''mallory'')]) fresh_idp)) =
     record_failure default_config ''mallory'' 1002 [(''mallory'', fresh_entry)]"
proof -
  let ?b = "[(''username'', PyStr ''mallory'')]"
  have c: "check_credentials (toy_prims []) default_config no_directory ''mallory'' (dget_or ?b ''password'' (PyStr []))
      (dget_or ?b ''otp'' (PyStr [])) (clk calm 1) = Inr (Inl ''invalid_credentials'')"
    by (simp add: check_credentials_def get_auth_def default_config_def local_get_user_def USERS_def)
  have l: "is_locked_out ''mallory'' 1000 [] = ((False, 0), [(''mallory'', fresh_entry)])"
    by (simp add: is_locked_out_def rl_get_def fresh_entry_def)
  obtain r s' where run: "handle_login (toy_prims []) default_config no_directory calm (PyDict ?b) fresh_idp = (r, s')" by fastforce
  have "dget_or ?b ''username'' (PyStr []) = PyStr ''mallory''" by (simp add: dict_simps)
  from wrong_credentials_count [OF c this _ run] run l show ?thesis by (simp add: fresh_idp_def)
qed

theorem lockout_hides_credentials_witness:
  "\<exists>s. fst (fst (is_locked_out ''alice'' 1000 (idp_limiter s))) \<and>
     handle_login (toy_prims []) default_config no_directory calm (PyDict (alice_body ''000000'')) s =
     handle_login (toy_prims []) default_config no_directory calm (PyDict [(''username'', PyStr ''alice'')]) s"
proof -
  define s where "s = fresh_idp\<lparr>idp_limiter := [(''alice'', \<lparr>failures = [900], locked_until = Some 1200\<rparr>)]\<rparr>"
  have l: "fst (fst (is_locked_out ''alice'' 1000 (idp_limiter s)))"
    by (simp add: s_def is_locked_out_def rl_get_def)
  then have l': "fst (fst (is_locked_out ''alice'' (clk calm 0) (idp_limiter s)))" by simp
  have "dget_or (alice_body ''000000'') ''username'' (PyStr []) = PyStr ''alice''"
    "dget_or [(''username'', PyStr ''alice'')] ''username'' (PyStr []) = PyStr ''alice''"
    by (simp_all add: alice_body_def dict_simps)
  from lockout_hides_credentials [OF l' this] l show ?thesis by blast
qed

end
