(* ===== verification/TokenBinding.thy ===== *)
theory TokenBinding
  imports DeviceRegistry
begin

text \<open>
  \<open>common/token_binding.py\<close>: the per-request proof that the caller of a bound token holds the
  device key, with the nonce cache of the Gateway process as its state, and the client's side
  of it, \<open>_build_device_proof\<close> of \<open>agent/client_agent.py\<close>.
\<close>

type_synonym nonce_cache = "(string, time) odict"

datatype proof_error =
    TokenNotBound
  | ProofMissing
  | ProofMalformed
  | ProofWrongToken
  | ProofWrongRequest
  | ProofStale
  | ProofNonceWeak
  | ProofReplayed
  | ProofUnknownDevice
  | ProofDeviceNotApproved
  | ProofKeyMismatch
  | ProofSignatureInvalid

text \<open>A proof is refused with a reason, or the check raises something else.\<close>

datatype proof_exn = Refused proof_error | Raised exn

fun raised :: "'a res \<Rightarrow> proof_exn + 'a" where
  "raised (Inl x) = Inl (Raised x)"
| "raised (Inr a) = Inr a"

definition refuse_unless :: "proof_error \<Rightarrow> bool \<Rightarrow> proof_exn + unit" where
  "refuse_unless why b = (if b then Inr () else Inl (Refused why))"

abbreviation bar :: char where
  "bar \<equiv> CHR ''|''"

definition build_proof_payload :: "string \<Rightarrow> string \<Rightarrow> string \<Rightarrow> int \<Rightarrow> string \<Rightarrow> string" where
  "build_proof_payload jti meth path timestamp nonce = join_with [bar] [jti, meth, path, dec_int timestamp, nonce]"

definition prune_nonces :: "time \<Rightarrow> nonce_cache \<Rightarrow> nonce_cache" where
  "prune_nonces now seen = filter (\<lambda>(n, expiry). \<not> expiry < now) seen"

definition remember_nonce :: "config \<Rightarrow> string \<Rightarrow> time \<Rightarrow> nonce_cache \<Rightarrow> bool \<times> nonce_cache" where
  "remember_nonce cfg nonce now seen =
     (let s = prune_nonces now seen in
      if map_of s nonce \<noteq> None then (False, s)
      else (True, AList.update nonce (now + of_int (proof_max_age cfg) + 5) s))"

definition token_requires_proof :: "config \<Rightarrow> dict \<Rightarrow> bool" where
  "token_requires_proof cfg claims =
     (token_binding_enabled cfg \<and>
      (case dget claims ''cnf'' of PyDict c \<Rightarrow> py_truth (dget c ''jkt'') | _ \<Rightarrow> False))"


definition expected_jkt :: "dict \<Rightarrow> pyval res" where
  "expected_jkt claims =
     ebind (as_dict (py_or (dget claims ''cnf'') (PyDict []))) (\<lambda>c. Inr (dget c ''jkt''))"

text \<open>Everything up to the nonce: the thumbprint to expect, the signature, the time stamp, the nonce.\<close>

definition read_proof ::
  "config \<Rightarrow> dict \<Rightarrow> string \<Rightarrow> string \<Rightarrow> string \<Rightarrow> string \<Rightarrow> time \<Rightarrow>
   proof_exn + (pyval \<times> string \<times> string \<times> int \<times> string)" where
  "read_proof cfg claims meth path proof_b64 proof_data_b64 now =
     ebind (raised (expected_jkt claims)) (\<lambda>jkt.
     ebind (refuse_unless TokenNotBound (py_truth jkt)) (\<lambda>_.
     ebind (refuse_unless ProofMissing (proof_b64 \<noteq> [] \<and> proof_data_b64 \<noteq> [])) (\<lambda>_.
     case (Option.bind (b64decode proof_data_b64) utf8_decode, b64decode proof_b64) of
       (Some text, Some signature) \<Rightarrow>
         (case split_on bar text of
            [proof_jti, proof_method, proof_path, proof_ts_raw, nonce] \<Rightarrow>
              ebind (refuse_unless ProofWrongToken (py_eq (PyStr proof_jti) (dget claims ''jti''))) (\<lambda>_.
              ebind (refuse_unless ProofWrongRequest (proof_method = meth \<and> proof_path = path)) (\<lambda>_.
              case py_int proof_ts_raw of
                None \<Rightarrow> Inl (Refused ProofMalformed)
              | Some ts \<Rightarrow>
                  let age = now - of_int ts in
                  ebind (refuse_unless ProofStale
                    (\<not> (age > of_int (proof_max_age cfg) \<or> age < - of_int (proof_max_age cfg)))) (\<lambda>_.
                  ebind (refuse_unless ProofNonceWeak (nonce \<noteq> [] \<and> 8 \<le> py_len nonce)) (\<lambda>_.
                    Inr (jkt, signature, proof_jti, ts, nonce)))))
          | _ \<Rightarrow> Inl (Refused ProofMalformed))
     | _ \<Rightarrow> Inl (Refused ProofMalformed))))"

text \<open>Everything after the nonce: the device, its key, the signature.\<close>

definition check_device ::
  "prims \<Rightarrow> dict \<Rightarrow> string \<Rightarrow> string \<Rightarrow> pyval \<Rightarrow> string \<Rightarrow> string \<Rightarrow> int \<Rightarrow> string \<Rightarrow> store \<Rightarrow> proof_exn + unit" where
  "check_device P claims meth path jkt signature proof_jti ts nonce st =
     (let device_id = dget claims ''device_id'' in
      ebind (raised (if py_truth device_id then get_device device_id st else Inr PyNone)) (\<lambda>r.
      ebind (refuse_unless ProofUnknownDevice (py_truth r)) (\<lambda>_.
      ebind (raised (as_dict r)) (\<lambda>e.
      ebind (refuse_unless ProofDeviceNotApproved (py_eq (dget e ''status'') STATUS_APPROVED)) (\<lambda>_.
      ebind (raised (if py_truth (dget e ''thumbprint'') then Inr (dget e ''thumbprint'')
                     else ebind (dreq e ''public_key_pem'') (\<lambda>pem. ebind (key_thumbprint P pem) (\<lambda>tp. Inr (PyStr tp))))) (\<lambda>actual.
      ebind (refuse_unless ProofKeyMismatch (py_eq actual jkt)) (\<lambda>_.
      ebind (raised (ebind (dreq e ''public_key_pem'') (\<lambda>pem.
               verify_signature P pem signature (build_proof_payload proof_jti meth path ts nonce)))) (\<lambda>ok.
      refuse_unless ProofSignatureInvalid ok))))))))"

definition verify_proof ::
  "prims \<Rightarrow> config \<Rightarrow> dict \<Rightarrow> string \<Rightarrow> string \<Rightarrow> string \<Rightarrow> string \<Rightarrow> time \<Rightarrow> store \<Rightarrow> nonce_cache \<Rightarrow>
   (proof_exn + unit) \<times> nonce_cache" where
  "verify_proof P cfg claims meth path proof_b64 proof_data_b64 now st seen =
     (case read_proof cfg claims meth path proof_b64 proof_data_b64 now of
        Inl x \<Rightarrow> (Inl x, seen)
      | Inr (jkt, signature, proof_jti, ts, nonce) \<Rightarrow>
          (case remember_nonce cfg nonce now seen of
             (False, seen') \<Rightarrow> (Inl (Refused ProofReplayed), seen')
           | (True, seen') \<Rightarrow> (check_device P claims meth path jkt signature proof_jti ts nonce st, seen')))"

text \<open>
  The client: with a bound token, the two headers; \<open>sign\<close> is the device key's signature,
  \<open>None\<close> where signing raised, and then no header is sent.
\<close>

definition build_device_proof ::
  "prims \<Rightarrow> (string \<Rightarrow> string option) \<Rightarrow> dict \<Rightarrow> string \<Rightarrow> string \<Rightarrow> time \<Rightarrow> string \<Rightarrow> (string \<times> string) list" where
  "build_device_proof P sign claims meth path now nonce =
     (if \<not> py_truth (dget claims ''cnf'') then []
      else case map_of claims ''jti'' of
        Some jti \<Rightarrow>
          (let payload = build_proof_payload (py_str P jti) meth path (trunc now) nonce in
           case sign payload of
             None \<Rightarrow> []
           | Some signature \<Rightarrow>
               [(''X-Device-Proof'', b64encode signature), (''X-Device-Proof-Data'', b64encode payload)])
      | None \<Rightarrow> [])"


section \<open>Reading proofs\<close>

lemma raised_eq_Inr [simp]: "raised r = Inr a \<longleftrightarrow> r = Inr a"
  by (cases r) auto

lemma refuse_unless_Inr [simp]: "refuse_unless why b = Inr u \<longleftrightarrow> b"
  by (simp add: refuse_unless_def)

lemma not_five:
  "\<forall>a b c d e. xs \<noteq> [a, b, c, d, e] \<Longrightarrow> (case xs of [a, b, c, d, e] \<Rightarrow> f a b c d e | _ \<Rightarrow> z) = z"
  by (auto split: list.splits)

lemma read_proof_Inr:
  assumes "read_proof cfg claims meth path sig64 data64 now = Inr (jkt, sig, jti, ts, nonce)"
  shows "expected_jkt claims = Inr jkt" "py_truth jkt" "b64decode sig64 = Some sig"
    "dget claims ''jti'' = PyStr jti" "now - of_int ts \<le> of_int (proof_max_age cfg)"
    "- of_int (proof_max_age cfg) \<le> now - of_int ts" "8 \<le> py_len nonce"
    "\<exists>text raw. Option.bind (b64decode data64) utf8_decode = Some text \<and> split_on bar text = [jti, meth, path, raw, nonce] \<and>
       py_int raw = Some ts"
proof -
  from assms obtain body sg where b: "Option.bind (b64decode data64) utf8_decode = Some body" "b64decode sig64 = Some sg"
    by (cases "Option.bind (b64decode data64) utf8_decode"; cases "b64decode sig64")
      (simp_all add: read_proof_def ebind_eq_Inr)
  have "\<exists>p1 p2 p3 p4 p5. split_on bar body = [p1, p2, p3, p4, p5]"
  proof (rule ccontr)
    assume "\<not> ?thesis"
    with assms b show False by (simp add: read_proof_def ebind_eq_Inr not_five)
  qed
  then obtain p1 p2 p3 p4 p5 where l: "split_on bar body = [p1, p2, p3, p4, p5]" by blast
  with assms b obtain n where n: "py_int p4 = Some n"
    by (cases "py_int p4") (simp_all add: read_proof_def ebind_eq_Inr)
  show "expected_jkt claims = Inr jkt" "py_truth jkt" "b64decode sig64 = Some sig"
    "dget claims ''jti'' = PyStr jti" "now - of_int ts \<le> of_int (proof_max_age cfg)"
    "- of_int (proof_max_age cfg) \<le> now - of_int ts" "8 \<le> py_len nonce"
    using assms by (auto simp: read_proof_def ebind_eq_Inr b l n Let_def)
  show "\<exists>text raw. Option.bind (b64decode data64) utf8_decode = Some text \<and> split_on bar text = [jti, meth, path, raw, nonce] \<and>
       py_int raw = Some ts"
    using assms by (auto simp: read_proof_def ebind_eq_Inr b l n Let_def)
qed

lemma verify_proof_ok:
  assumes "verify_proof P cfg claims meth path sig64 data64 now st seen = (Inr (), seen')"
  obtains jkt sig jti ts nonce where
    "read_proof cfg claims meth path sig64 data64 now = Inr (jkt, sig, jti, ts, nonce)"
    "remember_nonce cfg nonce now seen = (True, seen')"
    "check_device P claims meth path jkt sig jti ts nonce st = Inr ()"
  using assms by (auto simp: verify_proof_def split: sum.splits prod.splits bool.splits)

lemma check_device_ok:
  assumes "check_device P claims meth path jkt sig jti ts nonce st = Inr ()"
  shows "\<exists>k e pem key actual. dget claims ''device_id'' = PyStr k \<and> device_of st k = Some e \<and>
    dget e ''status'' = STATUS_APPROVED \<and> map_of e ''public_key_pem'' = Some (PyStr pem) \<and> load_pem P pem = Some key \<and>
    key_kind key \<noteq> OtherKey \<and> sig_valid P key sig (build_proof_payload jti meth path ts nonce) \<and>
    py_eq actual jkt \<and>
    (actual = dget e ''thumbprint'' \<or> \<not> py_truth (dget e ''thumbprint'') \<and> actual = PyStr (sha256_hex (key_der key)))"
proof -
  from assms obtain r e actual pem where r:
    "(if py_truth (dget claims ''device_id'') then get_device (dget claims ''device_id'') st else Inr PyNone) = Inr r"
    "py_truth r" "r = PyDict e" "dget e ''status'' = STATUS_APPROVED"
    "(if py_truth (dget e ''thumbprint'') then Inr (dget e ''thumbprint'')
      else ebind (dreq e ''public_key_pem'') (\<lambda>pem. ebind (key_thumbprint P pem) (\<lambda>tp. Inr (PyStr tp)))) = Inr actual"
    "py_eq actual jkt" "dreq e ''public_key_pem'' = Inr pem"
    "verify_signature P pem sig (build_proof_payload jti meth path ts nonce) = Inr True"
    unfolding check_device_def Let_def by (auto simp: ebind_eq_Inr as_dict_Inr)
  from r(1,2) obtain k where k: "dget claims ''device_id'' = PyStr k" "store_get st NAMESPACE k PyNone = r"
    by (auto simp: get_device_def ebind_eq_Inr key_of_Inr split: if_splits)
  with r(2,3) have "device_of st k = Some e" by (simp add: device_of_def)
  moreover from r(8) obtain s key where s: "pem = PyStr s" "load_pem P s = Some key" "key_kind key \<noteq> OtherKey"
      "sig_valid P key sig (build_proof_payload jti meth path ts nonce)"
    by (auto simp: verify_signature_def ebind_eq_Inr as_str_Inr split: option.splits)
  moreover have "actual = dget e ''thumbprint'' \<or> \<not> py_truth (dget e ''thumbprint'') \<and> actual = PyStr (sha256_hex (key_der key))"
    using r(5,7) s(1,2) by (auto simp: key_thumbprint_def as_str_def split: if_splits)
  ultimately show ?thesis
    using k(1) r(4,6,7) by (auto simp: dreq_eq_Inr)
qed

section \<open>Properties\<close>

text \<open>
  C4: A proof that is accepted shows possession of the key the token is bound to: the device of the
  token is approved, the thumbprint of its key is the one in the token, and the signature
  verifies under that key over this token's id, this method, this path, a time stamp within
  the freshness window and a nonce of at least eight characters.
\<close>

theorem accepted_proof_shows_possession:
  assumes "verify_proof P cfg claims meth path sig64 data64 now st seen = (Inr (), seen')"
  shows "\<exists>jkt jti ts nonce k e pem key sig. expected_jkt claims = Inr jkt \<and> dget claims ''jti'' = PyStr jti \<and>
    \<bar>now - of_int ts\<bar> \<le> of_int (proof_max_age cfg) \<and> 8 \<le> py_len nonce \<and> b64decode sig64 = Some sig \<and>
    dget claims ''device_id'' = PyStr k \<and> device_of st k = Some e \<and> dget e ''status'' = STATUS_APPROVED \<and>
    map_of e ''public_key_pem'' = Some (PyStr pem) \<and> load_pem P pem = Some key \<and>
    sig_valid P key sig (build_proof_payload jti meth path ts nonce) \<and>
    (py_eq (dget e ''thumbprint'') jkt \<or> \<not> py_truth (dget e ''thumbprint'') \<and> jkt = PyStr (sha256_hex (key_der key)))"
proof -
  from assms obtain jkt sig jti ts nonce where r:
    "read_proof cfg claims meth path sig64 data64 now = Inr (jkt, sig, jti, ts, nonce)"
    "check_device P claims meth path jkt sig jti ts nonce st = Inr ()"
    by (rule verify_proof_ok)
  note f = read_proof_Inr [OF r(1)]
  from check_device_ok [OF r(2)] obtain k e pem key actual where d:
    "dget claims ''device_id'' = PyStr k" "device_of st k = Some e" "dget e ''status'' = STATUS_APPROVED"
    "map_of e ''public_key_pem'' = Some (PyStr pem)" "load_pem P pem = Some key"
    "sig_valid P key sig (build_proof_payload jti meth path ts nonce)" "py_eq actual jkt"
    "actual = dget e ''thumbprint'' \<or> \<not> py_truth (dget e ''thumbprint'') \<and> actual = PyStr (sha256_hex (key_der key))"
    by blast
  have "py_eq (dget e ''thumbprint'') jkt \<or> \<not> py_truth (dget e ''thumbprint'') \<and> jkt = PyStr (sha256_hex (key_der key))"
    using d(7,8) by auto
  moreover have "\<bar>now - of_int ts\<bar> \<le> of_int (proof_max_age cfg)" using f(5,6) by (simp add: abs_le_iff)
  ultimately show ?thesis using f d by blast
qed

text \<open>Requests with proofs, in the order in which the cache sees them.\<close>

record proof_request =
  pr_claims :: dict
  pr_path :: string
  pr_sig :: string
  pr_data :: string
  pr_now :: time
  pr_store :: store

definition prove :: "prims \<Rightarrow> config \<Rightarrow> proof_request \<Rightarrow> nonce_cache \<Rightarrow> bool \<times> nonce_cache" where
  "prove P cfg q seen =
     (case verify_proof P cfg (pr_claims q) ''GET'' (pr_path q) (pr_sig q) (pr_data q) (pr_now q) (pr_store q) seen of
        (r, seen') \<Rightarrow> (r = Inr (), seen'))"

fun prove_all :: "prims \<Rightarrow> config \<Rightarrow> proof_request list \<Rightarrow> nonce_cache \<Rightarrow> bool list \<times> nonce_cache" where
  "prove_all P cfg [] seen = ([], seen)"
| "prove_all P cfg (q # qs) seen =
     (case prove P cfg q seen of (b, seen1) \<Rightarrow>
        (case prove_all P cfg qs seen1 of (bs, seen2) \<Rightarrow> (b # bs, seen2)))"

text \<open>The time stamp and the nonce that a proof carries.\<close>

definition proof_says :: "string \<Rightarrow> (int \<times> string) option" where
  "proof_says data64 =
     (case Option.bind (b64decode data64) utf8_decode of
        None \<Rightarrow> None
      | Some text \<Rightarrow> (case split_on bar text of
           [a, b, c, raw, nonce] \<Rightarrow> map_option (\<lambda>ts. (ts, nonce)) (py_int raw)
         | _ \<Rightarrow> None))"

lemma prove_accepts:
  assumes "prove P cfg q seen = (True, seen')"
  obtains ts nonce where "proof_says (pr_data q) = Some (ts, nonce)" "remember_nonce cfg nonce (pr_now q) seen = (True, seen')"
    "pr_now q - of_int ts \<le> of_int (proof_max_age cfg)"
proof -
  have v: "verify_proof P cfg (pr_claims q) ''GET'' (pr_path q) (pr_sig q) (pr_data q) (pr_now q) (pr_store q) seen = (Inr (), seen')"
    using assms by (auto simp: prove_def split: prod.splits)
  from v obtain jkt sig jti ts nonce where r:
    "read_proof cfg (pr_claims q) ''GET'' (pr_path q) (pr_sig q) (pr_data q) (pr_now q) = Inr (jkt, sig, jti, ts, nonce)"
    "remember_nonce cfg nonce (pr_now q) seen = (True, seen')"
    by (rule verify_proof_ok)
  from read_proof_Inr(8) [OF r(1)] have "proof_says (pr_data q) = Some (ts, nonce)" by (auto simp: proof_says_def)
  with r(2) read_proof_Inr(5) [OF r(1)] that show ?thesis by blast
qed

lemma prove_step:
  assumes "prove P cfg q seen = (b, seen')"
  shows "seen' = seen \<or> (\<exists>nonce. seen' = snd (remember_nonce cfg nonce (pr_now q) seen))"
proof (cases "read_proof cfg (pr_claims q) ''GET'' (pr_path q) (pr_sig q) (pr_data q) (pr_now q)")
  case (Inl x)
  with assms show ?thesis by (simp add: prove_def verify_proof_def)
next
  case (Inr a)
  obtain jkt sig jti ts nonce where a: "a = (jkt, sig, jti, ts, nonce)" by (cases a)
  obtain f s where s: "remember_nonce cfg nonce (pr_now q) seen = (f, s)" by fastforce
  with assms Inr a have "seen' = s" by (cases f) (auto simp: prove_def verify_proof_def)
  with s show ?thesis by (metis snd_conv)
qed

text \<open>An entry stays until it has expired.\<close>

lemma remember_keeps:
  assumes "map_of seen n = Some expiry" and "odict_ok seen" and "now \<le> expiry"
  shows "map_of (snd (remember_nonce cfg m now seen)) n = Some expiry \<and> odict_ok (snd (remember_nonce cfg m now seen))"
proof -
  have "map_of (prune_nonces now seen) n = Some expiry"
    using assms map_of_filter_items [OF assms(2), of "\<lambda>n e. \<not> e < now" n]
    by (simp add: prune_nonces_def del: map_of_eq_Some_iff)
  moreover have "odict_ok (prune_nonces now seen)" using assms(2) by (simp add: prune_nonces_def)
  ultimately show ?thesis by (cases "m = n") (simp_all add: remember_nonce_def Let_def dict_simps del: map_of_eq_Some_iff)
qed

lemma remember_ok: "odict_ok seen \<Longrightarrow> odict_ok (snd (remember_nonce cfg m now seen))"
  by (simp add: remember_nonce_def prune_nonces_def Let_def)

lemma prove_keeps:
  assumes "prove P cfg q seen = (b, seen')" and "map_of seen n = Some expiry" and "odict_ok seen" and "pr_now q \<le> expiry"
  shows "map_of seen' n = Some expiry \<and> odict_ok seen'"
  using prove_step [OF assms(1)] remember_keeps [OF assms(2-4)] assms(2,3) by auto

lemma prove_all_keeps:
  "prove_all P cfg qs seen = (bs, seen') \<Longrightarrow> map_of seen n = Some expiry \<Longrightarrow> odict_ok seen \<Longrightarrow>
   \<forall>q \<in> set qs. pr_now q \<le> expiry \<Longrightarrow> map_of seen' n = Some expiry \<and> odict_ok seen'"
proof (induction qs arbitrary: seen bs)
  case (Cons q qs)
  obtain b seen1 bs1 where s: "prove P cfg q seen = (b, seen1)" "prove_all P cfg qs seen1 = (bs1, seen')"
    using Cons.prems(1) by (auto split: prod.splits)
  have "map_of seen1 n = Some expiry \<and> odict_ok seen1"
    by (rule prove_keeps [OF s(1) Cons.prems(2,3)]) (use Cons.prems(4) in simp)
  with Cons.IH [OF s(2)] Cons.prems(4) show ?case by auto
qed simp

text \<open>
  C36: A proof is not accepted twice, as far as its time stamp is honest. In any sequence of requests in
  the order of the clock, if a proof is accepted and later another one with the same nonce and time stamp,
  then that time stamp lay more than five seconds ahead of the clock the first time.
\<close>

theorem replay_only_if_postdated:
  assumes "odict_ok seen" and "prove P cfg q seen = (True, seen1)"
    and "prove_all P cfg qs seen1 = (bs, seen2)" and "prove P cfg q' seen2 = (True, seen3)"
    and "proof_says (pr_data q) = Some (ts, nonce)" and "proof_says (pr_data q') = Some (ts, nonce)"
    and "sorted (map pr_now (q # qs @ [q']))"
  shows "pr_now q + 5 < of_int ts"
proof (rule ccontr)
  assume honest: "\<not> pr_now q + 5 < of_int ts"
  let ?expiry = "pr_now q + of_int (proof_max_age cfg) + 5"
  from assms(2) have where1: "remember_nonce cfg nonce (pr_now q) seen = (True, seen1)"
    by (rule prove_accepts) (use assms(5) in auto)
  then have e: "map_of seen1 nonce = Some ?expiry" "odict_ok seen1"
    using remember_ok [OF assms(1), of cfg nonce "pr_now q"]
    by (auto simp: remember_nonce_def Let_def dict_simps simp del: map_of_eq_Some_iff split: if_splits)
  from assms(4) obtain ts' nonce' where says: "proof_says (pr_data q') = Some (ts', nonce')"
    and seen': "remember_nonce cfg nonce' (pr_now q') seen2 = (True, seen3)"
    and fresh': "pr_now q' - of_int ts' \<le> of_int (proof_max_age cfg)"
    by (rule prove_accepts)
  with assms(6) have where2: "remember_nonce cfg nonce (pr_now q') seen2 = (True, seen3)"
    and fresh: "pr_now q' - of_int ts \<le> of_int (proof_max_age cfg)"
    by simp_all
  have late: "pr_now q' \<le> ?expiry" using honest fresh by linarith
  have "\<forall>p \<in> set qs. pr_now p \<le> ?expiry"
    using assms(7) late by (force simp: sorted_append)
  with prove_all_keeps [OF assms(3) e] have "map_of seen2 nonce = Some ?expiry" "odict_ok seen2" by blast+
  then have "map_of (prune_nonces (pr_now q') seen2) nonce = Some ?expiry"
    using map_of_filter_items [of seen2 "\<lambda>n e. \<not> e < pr_now q'" nonce] late by (simp add: prune_nonces_def del: map_of_eq_Some_iff)
  with where2 show False by (simp add: remember_nonce_def Let_def)
qed

definition bound_claims :: dict where
  "bound_claims = [(''sub'', PyStr ''carol''), (''device_id'', PyStr ''d1''), (''jti'', PyStr ''j1''),
     (''cnf'', PyDict [(''jkt'', PyStr (sha256_hex ''key''))])]"

definition one_device :: store where
  "one_device = \<lparr>backend = MemoryBackend [(NAMESPACE, [(''d1'', PyDict [(''public_key_pem'', PyStr ''key''),
     (''thumbprint'', PyStr (sha256_hex ''key'')), (''status'', STATUS_APPROVED)])])], disk = empty_disk\<rparr>"

definition sample_payload :: string where
  "sample_payload = build_proof_payload ''j1'' ''GET'' ''/access/docs-app'' 130 ''0123abcd''"

definition sample_request :: "time \<Rightarrow> proof_request" where
  "sample_request now = \<lparr>pr_claims = bound_claims, pr_path = ''/access/docs-app'',
     pr_sig = b64encode (''key'' @ sample_payload), pr_data = b64encode sample_payload, pr_now = now, pr_store = one_device\<rparr>"

lemma ascii_join: "join_with [c] ws = s \<Longrightarrow> \<forall>w \<in> set ws. ascii w \<Longrightarrow> (of_char c :: nat) < 128 \<Longrightarrow> ascii s"
proof (induction ws arbitrary: s)
  case (Cons w ws)
  then show ?case by (cases ws) auto
qed auto

lemma payload_parts:
  assumes "bar \<notin> set jti" and "bar \<notin> set meth" and "bar \<notin> set path" and "bar \<notin> set nonce"
  shows "split_on bar (build_proof_payload jti meth path ts nonce) = [jti, meth, path, dec_int ts, nonce]"
  unfolding build_proof_payload_def using assms bar_notin_dec_int by (intro split_on_join) auto

lemma payload_ascii:
  assumes "ascii jti" and "ascii meth" and "ascii path" and "ascii nonce"
  shows "ascii (build_proof_payload jti meth path ts nonce)"
  using assms ascii_dec_int [of ts] by (intro ascii_join [OF build_proof_payload_def [symmetric]]) auto

text \<open>
  C37: The client's proof is accepted. For a token bound to an approved device whose key made the signature,
  and clocks that differ by less than the freshness window, the two headers that the agent
  builds pass the Gateway's check, unless the nonce was used before.
\<close>

theorem agent_proof_accepted:
  assumes cnf: "dget claims ''cnf'' = PyDict c" "dget c ''jkt'' = PyStr tp" "tp \<noteq> []"
    and jti: "map_of claims ''jti'' = Some (PyStr jti)" and dev: "dget claims ''device_id'' = PyStr k" "k \<noteq> []"
    and rec: "device_of st k = Some e" "dget e ''status'' = STATUS_APPROVED" "dget e ''thumbprint'' = PyStr tp"
      "map_of e ''public_key_pem'' = Some (PyStr pem)"
    and key: "load_pem P pem = Some key" "key_kind key \<noteq> OtherKey"
    and sign: "sign (build_proof_payload jti meth path (trunc client) nonce) = Some s" "s \<noteq> []"
      "sig_valid P key s (build_proof_payload jti meth path (trunc client) nonce)"
    and bars: "bar \<notin> set jti" "bar \<notin> set meth" "bar \<notin> set path" "bar \<notin> set nonce"
    and plain: "ascii jti" "ascii meth" "ascii path" "ascii nonce"
    and clock: "0 \<le> client" "\<bar>now - client\<bar> \<le> of_int (proof_max_age cfg) - 1"
    and nonce: "8 \<le> length nonce" "map_of (prune_nonces now seen) nonce = None"
  shows "\<exists>sig64 data64 seen'. build_device_proof P sign claims meth path client nonce =
      [(''X-Device-Proof'', sig64), (''X-Device-Proof-Data'', data64)] \<and>
    verify_proof P cfg claims meth path sig64 data64 now st seen = (Inr (), seen')"
proof -
  let ?ts = "trunc client"
  let ?pl = "build_proof_payload jti meth path ?ts nonce"
  have hdr: "build_device_proof P sign claims meth path client nonce =
      [(''X-Device-Proof'', b64encode s), (''X-Device-Proof-Data'', b64encode ?pl)]"
    using cnf sign jti by (auto simp: build_device_proof_def py_str_def dget_def split: option.splits)
  have ts: "of_int ?ts \<le> client" "client < of_int ?ts + 1" using clock(1) by (auto simp: trunc_def)
  have age: "\<not> (now - of_int ?ts > of_int (proof_max_age cfg) \<or> now - of_int ?ts < - of_int (proof_max_age cfg))"
    using ts clock(2) by (auto simp: abs_le_iff)
  have dec: "utf8_decode ?pl = Some ?pl"
    by (rule utf8_decode_ascii [OF payload_ascii [OF plain]])
  have len: "py_len nonce = length nonce" by (rule py_len_ascii [OF plain(4)])
  have pl: "?pl \<noteq> []"
  proof
    assume "?pl = []"
    with payload_parts [OF bars, of ?ts] show False by simp
  qed
  have "read_proof cfg claims meth path (b64encode s) (b64encode ?pl) now = Inr (PyStr tp, s, jti, ?ts, nonce)"
    using cnf jti age nonce(1) sign(2) pl
    by (auto simp: read_proof_def expected_jkt_def py_or_def as_dict_def refuse_unless_def dec b64decode_b64encode
        payload_parts [OF bars] py_int_dec_int len dget_def b64encode_nonempty Let_def split: option.splits)
  moreover have "check_device P claims meth path (PyStr tp) s jti ?ts nonce st = Inr ()"
  proof -
    have "store_get st NAMESPACE k PyNone = PyDict e" "e \<noteq> []"
      using rec(1) by (auto simp: device_of_def split: pyval.splits if_splits)
    then show ?thesis
      using dev rec(2-4) cnf(3) key sign(3)
      by (simp add: check_device_def get_device_def refuse_unless_def as_dict_def dreq_def verify_signature_def as_str_def)
  qed
  moreover obtain seen' where "remember_nonce cfg nonce now seen = (True, seen')"
    using nonce(2) by (simp add: remember_nonce_def Let_def)
  ultimately show ?thesis using hdr by (auto simp: verify_proof_def)
qed

lemma sample_plain:
  "ascii ''j1''" "ascii ''GET''" "ascii ''/access/docs-app''" "ascii ''0123abcd''"
  by (simp_all)

lemma one_device_record:
  "device_of one_device ''d1'' = Some [(''public_key_pem'', PyStr ''key''),
     (''thumbprint'', PyStr (sha256_hex ''key'')), (''status'', STATUS_APPROVED)]"
  by (simp add: device_of_def one_device_def run_memory dict_simps)

theorem agent_proof_accepted_witness:
  "\<exists>sig64 data64 seen'. build_device_proof (toy_prims []) (\<lambda>m. Some (''key'' @ m)) bound_claims ''GET'' ''/access/docs-app'' 100 ''0123abcd'' =
      [(''X-Device-Proof'', sig64), (''X-Device-Proof-Data'', data64)] \<and>
    verify_proof (toy_prims []) default_config bound_claims ''GET'' ''/access/docs-app'' sig64 data64 103 one_device [] = (Inr (), seen')"
  by (rule agent_proof_accepted [where c = "[(''jkt'', PyStr (sha256_hex ''key''))]" and tp = "sha256_hex ''key''"
        and jti = "''j1''" and k = "''d1''" and pem = "''key''" and key = "\<lparr>key_kind = RsaKey, key_der = ''key''\<rparr>"
        and e = "[(''public_key_pem'', PyStr ''key''), (''thumbprint'', PyStr (sha256_hex ''key'')), (''status'', STATUS_APPROVED)]"
        and s = "''key'' @ build_proof_payload ''j1'' ''GET'' ''/access/docs-app'' (trunc 100) ''0123abcd''"])
    (simp_all add: bound_claims_def dict_simps one_device_record toy_prims_def default_config_def prune_nonces_def)

lemma sample_accepted:
  assumes "\<bar>now - 130\<bar> \<le> 30" and "map_of (prune_nonces now seen) ''0123abcd'' = None"
  shows "prove (toy_prims []) default_config (sample_request now) seen =
    (True, AList.update ''0123abcd'' (now + 35) (prune_nonces now seen))"
proof -
  have parts: "split_on bar sample_payload = [''j1'', ''GET'', ''/access/docs-app'', dec_int 130, ''0123abcd'']"
    unfolding sample_payload_def by (rule payload_parts) simp_all
  have asc: "utf8_decode sample_payload = Some sample_payload"
    unfolding sample_payload_def by (rule utf8_decode_ascii [OF payload_ascii [OF sample_plain]])
  have ne: "sample_payload \<noteq> []"
  proof
    assume "sample_payload = []"
    with parts show False by simp
  qed
  have len: "py_len ''0123abcd'' = 8" by (simp add: py_len_ascii sample_plain(4))
  have r: "read_proof default_config bound_claims ''GET'' ''/access/docs-app'' (b64encode (''key'' @ sample_payload)) (b64encode sample_payload) now =
      Inr (PyStr (sha256_hex ''key''), ''key'' @ sample_payload, ''j1'', 130, ''0123abcd'')"
    using assms(1) ne
    by (auto simp: read_proof_def expected_jkt_def py_or_def as_dict_def refuse_unless_def asc b64decode_b64encode parts
        py_int_dec_int len bound_claims_def dict_simps b64encode_nonempty Let_def default_config_def abs_le_iff
        simp del: b64encode.simps)
  have rem: "remember_nonce default_config ''0123abcd'' now seen =
      (True, AList.update ''0123abcd'' (now + 35) (prune_nonces now seen))"
    using assms(2) by (simp add: remember_nonce_def Let_def default_config_def add.assoc)
  have "check_device (toy_prims []) bound_claims ''GET'' ''/access/docs-app'' (PyStr (sha256_hex ''key''))
      (''key'' @ sample_payload) ''j1'' 130 ''0123abcd'' one_device = Inr ()"
    by (simp add: check_device_def get_device_def refuse_unless_def as_dict_def dreq_def verify_signature_def as_str_def
        bound_claims_def dict_simps one_device_def run_memory toy_prims_def sample_payload_def)
  then show ?thesis
    using r rem by (simp add: prove_def verify_proof_def sample_request_def del: b64encode.simps)
qed

theorem accepted_proof_shows_possession_witness:
  "\<exists>jkt seen'. verify_proof (toy_prims []) default_config bound_claims ''GET'' ''/access/docs-app''
     (b64encode (''key'' @ sample_payload)) (b64encode sample_payload) 120 one_device [] = (Inr (), seen') \<and>
     expected_jkt bound_claims = Inr jkt"
proof -
  have "prove (toy_prims []) default_config (sample_request 120) [] = (True, [(''0123abcd'', 155)])"
    by (subst sample_accepted) (simp_all add: prune_nonces_def)
  then obtain seen' where "verify_proof (toy_prims []) default_config bound_claims ''GET'' ''/access/docs-app''
     (b64encode (''key'' @ sample_payload)) (b64encode sample_payload) 120 one_device [] = (Inr (), seen')"
    by (auto simp: prove_def sample_request_def split: prod.splits)
  with accepted_proof_shows_possession [OF this] show ?thesis by blast
qed

theorem replay_only_if_postdated_witness:
  "\<exists>seen1 bs seen2 seen3. prove (toy_prims []) default_config (sample_request 100) [] = (True, seen1) \<and>
     prove_all (toy_prims []) default_config [] seen1 = (bs, seen2) \<and>
     prove (toy_prims []) default_config (sample_request 140) seen2 = (True, seen3) \<and> (100 :: real) + 5 < of_int 130"
proof -
  have a: "prove (toy_prims []) default_config (sample_request 100) [] = (True, [(''0123abcd'', 135)])"
    by (subst sample_accepted) (simp_all add: prune_nonces_def)
  have b: "prove_all (toy_prims []) default_config [] [(''0123abcd'', 135)] = ([], [(''0123abcd'', 135)])" by simp
  have c: "prove (toy_prims []) default_config (sample_request 140) [(''0123abcd'', 135)] = (True, [(''0123abcd'', 175)])"
    by (subst sample_accepted) (simp_all add: prune_nonces_def)
  have parts: "split_on bar sample_payload = [''j1'', ''GET'', ''/access/docs-app'', dec_int 130, ''0123abcd'']"
    unfolding sample_payload_def by (rule payload_parts) simp_all
  have "utf8_decode sample_payload = Some sample_payload"
    unfolding sample_payload_def by (rule utf8_decode_ascii [OF payload_ascii [OF sample_plain]])
  then have says: "proof_says (pr_data (sample_request now)) = Some (130, ''0123abcd'')" for now
    by (simp add: proof_says_def sample_request_def b64decode_b64encode parts py_int_dec_int)
  have "pr_now (sample_request 100) + 5 < of_int 130"
    by (rule replay_only_if_postdated [OF _ a b c says says]) (simp_all add: sample_request_def)
  with a b c show ?thesis by (auto simp: sample_request_def)
qed

text \<open>
  A postdated proof can be replayed. The cache forgets a nonce five seconds after the freshness window
  counted from its first use, but a proof dated ahead stays fresh for longer: with the default
  settings the same proof, dated 30 seconds ahead, is accepted at 100 and again at 140.
\<close>

theorem postdated_proof_replayed:
  "fst (prove_all (toy_prims []) default_config [sample_request 100, sample_request 140] []) = [True, True]"
proof -
  have "prove (toy_prims []) default_config (sample_request 100) [] = (True, [(''0123abcd'', 135)])"
    by (subst sample_accepted) (simp_all add: prune_nonces_def)
  moreover have "prove (toy_prims []) default_config (sample_request 140) [(''0123abcd'', 135)] = (True, [(''0123abcd'', 175)])"
    by (subst sample_accepted) (simp_all add: prune_nonces_def)
  ultimately show ?thesis by simp
qed

end
