(* ===== verification/PolicyEngine.thy ===== *)
theory PolicyEngine
  imports Config Storage
begin

text \<open>
  \<open>pdp/policy_engine.py\<close>: the policy decision point. The policy of a resource is a dictionary
  merged from \<open>config.RESOURCES\<close> and \<open>pdp/policies.json\<close>; \<open>evaluate\<close> reads it and the claims of a
  token dynamically, so every comparison of the code may raise, and does here. A reason is a
  datatype with the values that the code formats into the text.
\<close>

definition POLICIES_FILE :: string where
  "POLICIES_FILE = ''pdp/policies.json''"

record pdp =
  policy_cache :: "(string, dict) odict"
  business_hours :: "pyval \<times> pyval"

definition no_hours :: "pyval \<times> pyval" where
  "no_hours = (PyInt 0, PyInt 24)"

text \<open>One resource of the JSON file over what has been merged so far.\<close>

definition merge_resource :: "string \<times> pyval \<Rightarrow> (string, dict) odict \<Rightarrow> (string, dict) odict res" where
  "merge_resource r merged =
     (case r of (name, overrides) \<Rightarrow>
        ebind (as_dict overrides) (\<lambda>ov.
          let old = (case map_of merged name of None \<Rightarrow> [] | Some p \<Rightarrow> p)
          in Inr (AList.update name (dupdate old (filter (\<lambda>(k, v). \<not> startswith k ''_'') ov)) merged)))"

fun merge_all :: "(string \<times> pyval) list \<Rightarrow> (string, dict) odict \<Rightarrow> (string, dict) odict res" where
  "merge_all [] merged = Inr merged"
| "merge_all (r # rs) merged = ebind (merge_resource r merged) (merge_all rs)"

definition load_policies :: "config \<Rightarrow> disk \<Rightarrow> ((string, dict) odict \<times> pyval \<times> pyval) res" where
  "load_policies cfg d =
     (case files d POLICIES_FILE of
        None \<Rightarrow> Inr (RESOURCES cfg, no_hours)
      | Some Unparsable \<Rightarrow> Inr (RESOURCES cfg, no_hours)
      | Some (Json v) \<Rightarrow>
          ebind (as_dict v) (\<lambda>data.
          ebind (as_dict (dget_or data ''resources'' (PyDict []))) (\<lambda>rs.
          ebind (merge_all rs (RESOURCES cfg)) (\<lambda>merged.
          let bh = dget data ''business_hours'' in
          if py_truth bh then
            ebind (as_dict bh) (\<lambda>b.
              Inr (merged, dget_or b ''start_hour'' (PyInt 0), dget_or b ''end_hour'' (PyInt 24)))
          else Inr (merged, no_hours)))))"

definition reload_policies :: "config \<Rightarrow> disk \<Rightarrow> pdp \<Rightarrow> unit res \<times> pdp" where
  "reload_policies cfg d p =
     (case load_policies cfg d of
        Inl x \<Rightarrow> (Inl x, p)
      | Inr (cache, hours) \<Rightarrow> (Inr (), \<lparr>policy_cache = cache, business_hours = hours\<rparr>))"

text \<open>\<open>hour\<close> is \<open>time.localtime().tm_hour\<close>; \<open>start <= hour < end\<close> stops at a false first half.\<close>

definition within_business_hours :: "int \<Rightarrow> pdp \<Rightarrow> bool res" where
  "within_business_hours hour p =
     (case business_hours p of (start, end_h) \<Rightarrow>
        ebind (num_le (PyInt 24) end_h) (\<lambda>always.
          if always then Inr True
          else ebind (num_le start (PyInt hour)) (\<lambda>begun.
            if begun then num_lt (PyInt hour) end_h else Inr False)))"

datatype reason =
    UnknownResource
  | InsufficientRole pyval int pyval
  | InsufficientTrust pyval pyval
  | AttestationRequired
  | StepUpUntracked
  | StepUpStale int int
  | InsufficientMethods "string list"
  | OutsideHours
  | PolicyMatch

text \<open>\<open>evaluate\<close>, one definition per dimension: \<open>None\<close> goes on to the next one.\<close>

definition check_role :: "dict \<Rightarrow> dict \<Rightarrow> reason option res" where
  "check_role claims pol =
     (let role = dget claims ''role'' in
      ebind (role_level role) (\<lambda>l.
      ebind (dreq pol ''min_role_level'') (\<lambda>m.
      ebind (num_lt (PyInt l) m) (\<lambda>low.
        Inr (if low then Some (InsufficientRole role l m) else None)))))"

definition check_trust :: "dict \<Rightarrow> dict \<Rightarrow> reason option res" where
  "check_trust claims pol =
     (let trust = dget_or claims ''device_trust_score'' (PyInt 0) in
      ebind (if is_number trust then ebind (dreq pol ''min_device_trust'') (num_lt trust) else Inr True) (\<lambda>low.
      if low then ebind (dreq pol ''min_device_trust'') (\<lambda>m. Inr (Some (InsufficientTrust trust m)))
      else Inr None))"

definition check_attestation :: "dict \<Rightarrow> dict \<Rightarrow> reason option res" where
  "check_attestation claims pol =
     Inr (if py_truth (dget pol ''require_attestation'') \<and> \<not> py_truth (dget claims ''attested'')
          then Some AttestationRequired else None)"

definition check_step_up :: "config \<Rightarrow> time \<Rightarrow> dict \<Rightarrow> dict \<Rightarrow> reason option res" where
  "check_step_up cfg now claims pol =
     (let max_age = dget pol ''max_auth_age_seconds'' in
      if \<not> (step_up_enabled cfg \<and> py_truth max_age) then Inr None
      else (case num_of (dget claims ''auth_time'') of
          None \<Rightarrow> Inr (Some StepUpUntracked)
        | Some t \<Rightarrow>
            let age = PyFloat (flt_minus_from now t) in
            ebind (num_lt max_age age) (\<lambda>stale.
              if stale then
                ebind (int_of age) (\<lambda>a. ebind (int_of max_age) (\<lambda>m. Inr (Some (StepUpStale a m))))
              else Inr None)))"

text \<open>\<open>','.join(missing)\<close> raises a \<open>TypeError\<close> unless every item is a string.\<close>

definition join_args :: "pyval list \<Rightarrow> string list res" where
  "join_args vs = emap (\<lambda>v. case v of PyStr s \<Rightarrow> Inr s | _ \<Rightarrow> Inl TypeError) vs"

definition check_methods :: "dict \<Rightarrow> dict \<Rightarrow> reason option res" where
  "check_methods claims pol =
     (let required = dget pol ''required_amr'' in
      if \<not> py_truth required then Inr None
      else
        ebind (py_set (py_or (dget claims ''amr'') (PyList []))) (\<lambda>presented.
        ebind (py_iter required) (\<lambda>rs.
        ebind (efilter (\<lambda>m. ebind (set_has presented m) (\<lambda>b. Inr (\<not> b))) rs) (\<lambda>missing.
        if missing = [] then Inr None
        else ebind (join_args missing) (\<lambda>ms. Inr (Some (InsufficientMethods ms)))))))"

definition check_hours :: "int \<Rightarrow> pdp \<Rightarrow> dict \<Rightarrow> reason option res" where
  "check_hours hour p pol =
     (if py_truth (dget pol ''business_hours_only'') then
        ebind (within_business_hours hour p) (\<lambda>b. Inr (if b then None else Some OutsideHours))
      else Inr None)"

text \<open>The first dimension that fails decides, and the ones after it are not computed.\<close>

fun first_failure :: "(unit \<Rightarrow> reason option res) list \<Rightarrow> reason option res" where
  "first_failure [] = Inr None"
| "first_failure (c # cs) =
     ebind (c ()) (\<lambda>r. case r of Some why \<Rightarrow> Inr (Some why) | None \<Rightarrow> first_failure cs)"

definition checks :: "config \<Rightarrow> time \<Rightarrow> int \<Rightarrow> pdp \<Rightarrow> dict \<Rightarrow> dict \<Rightarrow> (unit \<Rightarrow> reason option res) list" where
  "checks cfg now hour p claims pol =
     [\<lambda>_. check_role claims pol, \<lambda>_. check_trust claims pol, \<lambda>_. check_attestation claims pol,
      \<lambda>_. check_step_up cfg now claims pol, \<lambda>_. check_methods claims pol, \<lambda>_. check_hours hour p pol]"

definition evaluate :: "config \<Rightarrow> pdp \<Rightarrow> time \<Rightarrow> int \<Rightarrow> dict \<Rightarrow> string \<Rightarrow> (bool \<times> reason) res" where
  "evaluate cfg p now hour claims resource_name =
     (case map_of (policy_cache p) resource_name of
        None \<Rightarrow> Inr (False, UnknownResource)
      | Some pol \<Rightarrow>
          ebind (first_failure (checks cfg now hour p claims pol)) (\<lambda>r.
            Inr (case r of Some why \<Rightarrow> (False, why) | None \<Rightarrow> (True, PolicyMatch))))"

definition describe_policy :: "pdp \<Rightarrow> string \<Rightarrow> dict" where
  "describe_policy p resource_name =
     (case map_of (policy_cache p) resource_name of None \<Rightarrow> [] | Some pol \<Rightarrow> pol)"

section \<open>A typed specification\<close>

record policy =
  pol_role :: int
  pol_trust :: int
  pol_attested :: bool
  pol_max_age :: "int option"
  pol_methods :: "string list"
  pol_hours_only :: bool

record subject =
  sub_role :: string
  sub_trust :: int
  sub_attested :: bool
  sub_auth_time :: "int option"
  sub_methods :: "string list"

definition opt_int :: "int option \<Rightarrow> pyval" where
  "opt_int x = (case x of None \<Rightarrow> PyNone | Some i \<Rightarrow> PyInt i)"

text \<open>The dictionaries that stand for a policy and for a subject: keys may come in any order,
  and others may be present.\<close>

definition policy_as :: "policy \<Rightarrow> dict \<Rightarrow> bool" where
  "policy_as P pol \<longleftrightarrow>
     map_of pol ''min_role_level'' = Some (PyInt (pol_role P)) \<and>
     map_of pol ''min_device_trust'' = Some (PyInt (pol_trust P)) \<and>
     py_truth (dget pol ''require_attestation'') = pol_attested P \<and>
     dget pol ''max_auth_age_seconds'' = opt_int (pol_max_age P) \<and>
     (dget pol ''required_amr'' = PyList (map PyStr (pol_methods P)) \<or>
      dget pol ''required_amr'' = PyNone \<and> pol_methods P = []) \<and>
     py_truth (dget pol ''business_hours_only'') = pol_hours_only P"

definition subject_as :: "subject \<Rightarrow> dict \<Rightarrow> bool" where
  "subject_as S claims \<longleftrightarrow>
     dget claims ''role'' = PyStr (sub_role S) \<and>
     dget_or claims ''device_trust_score'' (PyInt 0) = PyInt (sub_trust S) \<and>
     py_truth (dget claims ''attested'') = sub_attested S \<and>
     dget claims ''auth_time'' = opt_int (sub_auth_time S) \<and>
     (dget claims ''amr'' = PyList (map PyStr (sub_methods S)) \<or>
      dget claims ''amr'' = PyNone \<and> sub_methods S = [])"

definition level_of :: "string \<Rightarrow> int" where
  "level_of role = (case map_of ROLE_LEVELS role of None \<Rightarrow> 0 | Some l \<Rightarrow> l)"

definition in_hours :: "int \<Rightarrow> int \<Rightarrow> int \<Rightarrow> bool" where
  "in_hours start end_h hour \<longleftrightarrow> 24 \<le> end_h \<or> start \<le> hour \<and> hour < end_h"

text \<open>Least privilege, as the documentation states it: every dimension must pass.\<close>

definition permitted :: "config \<Rightarrow> int \<times> int \<Rightarrow> time \<Rightarrow> int \<Rightarrow> policy \<Rightarrow> subject \<Rightarrow> bool" where
  "permitted cfg hrs now hour P S \<longleftrightarrow>
     pol_role P \<le> level_of (sub_role S) \<and>
     pol_trust P \<le> sub_trust S \<and>
     (pol_attested P \<longrightarrow> sub_attested S) \<and>
     (\<forall>m. step_up_enabled cfg \<and> pol_max_age P = Some m \<and> m \<noteq> 0 \<longrightarrow>
        (\<exists>t. sub_auth_time S = Some t \<and> now - of_int t \<le> of_int m)) \<and>
     set (pol_methods P) \<subseteq> set (sub_methods S) \<and>
     (pol_hours_only P \<longrightarrow> in_hours (fst hrs) (snd hrs) hour)"

lemma role_level_str: "role_level (PyStr s) = Inr (level_of s)"
  by (simp add: role_level_def level_of_def)

lemma efilter_missing:
  "efilter (\<lambda>m. ebind (set_has (map PyStr have) m) (\<lambda>b. Inr (\<not> b))) (map PyStr need) =
     Inr (map PyStr (filter (\<lambda>m. m \<notin> set have) need))"
proof -
  have "set_has (map PyStr have) (PyStr m) = Inr (m \<in> set have)" for m
    by (auto simp: set_has_def list_ex_iff)
  then show ?thesis by (induction need) auto
qed

lemma join_args_strings [simp]: "join_args (map PyStr ms) = Inr ms"
  by (induction ms) (auto simp: join_args_def)

section \<open>Each dimension on typed data\<close>

lemma check_role_typed:
  "policy_as P pol \<Longrightarrow> subject_as S claims \<Longrightarrow>
   check_role claims pol = Inr (if level_of (sub_role S) < pol_role P
     then Some (InsufficientRole (PyStr (sub_role S)) (level_of (sub_role S)) (PyInt (pol_role P))) else None)"
  by (simp add: check_role_def policy_as_def subject_as_def role_level_str dreq_def num_lt_def Let_def)

lemma check_trust_typed:
  "policy_as P pol \<Longrightarrow> subject_as S claims \<Longrightarrow>
   check_trust claims pol = Inr (if sub_trust S < pol_trust P
     then Some (InsufficientTrust (PyInt (sub_trust S)) (PyInt (pol_trust P))) else None)"
  by (simp add: check_trust_def policy_as_def subject_as_def dreq_def num_lt_def is_number_def)

lemma check_attestation_typed:
  "policy_as P pol \<Longrightarrow> subject_as S claims \<Longrightarrow>
   check_attestation claims pol = Inr (if pol_attested P \<and> \<not> sub_attested S then Some AttestationRequired else None)"
  by (simp add: check_attestation_def policy_as_def subject_as_def)

definition fresh_login :: "config \<Rightarrow> time \<Rightarrow> policy \<Rightarrow> subject \<Rightarrow> bool" where
  "fresh_login cfg now P S \<longleftrightarrow>
     (\<forall>m. step_up_enabled cfg \<and> pol_max_age P = Some m \<and> m \<noteq> 0 \<longrightarrow>
        (\<exists>t. sub_auth_time S = Some t \<and> now - of_int t \<le> of_int m))"

lemma check_step_up_typed:
  assumes "policy_as P pol" and "subject_as S claims"
  shows "\<exists>r. check_step_up cfg now claims pol = Inr r \<and> (r = None \<longleftrightarrow> fresh_login cfg now P S) \<and>
    r \<in> {None, Some StepUpUntracked} \<union> range (\<lambda>(a, m). Some (StepUpStale a m))"
proof (cases "pol_max_age P")
  case None
  with assms show ?thesis
    by (auto simp: check_step_up_def policy_as_def opt_int_def fresh_login_def)
next
  case (Some m)
  with assms have m: "dget pol ''max_auth_age_seconds'' = PyInt m" by (simp add: policy_as_def opt_int_def)
  show ?thesis
  proof (cases "sub_auth_time S")
    case None
    with assms(2) have "dget claims ''auth_time'' = PyNone" by (simp add: subject_as_def opt_int_def)
    with m Some None show ?thesis
      by (cases "step_up_enabled cfg \<and> m \<noteq> 0") (auto simp: check_step_up_def fresh_login_def Let_def)
  next
    case t: (Some t)
    with assms(2) have "dget claims ''auth_time'' = PyInt t" by (simp add: subject_as_def opt_int_def)
    with m Some t show ?thesis
      by (cases "step_up_enabled cfg \<and> m \<noteq> 0"; cases "of_int m < now - of_int t") (auto simp: check_step_up_def fresh_login_def num_lt_def Let_def)
  qed
qed

lemma check_methods_typed:
  assumes "policy_as P pol" and "subject_as S claims"
  shows "check_methods claims pol = Inr (if set (pol_methods P) \<subseteq> set (sub_methods S) then None
     else Some (InsufficientMethods (filter (\<lambda>m. m \<notin> set (sub_methods S)) (pol_methods P))))"
proof -
  let ?v = "py_or (dget claims ''amr'') (PyList [])"
  have "?v = PyList (map PyStr (sub_methods S))"
    using assms(2) by (cases "sub_methods S") (auto simp: subject_as_def py_or_def)
  then have presented: "py_set ?v = Inr (map PyStr (sub_methods S))"
    by (simp add: py_set_def list_all_iff)
  show ?thesis
  proof (cases "py_truth (dget pol ''required_amr'')")
    case False
    with assms(1) have "pol_methods P = []" by (auto simp: policy_as_def)
    with False show ?thesis by (simp add: check_methods_def)
  next
    case True
    with assms(1) have r: "dget pol ''required_amr'' = PyList (map PyStr (pol_methods P))"
      by (auto simp: policy_as_def)
    have "filter (\<lambda>m. m \<notin> set (sub_methods S)) (pol_methods P) = [] \<longleftrightarrow> set (pol_methods P) \<subseteq> set (sub_methods S)"
      by (auto simp: filter_empty_conv)
    with True show ?thesis
      by (simp add: check_methods_def r presented efilter_missing Let_def)
  qed
qed

lemma check_hours_typed:
  assumes "policy_as P pol" and "business_hours p = (PyInt h0, PyInt h1)"
  shows "check_hours hour p pol = Inr (if pol_hours_only P \<and> \<not> in_hours h0 h1 hour then Some OutsideHours else None)"
  using assms by (auto simp: check_hours_def policy_as_def within_business_hours_def num_le_def num_lt_def flt_le_def
      in_hours_def)

lemmas checks_typed = check_role_typed check_trust_typed check_attestation_typed check_methods_typed

lemma evaluate_exact:
  assumes "map_of (policy_cache p) res = Some pol" and "policy_as P pol" and "subject_as S claims"
    and "business_hours p = (PyInt h0, PyInt h1)"
  shows "\<exists>why. evaluate cfg p now hour claims res = Inr (permitted cfg (h0, h1) now hour P S, why) \<and>
    (why = PolicyMatch \<longleftrightarrow> permitted cfg (h0, h1) now hour P S)"
proof -
  obtain r where r: "check_step_up cfg now claims pol = Inr r" "r = None \<longleftrightarrow> fresh_login cfg now P S"
    "r \<in> {None, Some StepUpUntracked} \<union> range (\<lambda>(a, m). Some (StepUpStale a m))"
    using check_step_up_typed [OF assms(2,3)] by blast
  have perm: "permitted cfg (h0, h1) now hour P S \<longleftrightarrow>
      pol_role P \<le> level_of (sub_role S) \<and> pol_trust P \<le> sub_trust S \<and> (pol_attested P \<longrightarrow> sub_attested S) \<and>
      fresh_login cfg now P S \<and> set (pol_methods P) \<subseteq> set (sub_methods S) \<and> (pol_hours_only P \<longrightarrow> in_hours h0 h1 hour)"
    by (simp add: permitted_def fresh_login_def)
  note typed = checks_typed [OF assms(2,3)] check_hours_typed [OF assms(2,4)] r(1)
  show ?thesis
  proof (cases r)
    case None
    then show ?thesis
      using r(2) by (auto simp: evaluate_def assms(1) checks_def typed perm not_less)
  next
    case (Some why)
    then show ?thesis
      using r(2,3) by (auto simp: evaluate_def assms(1) checks_def typed perm not_less)
  qed
qed

text \<open>The merge, key by key.\<close>

definition overridden :: "string \<Rightarrow> pyval option \<Rightarrow> dict \<Rightarrow> pyval option" where
  "overridden k v base =
     (case v of
        Some (PyDict ov) \<Rightarrow> (case (if startswith k ''_'' then None else map_of ov k) of
           Some x \<Rightarrow> Some x | None \<Rightarrow> map_of base k)
      | _ \<Rightarrow> map_of base k)"

lemma map_of_overrides:
  assumes "odict_ok ov"
  shows "map_of (dupdate base (filter (\<lambda>(k, v). \<not> startswith k ''_'') ov)) k = overridden k (Some (PyDict ov)) base"
proof -
  have "map_of (filter (\<lambda>(k, v). \<not> startswith k ''_'') ov) k = (if startswith k ''_'' then None else map_of ov k)"
    using map_of_filter_items [OF assms, of "\<lambda>k v. \<not> startswith k ''_''" k] by (simp split: option.splits)
  then show ?thesis
    by (simp add: map_of_dupdate assms overridden_def split: option.splits)
qed

lemma merge_all_spec:
  "odict_ok rs \<Longrightarrow> \<forall>(n, v) \<in> set rs. \<exists>ov. v = PyDict ov \<and> odict_ok ov \<Longrightarrow> merge_all rs base = Inr cache \<Longrightarrow>
   (case map_of cache n of None \<Rightarrow> map_of rs n = None \<and> map_of base n = None
    | Some pol \<Rightarrow> map_of pol k = overridden k (map_of rs n) (case map_of base n of None \<Rightarrow> [] | Some q \<Rightarrow> q))"
proof (induction rs arbitrary: base)
  case Nil
  then show ?case by (auto simp: overridden_def split: option.splits)
next
  case (Cons r rs)
  obtain m v where r: "r = (m, v)" by (cases r)
  with Cons.prems(2) obtain ov where ov: "v = PyDict ov" "odict_ok ov" by auto
  let ?old = "case map_of base m of None \<Rightarrow> [] | Some p \<Rightarrow> p"
  let ?new = "dupdate ?old (filter (\<lambda>(k, v). \<not> startswith k ''_'') ov)"
  have run: "merge_all rs (AList.update m ?new base) = Inr cache"
    using Cons.prems(3) by (simp add: r ov merge_resource_def as_dict_def Let_def)
  have none: "map_of rs m = None" using Cons.prems(1) by (simp add: r map_of_eq_None_iff)
  have prem: "odict_ok rs" "\<forall>(n, v) \<in> set rs. \<exists>ov. v = PyDict ov \<and> odict_ok ov"
    using Cons.prems(1,2) by auto
  note IH = Cons.IH [OF prem run]
  show ?case
  proof (cases "n = m")
    case True
    then show ?thesis
      using IH none by (auto simp: r ov dict_simps overridden_def [of _ None] map_of_overrides [OF ov(2)] split: option.splits)
  next
    case False
    then show ?thesis using IH by (auto simp: r dict_simps split: option.splits)
  qed
qed

section \<open>Properties\<close>

text \<open>
  C3: Least privilege, exactly. For a policy and claims of the documented types the decision is
  returned without an error, allows if and only if every dimension passes (role, device
  trust, attestation, recency of the login, methods, hours), and gives \<open>policy_match\<close> only
  when it allows.
\<close>

theorem evaluate_least_privilege:
  assumes "map_of (policy_cache p) res = Some pol" and "policy_as P pol" and "subject_as S claims"
    and "business_hours p = (PyInt h0, PyInt h1)"
  shows "\<exists>why. evaluate cfg p now hour claims res = Inr (permitted cfg (h0, h1) now hour P S, why) \<and>
    (why = PolicyMatch \<longleftrightarrow> permitted cfg (h0, h1) now hour P S)"
  by (rule evaluate_exact [OF assms])

text \<open>The policy file of the repository, without its comment texts.\<close>

definition shipped_policies :: pyval where
  "shipped_policies = PyDict [
     (''_comment'', PyStr ''Externalized PDP policy''),
     (''business_hours'', PyDict [(''start_hour'', PyInt 0), (''end_hour'', PyInt 24),
        (''_note'', PyStr ''end_hour=24 disables the restriction'')]),
     (''resources'', PyDict [
       (''docs-app'', PyDict [
          (''min_role_level'', PyInt 1), (''min_device_trust'', PyInt 50),
          (''require_attestation'', PyBool False), (''require_mtls'', PyBool True),
          (''business_hours_only'', PyBool False)]),
       (''finance-app'', PyDict [
          (''min_role_level'', PyInt 3), (''min_device_trust'', PyInt 80),
          (''require_attestation'', PyBool True), (''require_mtls'', PyBool True),
          (''business_hours_only'', PyBool False), (''max_auth_age_seconds'', PyInt 300),
          (''_max_auth_age_note'', PyStr ''Step-up''),
          (''required_amr'', PyList [PyStr ''pwd'', PyStr ''otp'']),
          (''_required_amr_note'', PyStr ''Authentication methods'')])])]"

definition shipped_disk :: disk where
  "shipped_disk = empty_disk\<lparr>files := [POLICIES_FILE \<mapsto> Json shipped_policies]\<rparr>"

definition finance_policy :: policy where
  "finance_policy = \<lparr>pol_role = 3, pol_trust = 80, pol_attested = True, pol_max_age = Some 300,
     pol_methods = [''pwd'', ''otp''], pol_hours_only = False\<rparr>"

definition docs_policy :: policy where
  "docs_policy = \<lparr>pol_role = 1, pol_trust = 50, pol_attested = False, pol_max_age = None,
     pol_methods = [], pol_hours_only = False\<rparr>"

definition shipped_cache :: "config \<Rightarrow> (string, dict) odict" where
  "shipped_cache cfg = [
     (''docs-app'', [
        (''host'', PyStr (docs_host cfg)), (''bind_host'', PyStr (docs_bind_host cfg)),
        (''port'', PyInt (docs_port cfg)), (''sensitivity'', PyStr ''low''),
        (''min_role_level'', PyInt 1), (''min_device_trust'', PyInt 50),
        (''require_attestation'', PyBool False), (''require_mtls'', PyBool True),
        (''business_hours_only'', PyBool False)]),
     (''finance-app'', [
        (''host'', PyStr (finance_host cfg)), (''bind_host'', PyStr (finance_bind_host cfg)),
        (''port'', PyInt (finance_port cfg)), (''sensitivity'', PyStr ''high''),
        (''min_role_level'', PyInt 3), (''min_device_trust'', PyInt 80),
        (''require_attestation'', PyBool True), (''require_mtls'', PyBool True),
        (''business_hours_only'', PyBool False), (''max_auth_age_seconds'', PyInt 300),
        (''required_amr'', PyList [PyStr ''pwd'', PyStr ''otp''])])]"

lemma shipped_load: "load_policies cfg shipped_disk = Inr (shipped_cache cfg, PyInt 0, PyInt 24)"
  by (simp add: load_policies_def shipped_disk_def shipped_policies_def as_dict_def dict_simps
      merge_resource_def RESOURCES_def dupdate_def Let_def shipped_cache_def)

lemma shipped_finance:
  "\<exists>pol. map_of (shipped_cache cfg) ''finance-app'' = Some pol \<and> policy_as finance_policy pol"
  by (simp add: shipped_cache_def policy_as_def finance_policy_def opt_int_def dict_simps)

lemma shipped_docs:
  "\<exists>pol. map_of (shipped_cache cfg) ''docs-app'' = Some pol \<and> policy_as docs_policy pol"
  by (simp add: shipped_cache_def policy_as_def docs_policy_def opt_int_def dict_simps)

lemma level_of_cases:
  "3 \<le> level_of role \<longleftrightarrow> role = ''finance_manager'' \<or> role = ''admin''"
  "1 \<le> level_of role \<longleftrightarrow> role \<in> {''intern'', ''employee'', ''finance_manager'', ''admin''}"
  by (auto simp: level_of_def ROLE_LEVELS_def)


definition carol :: subject where
  "carol = \<lparr>sub_role = ''finance_manager'', sub_trust = 100, sub_attested = True,
     sub_auth_time = Some 1000, sub_methods = [''pwd'', ''otp'']\<rparr>"

definition carol_claims :: dict where
  "carol_claims = [(''role'', PyStr ''finance_manager''), (''device_trust_score'', PyInt 100),
     (''attested'', PyBool True), (''auth_time'', PyInt 1000), (''amr'', PyList [PyStr ''pwd'', PyStr ''otp''])]"

lemma carol_subject: "subject_as carol carol_claims"
  by (simp add: subject_as_def carol_def carol_claims_def dict_simps opt_int_def)

theorem evaluate_least_privilege_witness:
  "\<exists>why. evaluate default_config \<lparr>policy_cache = shipped_cache default_config, business_hours = (PyInt 0, PyInt 24)\<rparr>
      1200 9 carol_claims ''finance-app'' = Inr (True, why) \<and> why = PolicyMatch"
proof -
  let ?p = "\<lparr>policy_cache = shipped_cache default_config, business_hours = (PyInt 0, PyInt 24)\<rparr>"
  obtain pol where pol: "map_of (policy_cache ?p) ''finance-app'' = Some pol" "policy_as finance_policy pol"
    using shipped_finance by auto
  have "permitted default_config (0, 24) 1200 9 finance_policy carol"
    by (simp add: permitted_def finance_policy_def carol_def level_of_def ROLE_LEVELS_def)
  then show ?thesis
    using evaluate_least_privilege [OF pol carol_subject, of 0 24 default_config 1200 9] by simp
qed

text \<open>
  The policy file of the repository gives what its documentation says: after loading it, the finance
  application is open exactly to finance managers and administrators on an attested device with a
  trust score of at least 80, who authenticated with password and one-time code no more
  than 300 seconds ago.
\<close>

theorem shipped_policy_guards_finance:
  assumes "subject_as S claims" and "reload_policies default_config shipped_disk p0 = (r, p)"
  shows "r = Inr () \<and> (\<exists>allow why. evaluate default_config p now hour claims ''finance-app'' = Inr (allow, why) \<and>
    (allow \<longleftrightarrow> (sub_role S = ''finance_manager'' \<or> sub_role S = ''admin'') \<and> 80 \<le> sub_trust S \<and> sub_attested S \<and>
       (\<exists>t. sub_auth_time S = Some t \<and> now - of_int t \<le> 300) \<and>
       ''pwd'' \<in> set (sub_methods S) \<and> ''otp'' \<in> set (sub_methods S)))"
proof -
  have p: "r = Inr ()" "p = \<lparr>policy_cache = shipped_cache default_config, business_hours = (PyInt 0, PyInt 24)\<rparr>"
    using assms(2) by (simp_all add: reload_policies_def shipped_load)
  obtain pol where pol: "map_of (policy_cache p) ''finance-app'' = Some pol" "policy_as finance_policy pol"
    using shipped_finance p(2) by auto
  from evaluate_exact [OF pol assms(1), of 0 24 default_config now hour] p(2)
  obtain why where why: "evaluate default_config p now hour claims ''finance-app'' =
      Inr (permitted default_config (0, 24) now hour finance_policy S, why)" by auto
  have "step_up_enabled default_config" by (simp add: default_config_def)
  then show ?thesis
    using p(1) why by (auto simp: permitted_def finance_policy_def level_of_cases)
qed

theorem shipped_policy_guards_finance_witness:
  "\<exists>allow why. evaluate default_config (snd (reload_policies default_config shipped_disk \<lparr>policy_cache = [], business_hours = no_hours\<rparr>)) 1200 9 carol_claims
     ''finance-app'' = Inr (allow, why) \<and> allow"
proof -
  obtain r p where run: "reload_policies default_config shipped_disk \<lparr>policy_cache = [], business_hours = no_hours\<rparr> = (r, p)" by fastforce
  show ?thesis
    using shipped_policy_guards_finance [OF carol_subject run, of 1200 9] run by (auto simp: carol_def)
qed

text \<open>
  The decision fails closed. Whatever the types of the claims and of the policy, an allow
  means that the resource is known and that its role, trust and attestation requirements
  were compared and met; a policy without \<open>min_role_level\<close> or \<open>min_device_trust\<close> never
  allows. (The one value that meets every trust threshold is a NaN.)
\<close>

theorem allow_implies_checked:
  assumes "evaluate cfg p now hour claims res = Inr (True, why)"
  shows "\<exists>pol l m t x y. map_of (policy_cache p) res = Some pol \<and> why = PolicyMatch \<and>
    role_level (dget claims ''role'') = Inr l \<and> map_of pol ''min_role_level'' = Some m \<and> num_lt (PyInt l) m = Inr False \<and>
    map_of pol ''min_device_trust'' = Some t \<and> num_of (dget_or claims ''device_trust_score'' (PyInt 0)) = Some x \<and>
    num_of t = Some y \<and> \<not> flt_lt x y \<and>
    (\<not> py_truth (dget pol ''require_attestation'') \<or> py_truth (dget claims ''attested''))"
proof -
  from assms obtain pol where pol: "map_of (policy_cache p) res = Some pol" and why: "why = PolicyMatch" and
    r: "check_role claims pol = Inr None" and t: "check_trust claims pol = Inr None"
    and a: "check_attestation claims pol = Inr None"
    by (auto simp: evaluate_def checks_def ebind_eq_Inr split: option.splits)
  from r obtain l m where "role_level (dget claims ''role'') = Inr l" "map_of pol ''min_role_level'' = Some m"
    "num_lt (PyInt l) m = Inr False"
    by (auto simp: check_role_def Let_def ebind_eq_Inr dreq_eq_Inr split: if_splits)
  moreover from t obtain v x y where "map_of pol ''min_device_trust'' = Some v"
    "num_of (dget_or claims ''device_trust_score'' (PyInt 0)) = Some x" "num_of v = Some y" "\<not> flt_lt x y"
    by (auto simp: check_trust_def Let_def ebind_eq_Inr dreq_eq_Inr num_lt_eq_Inr split: if_splits)
  ultimately show ?thesis
    using pol why a by (auto simp: check_attestation_def split: if_splits)
qed

theorem allow_implies_checked_witness:
  "\<exists>why l. evaluate default_config \<lparr>policy_cache = shipped_cache default_config, business_hours = (PyInt 0, PyInt 24)\<rparr>
      1200 9 carol_claims ''finance-app'' = Inr (True, why) \<and> role_level (dget carol_claims ''role'') = Inr l"
proof -
  let ?p = "\<lparr>policy_cache = shipped_cache default_config, business_hours = (PyInt 0, PyInt 24)\<rparr>"
  obtain pol where pol: "map_of (policy_cache ?p) ''finance-app'' = Some pol" "policy_as finance_policy pol"
    using shipped_finance by auto
  have "permitted default_config (0, 24) 1200 9 finance_policy carol"
    by (simp add: permitted_def finance_policy_def carol_def level_of_def ROLE_LEVELS_def)
  then obtain why where ev: "evaluate default_config ?p 1200 9 carol_claims ''finance-app'' = Inr (True, why)"
    using evaluate_exact [OF pol carol_subject, of 0 24 default_config 1200 9] by auto
  from allow_implies_checked [OF this] ev show ?thesis by blast
qed

text \<open>
  The merge. After a successful load, a policy value is the override of the file where the
  file has one (keys that begin with an underscore are comments), and the built-in
  default of \<open>config.RESOURCES\<close> otherwise; resources that only the file names are added.
\<close>

theorem policies_override_defaults:
  assumes "files d POLICIES_FILE = Some (Json (PyDict data))" and "map_of data ''resources'' = Some (PyDict rs)"
    and "odict_ok rs" and "\<forall>(n, v) \<in> set rs. \<exists>ov. v = PyDict ov \<and> odict_ok ov"
    and "load_policies cfg d = Inr (cache, hours)"
  shows "(case map_of cache n of None \<Rightarrow> map_of rs n = None \<and> map_of (RESOURCES cfg) n = None
     | Some pol \<Rightarrow> map_of pol k =
        (case map_of rs n of
           Some (PyDict ov) \<Rightarrow>
             (case (if startswith k ''_'' then None else map_of ov k) of
                Some x \<Rightarrow> Some x
              | None \<Rightarrow> map_of (case map_of (RESOURCES cfg) n of None \<Rightarrow> [] | Some q \<Rightarrow> q) k)
         | _ \<Rightarrow> map_of (case map_of (RESOURCES cfg) n of None \<Rightarrow> [] | Some q \<Rightarrow> q) k))"
proof -
  have "merge_all rs (RESOURCES cfg) = Inr cache"
    using assms(1,2,5) by (auto simp: load_policies_def as_dict_def dget_or_def Let_def ebind_eq_Inr split: if_splits)
  from merge_all_spec [OF assms(3,4) this, of n k] show ?thesis unfolding overridden_def .
qed

theorem policies_override_defaults_witness:
  "\<exists>pol. map_of (shipped_cache default_config) ''finance-app'' = Some pol \<and>
     map_of pol ''max_auth_age_seconds'' = Some (PyInt 300) \<and> map_of pol ''_required_amr_note'' = None"
proof -
  obtain data rs where d: "files shipped_disk POLICIES_FILE = Some (Json (PyDict data))"
    "map_of data ''resources'' = Some (PyDict rs)" "odict_ok rs"
    "\<forall>(n, v) \<in> set rs. \<exists>ov. v = PyDict ov \<and> odict_ok ov"
    "\<exists>ov. map_of rs ''finance-app'' = Some (PyDict ov) \<and> map_of ov ''max_auth_age_seconds'' = Some (PyInt 300)"
    by (auto simp: shipped_disk_def shipped_policies_def)
  have base: "\<exists>q. map_of (RESOURCES default_config) ''finance-app'' = Some q \<and> map_of q ''_required_amr_note'' = None"
    by (simp add: RESOURCES_def)
  obtain pol where pol: "map_of (shipped_cache default_config) ''finance-app'' = Some pol"
    using shipped_finance by blast
  note spec = policies_override_defaults [OF d(1-4) shipped_load [of default_config], where n="''finance-app''"]
  have "map_of pol ''max_auth_age_seconds'' = Some (PyInt 300)"
    using spec [where k="''max_auth_age_seconds''"] d(5) pol by auto
  moreover have "map_of pol ''_required_amr_note'' = None"
    using spec [where k="''_required_amr_note''"] d(5) pol base by auto
  ultimately show ?thesis using pol by blast
qed

text \<open>
  A policy file that is JSON of the wrong shape does not fall back to the built-in policy, as
  a file that is not JSON does: reloading raises an \<open>AttributeError\<close> and keeps the old policy.
\<close>

theorem misshapen_policy_file_raises:
  "reload_policies cfg (d\<lparr>files := (files d)(POLICIES_FILE \<mapsto> Json (PyList vs))\<rparr>) p = (Inl AttributeError, p) \<and>
   reload_policies cfg (d\<lparr>files := (files d)(POLICIES_FILE \<mapsto> Unparsable)\<rparr>) p =
     (Inr (), \<lparr>policy_cache = RESOURCES cfg, business_hours = no_hours\<rparr>)"
  by (simp add: reload_policies_def load_policies_def as_dict_def)

end
