(* ===== verification/Gateway.thy ===== *)
theory Gateway
  imports Requests AuditLog JwtUtils Revocation TokenBinding PolicyEngine
begin

text \<open>
  \<open>gateway/gateway_server.py\<close>: the policy enforcement point, as an operation on the state of its
  process. \<open>gw_forwarded\<close> records the requests that went on to a protected resource (the resource
  and whether the Gateway's client certificate was presented); what comes back is the parameter
  \<open>upstream\<close>, a function of the host, the port and the certificate.
\<close>

record gateway =
  gw_audit :: audit
  gw_store :: store
  gw_nonces :: nonce_cache
  gw_pdp :: pdp
  gw_forwarded :: "(string \<times> bool) list"

record access_request =
  acc_resource :: string
  acc_path :: string
  acc_authorization :: string
  acc_proof :: string
  acc_proof_data :: string

text \<open>The answer of a resource; \<open>Unreachable\<close> is an \<open>OSError\<close>, of which TLS errors are a kind.\<close>

datatype backend_reply = Replied int pyval | Unreachable string | Broke exn

definition gw_log :: "prims \<Rightarrow> request_env \<Rightarrow> dict \<Rightarrow> (gateway, unit) op" where
  "gw_log P q given = on_part gw_audit (\<lambda>a s. s\<lparr>gw_audit := a\<rparr>)
     (log_event (float_repr P) (clk q 4) (local_time q) given)"

definition access_event :: "request_env \<Rightarrow> string \<Rightarrow> string \<Rightarrow> string \<Rightarrow> dict \<Rightarrow> dict" where
  "access_event q res decision why extra =
     [(''event'', PyStr ''access''), (''resource'', PyStr res), (''source_ip'', PyStr (peer q)),
      (''decision'', PyStr decision), (''reason'', PyStr why)] @ extra"

definition who :: "request_env \<Rightarrow> dict \<Rightarrow> dict" where
  "who q claims = [(''username'', dget claims ''sub''), (''device_id'', dget claims ''device_id''),
     (''correlation_id'', PyStr (correlation q))]"

text \<open>The texts of the reasons.\<close>

fun proof_text :: "proof_error \<Rightarrow> string" where
  "proof_text TokenNotBound = ''token_not_bound''"
| "proof_text ProofMissing = ''device_proof_missing''"
| "proof_text ProofMalformed = ''device_proof_malformed''"
| "proof_text ProofWrongToken = ''device_proof_wrong_token''"
| "proof_text ProofWrongRequest = ''device_proof_wrong_request''"
| "proof_text ProofStale = ''device_proof_stale''"
| "proof_text ProofNonceWeak = ''device_proof_nonce_weak''"
| "proof_text ProofReplayed = ''device_proof_replayed''"
| "proof_text ProofUnknownDevice = ''device_proof_unknown_device''"
| "proof_text ProofDeviceNotApproved = ''device_proof_device_not_approved''"
| "proof_text ProofKeyMismatch = ''device_proof_key_mismatch''"
| "proof_text ProofSignatureInvalid = ''device_proof_signature_invalid''"

fun reason_text :: "prims \<Rightarrow> reason \<Rightarrow> string" where
  "reason_text P UnknownResource = ''unknown_resource''"
| "reason_text P (InsufficientRole role l m) =
     ''insufficient_role (has='' @ py_str P role @ '':'' @ dec_int l @ '', needs>='' @ py_str P m @ '')''"
| "reason_text P (InsufficientTrust t m) =
     ''insufficient_device_trust (has='' @ py_str P t @ '', needs>='' @ py_str P m @ '')''"
| "reason_text P AttestationRequired = ''attestation_required''"
| "reason_text P StepUpUntracked = ''step_up_required (token predates auth_time tracking)''"
| "reason_text P (StepUpStale a m) =
     ''step_up_required (authenticated '' @ dec_int a @ ''s ago, needs<='' @ dec_int m @ ''s)''"
| "reason_text P (InsufficientMethods ms) = ''insufficient_auth_method (missing='' @ join_with '','' ms @ '')''"
| "reason_text P OutsideHours = ''outside_business_hours''"
| "reason_text P PolicyMatch = ''policy_match''"

definition proxy_to_backend ::
  "config \<Rightarrow> (pyval \<Rightarrow> pyval \<Rightarrow> bool \<Rightarrow> backend_reply) \<Rightarrow> string \<Rightarrow> dict \<Rightarrow> (gateway, backend_reply) op" where
  "proxy_to_backend cfg upstream name resource =
     (let mtls = mtls_enabled cfg \<and> py_truth (dget_or resource ''require_mtls'' (PyBool False)) in
      obind (olift (dreq resource ''host'')) (\<lambda>host.
      obind (olift (dreq resource ''port'')) (\<lambda>port.
      (\<lambda>s. (Inr (upstream host port mtls), s\<lparr>gw_forwarded := gw_forwarded s @ [(name, mtls)]\<rparr>)))))"

text \<open>The proof of possession, for a token that needs one.\<close>

definition require_proof ::
  "prims \<Rightarrow> config \<Rightarrow> request_env \<Rightarrow> access_request \<Rightarrow> dict \<Rightarrow> (gateway, proof_error option) op" where
  "require_proof P cfg q req claims s =
     (if \<not> token_requires_proof cfg claims then (Inr None, s)
      else case verify_proof P cfg claims ''GET'' (hd (split_on (CHR ''?'') (acc_path req))) (acc_proof req)
             (acc_proof_data req) (clk q 1) (gw_store s) (gw_nonces s) of
          (Inr _, seen) \<Rightarrow> (Inr None, s\<lparr>gw_nonces := seen\<rparr>)
        | (Inl (Refused e), seen) \<Rightarrow> (Inr (Some e), s\<lparr>gw_nonces := seen\<rparr>)
        | (Inl (Raised x), seen) \<Rightarrow> (Inl x, s\<lparr>gw_nonces := seen\<rparr>))"

definition relay :: "prims \<Rightarrow> request_env \<Rightarrow> string \<Rightarrow> dict \<Rightarrow> backend_reply \<Rightarrow> (gateway, response) op" where
  "relay P q res claims reply =
     (case reply of
        Replied status payload \<Rightarrow> oret (status, payload)
      | Broke x \<Rightarrow> olift (Inl x)
      | Unreachable e \<Rightarrow>
          obind (gw_log P q (access_event q res ''error'' (''backend_unreachable:'' @ e)
                   [(''username'', dget claims ''sub'')])) (\<lambda>_.
            oret (502, PyDict [(''error'', PyStr ''backend_unreachable''), (''detail'', PyStr e)])))"

text \<open>After the allow: the request goes on.\<close>

definition forward ::
  "prims \<Rightarrow> config \<Rightarrow> (pyval \<Rightarrow> pyval \<Rightarrow> bool \<Rightarrow> backend_reply) \<Rightarrow> request_env \<Rightarrow> string \<Rightarrow> dict \<Rightarrow> (gateway, response) op" where
  "forward P cfg upstream q res claims =
     (case map_of (RESOURCES cfg) res of
        None \<Rightarrow> olift (Inl (KeyError res))
      | Some resource \<Rightarrow>
          obind (proxy_to_backend cfg upstream res resource) (relay P q res claims))"

text \<open>The policy decision, its audit record, and the denial or the request to the resource.\<close>

definition decide ::
  "prims \<Rightarrow> config \<Rightarrow> (pyval \<Rightarrow> pyval \<Rightarrow> bool \<Rightarrow> backend_reply) \<Rightarrow> request_env \<Rightarrow> string \<Rightarrow> dict \<Rightarrow> (gateway, response) op" where
  "decide P cfg upstream q res claims =
     obind (\<lambda>s. (evaluate cfg (gw_pdp s) (clk q 2) (local_hour q) claims res, s)) (\<lambda>(allow, why).
     obind (gw_log P q (access_event q res (if allow then ''allow'' else ''deny'') (reason_text P why)
              [(''username'', dget claims ''sub''), (''role'', dget claims ''role''), (''device_id'', dget claims ''device_id''),
               (''device_trust_score'', dget claims ''device_trust_score''), (''correlation_id'', PyStr (correlation q))])) (\<lambda>_.
     if \<not> allow then
       (if startswith (reason_text P why) ''step_up_required''
        then oret (401, PyDict [(''error'', PyStr ''step_up_required''), (''reason'', PyStr (reason_text P why)),
               (''detail'', PyStr (''This resource requires a recent authentication. '' @ ''Re-authenticate with MFA and retry.''))])
        else oret (403, PyDict [(''error'', PyStr ''access_denied''), (''reason'', PyStr (reason_text P why))]))
     else forward P cfg upstream q res claims))"

definition handle_access ::
  "prims \<Rightarrow> config \<Rightarrow> (pyval \<Rightarrow> pyval \<Rightarrow> bool \<Rightarrow> backend_reply) \<Rightarrow> request_env \<Rightarrow> access_request \<Rightarrow> (gateway, response) op" where
  "handle_access P cfg upstream q req =
     (let res = acc_resource req in
      if \<not> startswith (acc_authorization req) ''Bearer '' then
        obind (gw_log P q (access_event q res ''deny'' ''missing_bearer_token'' [])) (\<lambda>_.
          oret (401, error_body ''missing_bearer_token''))
      else case verify_token P (clk q 0) (strip (drop 7 (acc_authorization req))) of
          Inl e \<Rightarrow>
            obind (gw_log P q (access_event q res ''deny'' e [])) (\<lambda>_. oret (401, error_body e))
        | Inr claims \<Rightarrow>
            obind (\<lambda>s. (is_revoked (dget claims ''jti'') (store.disk (gw_store s)), s)) (\<lambda>revoked.
            if revoked then
              obind (gw_log P q (access_event q res ''deny'' ''token_revoked'' (who q claims))) (\<lambda>_.
                oret (401, error_body ''token_revoked''))
            else
              obind (require_proof P cfg q req claims) (\<lambda>refusal. case refusal of
                Some e \<Rightarrow>
                  obind (gw_log P q (access_event q res ''deny'' (proof_text e) (who q claims))) (\<lambda>_.
                    oret (401, PyDict [(''error'', PyStr (proof_text e)),
                      (''detail'', PyStr (''This token is bound to a device key; a valid '' @ ''X-Device-Proof header is required.''))]))
              | None \<Rightarrow> decide P cfg upstream q res claims)))"

section \<open>How a request runs\<close>

lemma gw_log_keeps [keeps_intros]:
  "keeps gw_forwarded (gw_log P q given)" "keeps gw_store (gw_log P q given)" "keeps gw_pdp (gw_log P q given)"
  "keeps gw_nonces (gw_log P q given)"
  by (simp_all add: gw_log_def keeps_on_part)

lemma gw_log_Inr:
  "gw_log P q given s = (r, s') \<Longrightarrow>
     \<exists>a. log_event (float_repr P) (clk q 4) (local_time q) given (gw_audit s) = (r, a) \<and> s' = s\<lparr>gw_audit := a\<rparr>"
  by (auto simp: gw_log_def on_part_def split: prod.splits)

lemma require_proof_cases:
  assumes "require_proof P cfg q req claims s = (r, s1)"
  shows "gw_forwarded s1 = gw_forwarded s" "gw_audit s1 = gw_audit s" "gw_store s1 = gw_store s" "gw_pdp s1 = gw_pdp s"
    "r = Inr None \<Longrightarrow> token_requires_proof cfg claims \<Longrightarrow>
       \<exists>seen. verify_proof P cfg claims ''GET'' (hd (split_on (CHR ''?'') (acc_path req))) (acc_proof req)
             (acc_proof_data req) (clk q 1) (gw_store s) (gw_nonces s) = (Inr (), seen)"
  using assms by (auto simp: require_proof_def split: if_splits prod.splits sum.splits proof_exn.splits)

text \<open>A bearer token that decodes, as the two checks before the policy see it.\<close>

lemma handle_access_unauthenticated:
  assumes "\<not> startswith (acc_authorization req) ''Bearer '' \<or>
    (\<exists>e. verify_token P (clk q 0) (strip (drop 7 (acc_authorization req))) = Inl e)"
  shows "\<exists>e. handle_access P cfg upstream q req =
    obind (gw_log P q (access_event q (acc_resource req) ''deny'' e [])) (\<lambda>_. oret (401, error_body e))"
  using assms by (auto simp: handle_access_def Let_def)

lemma handle_access_authenticated:
  assumes "startswith (acc_authorization req) ''Bearer ''"
    and "verify_token P (clk q 0) (strip (drop 7 (acc_authorization req))) = Inr claims"
  shows "handle_access P cfg upstream q req s =
    (case is_revoked (dget claims ''jti'') (store.disk (gw_store s)) of
       Inl x \<Rightarrow> (Inl x, s)
     | Inr True \<Rightarrow>
         obind (gw_log P q (access_event q (acc_resource req) ''deny'' ''token_revoked'' (who q claims))) (\<lambda>_.
           oret (401, error_body ''token_revoked'')) s
     | Inr False \<Rightarrow>
         (case require_proof P cfg q req claims s of
            (Inl x, s1) \<Rightarrow> (Inl x, s1)
          | (Inr (Some e), s1) \<Rightarrow>
              obind (gw_log P q (access_event q (acc_resource req) ''deny'' (proof_text e) (who q claims))) (\<lambda>_.
                oret (401, PyDict [(''error'', PyStr (proof_text e)),
                  (''detail'', PyStr (''This token is bound to a device key; a valid '' @ ''X-Device-Proof header is required.''))])) s1
          | (Inr None, s1) \<Rightarrow> decide P cfg upstream q (acc_resource req) claims s1))"
  using assms by (auto simp: handle_access_def obind_def Let_def split: sum.splits prod.splits option.splits bool.splits)

definition plain_extra :: "dict \<Rightarrow> bool" where
  "plain_extra extra \<longleftrightarrow> distinct (map fst extra) \<and>
     set (map fst extra) \<subseteq> {''username'', ''role'', ''device_id'', ''device_trust_score'', ''correlation_id''}"

text \<open>The three ways through the handler: an exception before anything was written, a refusal that is logged, and the decision of the policy.\<close>

lemma handle_access_cases:
  assumes run: "handle_access P cfg upstream q req s = (r, s')"
  obtains (raised) x where "r = Inl x" "gw_audit s' = gw_audit s" "gw_forwarded s' = gw_forwarded s"
  | (refused) why extra payload t where
      "obind (gw_log P q (access_event q (acc_resource req) ''deny'' why extra)) (\<lambda>_. oret (401, payload)) t = (r, s')"
      "gw_audit t = gw_audit s" "gw_forwarded t = gw_forwarded s" "plain_extra extra"
  | (decided) token claims t where "acc_authorization req = ''Bearer '' @ token"
      "jwt_decode P (clk q 0) (strip token) = JwtClaims claims"
      "is_revoked (dget claims ''jti'') (store.disk (gw_store s)) = Inr False"
      "token_requires_proof cfg claims \<longrightarrow>
         (\<exists>seen. verify_proof P cfg claims ''GET'' (hd (split_on (CHR ''?'') (acc_path req))) (acc_proof req)
               (acc_proof_data req) (clk q 1) (gw_store s) (gw_nonces s) = (Inr (), seen))"
      "decide P cfg upstream q (acc_resource req) claims t = (r, s')"
      "gw_audit t = gw_audit s" "gw_forwarded t = gw_forwarded s" "gw_pdp t = gw_pdp s"
proof -
  have plain: "plain_extra []" "plain_extra (who q claims)" for claims by (simp_all add: plain_extra_def who_def)
  show thesis
  proof (cases "\<not> startswith (acc_authorization req) ''Bearer '' \<or> (\<exists>e. verify_token P (clk q 0) (strip (drop 7 (acc_authorization req))) = Inl e)")
    case True
    then obtain e where "handle_access P cfg upstream q req =
        obind (gw_log P q (access_event q (acc_resource req) ''deny'' e [])) (\<lambda>_. oret (401, error_body e))"
      using handle_access_unauthenticated by blast
    then show thesis using run by (intro refused [OF _ refl refl plain(1)]) simp
  next
    case False
    then obtain token claims where token: "acc_authorization req = ''Bearer '' @ token"
      and v: "verify_token P (clk q 0) (strip token) = Inr claims"
      by (cases "verify_token P (clk q 0) (strip (drop 7 (acc_authorization req)))") (auto simp: startswith_iff)
    have jwt: "jwt_decode P (clk q 0) (strip token) = JwtClaims claims"
      using v by (auto simp: verify_token_def split: jwt_result.splits)
    obtain p t where p: "require_proof P cfg q req claims s = (p, t)" by fastforce
    note same = require_proof_cases [OF p]
    have "startswith (acc_authorization req) ''Bearer ''" "verify_token P (clk q 0) (strip (drop 7 (acc_authorization req))) = Inr claims"
      using token v by (simp_all add: startswith_iff)
    note run' = run [unfolded handle_access_authenticated [OF this] p prod.case]
    consider (broken) x where "is_revoked (dget claims ''jti'') (store.disk (gw_store s)) = Inl x"
      | (revoked) "is_revoked (dget claims ''jti'') (store.disk (gw_store s)) = Inr True"
      | (live) "is_revoked (dget claims ''jti'') (store.disk (gw_store s)) = Inr False"
      by (cases "is_revoked (dget claims ''jti'') (store.disk (gw_store s))") auto
    then show thesis
    proof cases
      case broken
      with run' show thesis by (intro raised) auto
    next
      case revoked
      with run' show thesis by (intro refused [OF _ refl refl plain(2)]) auto
    next
      case live
      consider x where "p = Inl x" | e where "p = Inr (Some e)" | "p = Inr None" by (cases p) auto
      then show thesis
      proof cases
        case 1
        with run' live same show thesis by (intro raised) auto
      next
        case 2
        with run' live show thesis by (intro refused [OF _ same(2,1) plain(2)]) auto
      next
        case 3
        with run' live have "decide P cfg upstream q (acc_resource req) claims t = (r, s')" by simp
        then show thesis using same(5) [OF 3] by (intro decided [OF token jwt live _ _ same(2,1,4)]) blast+
      qed
    qed
  qed
qed

lemma forward_effect:
  assumes "forward P cfg upstream q res claims s = (r, s')"
  shows "gw_forwarded s' = gw_forwarded s \<or>
    (\<exists>resource. map_of (RESOURCES cfg) res = Some resource \<and> gw_forwarded s' = gw_forwarded s @
       [(res, mtls_enabled cfg \<and> py_truth (dget_or resource ''require_mtls'' (PyBool False)))])"
proof (cases "map_of (RESOURCES cfg) res")
  case None
  with assms show ?thesis by (simp add: forward_def olift_eq)
next
  case (Some resource)
  obtain r1 s1 where p: "proxy_to_backend cfg upstream res resource s = (r1, s1)" by fastforce
  then have s1: "gw_forwarded s1 = gw_forwarded s \<or> gw_forwarded s1 = gw_forwarded s @
       [(res, mtls_enabled cfg \<and> py_truth (dget_or resource ''require_mtls'' (PyBool False)))]"
    by (cases "dreq resource ''host''"; cases "dreq resource ''port''") (auto simp: proxy_to_backend_def Let_def olift_def)
  have rest: "keeps gw_forwarded (relay P q res claims reply)" for reply
    by (cases reply) (auto simp: relay_def intro!: keeps_intros)
  have "gw_forwarded s' = gw_forwarded s1"
    using assms p keepsD [OF rest] by (cases r1) (auto simp: forward_def Some obind_def)
  with s1 Some show ?thesis by auto
qed

lemma decide_effect:
  assumes "decide P cfg upstream q res claims s = (r, s')" and "gw_forwarded s' \<noteq> gw_forwarded s"
  obtains why s1 where "evaluate cfg (gw_pdp s) (clk q 2) (local_hour q) claims res = Inr (True, why)"
    "gw_log P q (access_event q res ''allow'' (reason_text P why)
              [(''username'', dget claims ''sub''), (''role'', dget claims ''role''), (''device_id'', dget claims ''device_id''),
               (''device_trust_score'', dget claims ''device_trust_score''), (''correlation_id'', PyStr (correlation q))]) s = (Inr (), s1)"
    "forward P cfg upstream q res claims s1 = (r, s')"
proof -
  let ?ev = "\<lambda>allow why. access_event q res (if allow then ''allow'' else ''deny'') (reason_text P why)
              [(''username'', dget claims ''sub''), (''role'', dget claims ''role''), (''device_id'', dget claims ''device_id''),
               (''device_trust_score'', dget claims ''device_trust_score''), (''correlation_id'', PyStr (correlation q))]"
  obtain allow why where ev: "evaluate cfg (gw_pdp s) (clk q 2) (local_hour q) claims res = Inr (allow, why)"
    using assms by (cases "evaluate cfg (gw_pdp s) (clk q 2) (local_hour q) claims res") (auto simp: decide_def obind_def)
  obtain r1 s1 where l: "gw_log P q (?ev allow why) s = (r1, s1)" by fastforce
  have s1: "gw_forwarded s1 = gw_forwarded s" by (rule keepsD [OF gw_log_keeps(1) l])
  have ok: "r1 = Inr ()"
    using assms ev l s1 by (cases r1) (auto simp: decide_def obind_def)
  have "allow"
    using assms ev l s1 ok by (cases allow) (auto simp: decide_def obind_def oret_def split: if_splits)
  with assms(1) ev l ok show ?thesis
    by (intro that [of why s1]) (auto simp: decide_def obind_def)
qed

section \<open>Properties\<close>

lemma forwarded_only_after_checks:
  assumes "handle_access P cfg upstream q req s = (r, s')" and "gw_forwarded s' \<noteq> gw_forwarded s"
  obtains token claims why resource s1 where "acc_authorization req = ''Bearer '' @ token"
    "jwt_decode P (clk q 0) (strip token) = JwtClaims claims"
    "is_revoked (dget claims ''jti'') (store.disk (gw_store s)) = Inr False"
    "token_requires_proof cfg claims \<longrightarrow>
       (\<exists>seen. verify_proof P cfg claims ''GET'' (hd (split_on (CHR ''?'') (acc_path req))) (acc_proof req)
             (acc_proof_data req) (clk q 1) (gw_store s) (gw_nonces s) = (Inr (), seen))"
    "evaluate cfg (gw_pdp s) (clk q 2) (local_hour q) claims (acc_resource req) = Inr (True, why)"
    "map_of (RESOURCES cfg) (acc_resource req) = Some resource"
    "gw_forwarded s' = gw_forwarded s @ [(acc_resource req, mtls_enabled cfg \<and> py_truth (dget_or resource ''require_mtls'' (PyBool False)))]"
    "gw_audit s1 = gw_audit s" "decide P cfg upstream q (acc_resource req) claims s1 = (r, s')" "gw_forwarded s1 = gw_forwarded s"
  using assms(1)
proof (cases rule: handle_access_cases)
  case (refused why extra payload t)
  have "keeps gw_forwarded (obind (gw_log P q e) (\<lambda>_. oret x))" for e x by (intro keeps_intros gw_log_keeps)
  then have "gw_forwarded s' = gw_forwarded t" using refused(1) by (rule keepsD)
  with refused(3) assms(2) show ?thesis by simp
next
  case (decided token claims t)
  have "gw_forwarded s' \<noteq> gw_forwarded t" using assms(2) decided(7) by simp
  from decide_effect [OF decided(5) this] obtain why s2 where w:
    "evaluate cfg (gw_pdp t) (clk q 2) (local_hour q) claims (acc_resource req) = Inr (True, why)"
    "gw_forwarded s2 = gw_forwarded t" "forward P cfg upstream q (acc_resource req) claims s2 = (r, s')"
    using keepsD [OF gw_log_keeps(1)] by metis
  from forward_effect [OF w(3)] w(2) assms(2) decided(7) obtain resource where
    "map_of (RESOURCES cfg) (acc_resource req) = Some resource"
    "gw_forwarded s' = gw_forwarded s @ [(acc_resource req, mtls_enabled cfg \<and> py_truth (dget_or resource ''require_mtls'' (PyBool False)))]"
    by auto
  then show ?thesis using that [OF decided(1-4) _ _ _ decided(6,5,7)] w(1) decided(8) by simp
qed (use assms(2) in simp)

text \<open>
  C1: Complete mediation. Whatever the request, and even if the handler raises, a protected resource is contacted
  only for a bearer token that PyJWT accepts now, that is not revoked, with a valid proof of
  possession where the token is bound, and when the policy allows these claims on this
  resource; it is contacted once, and with the Gateway's client certificate
  exactly when mTLS is enabled and the resource asks for it.
\<close>

theorem gateway_mediates_completely:
  assumes "handle_access P cfg upstream q req s = (r, s')" and "gw_forwarded s' \<noteq> gw_forwarded s"
  shows "\<exists>token claims why resource. acc_authorization req = ''Bearer '' @ token \<and>
    jwt_decode P (clk q 0) (strip token) = JwtClaims claims \<and>
    is_revoked (dget claims ''jti'') (store.disk (gw_store s)) = Inr False \<and>
    (token_requires_proof cfg claims \<longrightarrow>
       (\<exists>seen. verify_proof P cfg claims ''GET'' (hd (split_on (CHR ''?'') (acc_path req))) (acc_proof req)
             (acc_proof_data req) (clk q 1) (gw_store s) (gw_nonces s) = (Inr (), seen))) \<and>
    evaluate cfg (gw_pdp s) (clk q 2) (local_hour q) claims (acc_resource req) = Inr (True, why) \<and>
    map_of (RESOURCES cfg) (acc_resource req) = Some resource \<and>
    gw_forwarded s' = gw_forwarded s @
      [(acc_resource req, mtls_enabled cfg \<and> py_truth (dget_or resource ''require_mtls'' (PyBool False)))]"
  by (rule forwarded_only_after_checks [OF assms]) blast

text \<open>Every branch of the handler writes to the log first.\<close>

lemma gw_log_extends:
  assumes "gw_log P q given s = (Inr (), s')" and "verify_chain (float_repr P) (gw_audit s) = Inr (Intact k)"
    and "log_writable (gw_audit s)" and "map_of given ''hash'' = None" and "odict_ok given"
  shows "verify_chain (float_repr P) (gw_audit s') = Inr (Intact (Suc k)) \<and> log_writable (gw_audit s') \<and>
    (\<exists>e. read_events (gw_audit s') = read_events (gw_audit s) @ [PyDict e] \<and>
      (\<forall>j x. j \<noteq> ''prev_hash'' \<and> map_of given j = Some x \<longrightarrow> map_of e j = Some x))"
proof -
  from gw_log_Inr [OF assms(1)] obtain a where
    "log_event (float_repr P) (clk q 4) (local_time q) given (gw_audit s) = (Inr (), a)" "s' = s\<lparr>gw_audit := a\<rparr>"
    by blast
  with log_event_keeps [OF assms(2,4,5,3) this(1)] show ?thesis by simp
qed

text \<open>
  From \<open>s\<close> to \<open>s'\<close> the log stayed intact and grew, first by a record of the decision on the resource.
\<close>

definition audited :: "prims \<Rightarrow> string \<Rightarrow> string \<Rightarrow> gateway \<Rightarrow> gateway \<Rightarrow> bool" where
  "audited P res decision s s' \<longleftrightarrow>
     (\<exists>k. verify_chain (float_repr P) (gw_audit s') = Inr (Intact k)) \<and> log_writable (gw_audit s') \<and>
     (\<exists>e more. read_events (gw_audit s') = read_events (gw_audit s) @ PyDict e # more \<and>
       map_of e ''resource'' = Some (PyStr res) \<and> map_of e ''decision'' = Some (PyStr decision))"

lemma access_event_ok:
  assumes "plain_extra extra"
  shows "map_of (access_event q res dec why extra) ''hash'' = None" "odict_ok (access_event q res dec why extra)"
    "map_of (access_event q res dec why extra) ''resource'' = Some (PyStr res)"
    "map_of (access_event q res dec why extra) ''decision'' = Some (PyStr dec)"
proof -
  have "''hash'' \<notin> fst ` set extra" "''event'' \<notin> fst ` set extra" "''resource'' \<notin> fst ` set extra" "''source_ip'' \<notin> fst ` set extra"
    "''decision'' \<notin> fst ` set extra" "''reason'' \<notin> fst ` set extra" and d: "distinct (map fst extra)"
    using assms by (auto simp: plain_extra_def)
  then show "map_of (access_event q res dec why extra) ''hash'' = None" "odict_ok (access_event q res dec why extra)"
    "map_of (access_event q res dec why extra) ''resource'' = Some (PyStr res)"
    "map_of (access_event q res dec why extra) ''decision'' = Some (PyStr dec)"
    by (auto simp: access_event_def map_of_eq_None_iff)
qed

lemma gw_log_audited:
  assumes "gw_log P q (access_event q res dec why extra) s = (Inr (), s')" and "plain_extra extra"
    and "verify_chain (float_repr P) (gw_audit s) = Inr (Intact k)" and "log_writable (gw_audit s)"
  shows "audited P res dec s s'"
  using gw_log_extends [OF assms(1,3,4) access_event_ok(1,2) [OF assms(2)]] access_event_ok(3,4) [OF assms(2), of q res dec why]
  by (auto simp: audited_def)

lemma audited_more:
  assumes "audited P res dec s s1" and "gw_log P q (access_event q res' dec' why extra) s1 = (Inr (), s')" and "plain_extra extra"
  shows "audited P res dec s s'"
proof -
  obtain k e more where s1: "verify_chain (float_repr P) (gw_audit s1) = Inr (Intact k)" "log_writable (gw_audit s1)"
    "read_events (gw_audit s1) = read_events (gw_audit s) @ PyDict e # more"
    "map_of e ''resource'' = Some (PyStr res)" "map_of e ''decision'' = Some (PyStr dec)"
    using assms(1) by (auto simp: audited_def)
  from gw_log_extends [OF assms(2) s1(1,2) access_event_ok(1,2) [OF assms(3)]] s1(3-5) show ?thesis
    by (auto simp: audited_def)
qed

text \<open>Only what follows the decision touches a resource.\<close>

lemma forward_audited:
  assumes "forward P cfg upstream q res claims s1 = (Inr resp, s')" and "audited P res dec s s1"
  shows "audited P res dec s s'"
proof -
  obtain resource where res: "map_of (RESOURCES cfg) res = Some resource"
    using assms(1) by (cases "map_of (RESOURCES cfg) res") (simp_all add: forward_def olift_def)
  with assms(1) obtain reply s2 where p: "proxy_to_backend cfg upstream res resource s1 = (Inr reply, s2)"
    and r: "relay P q res claims reply s2 = (Inr resp, s')"
    by (auto simp: forward_def obind_eq_Inr)
  have "gw_audit s2 = gw_audit s1"
    using p by (cases "dreq resource ''host''"; cases "dreq resource ''port''") (auto simp: proxy_to_backend_def Let_def olift_def)
  then have a: "audited P res dec s s2" using assms(2) by (simp add: audited_def)
  show ?thesis
  proof (cases reply)
    case (Unreachable e)
    with r have "gw_log P q (access_event q res ''error'' (''backend_unreachable:'' @ e) [(''username'', dget claims ''sub'')]) s2 = (Inr (), s')"
      by (auto simp: relay_def obind_eq_Inr oret_eq)
    from audited_more [OF a this] show ?thesis by (simp add: plain_extra_def)
  qed (use r a in \<open>auto simp: relay_def oret_eq olift_eq\<close>)
qed

lemma decide_audited:
  assumes "decide P cfg upstream q res claims s = (Inr resp, s')"
    and "verify_chain (float_repr P) (gw_audit s) = Inr (Intact k)" and "log_writable (gw_audit s)"
  obtains "audited P res ''deny'' s s'" "gw_forwarded s' = gw_forwarded s" "fst resp \<in> {401, 403}"
  | "audited P res ''allow'' s s'"
proof -
  let ?x = "[(''username'', dget claims ''sub''), (''role'', dget claims ''role''), (''device_id'', dget claims ''device_id''),
               (''device_trust_score'', dget claims ''device_trust_score''), (''correlation_id'', PyStr (correlation q))]"
  obtain allow why where ev: "evaluate cfg (gw_pdp s) (clk q 2) (local_hour q) claims res = Inr (allow, why)"
    using assms(1) by (cases "evaluate cfg (gw_pdp s) (clk q 2) (local_hour q) claims res") (auto simp: decide_def obind_def)
  obtain r1 s1 where l1: "gw_log P q (access_event q res (if allow then ''allow'' else ''deny'') (reason_text P why) ?x) s = (r1, s1)"
    by fastforce
  then have "r1 = Inr ()" using assms(1) ev by (cases r1) (auto simp: decide_def obind_def)
  with l1 have l: "gw_log P q (access_event q res (if allow then ''allow'' else ''deny'') (reason_text P why) ?x) s = (Inr (), s1)" by simp
  then have rest: "(if \<not> allow then
       (if startswith (reason_text P why) ''step_up_required''
        then oret (401, PyDict [(''error'', PyStr ''step_up_required''), (''reason'', PyStr (reason_text P why)),
               (''detail'', PyStr (''This resource requires a recent authentication. '' @ ''Re-authenticate with MFA and retry.''))])
        else oret (403, PyDict [(''error'', PyStr ''access_denied''), (''reason'', PyStr (reason_text P why))]))
     else forward P cfg upstream q res claims) s1 = (Inr resp, s')"
    using assms(1) ev by (simp add: decide_def obind_def)
  have x: "plain_extra ?x" by (simp add: plain_extra_def)
  note a = gw_log_audited [OF l x assms(2,3)]
  show thesis
  proof (cases allow)
    case True
    with a forward_audited rest that(2) show ?thesis by simp
  next
    case False
    then have "s' = s1" "fst resp \<in> {401, 403}" using rest by (auto simp: oret_eq split: if_splits)
    moreover have "gw_forwarded s1 = gw_forwarded s" by (rule keepsD [OF gw_log_keeps(1) l])
    ultimately show ?thesis using a False that(1) by simp
  qed
qed


text \<open>An allowed request on an intact log reaches the resource, and its answer goes back.\<close>

lemma decide_serves:
  assumes "evaluate cfg (gw_pdp s) (clk q 2) (local_hour q) claims res = Inr (True, why)"
    and "verify_chain (float_repr P) (gw_audit s) = Inr (Intact k)" and "log_writable (gw_audit s)"
    and "map_of (RESOURCES cfg) res = Some resource" and "map_of resource ''host'' = Some host" and "map_of resource ''port'' = Some port"
    and "mtls = (mtls_enabled cfg \<and> py_truth (dget_or resource ''require_mtls'' (PyBool False)))"
    and "upstream host port mtls = Replied code answer"
  shows "\<exists>s'. decide P cfg upstream q res claims s = (Inr (code, answer), s') \<and> gw_forwarded s' = gw_forwarded s @ [(res, mtls)]"
proof -
  let ?x = "[(''username'', dget claims ''sub''), (''role'', dget claims ''role''), (''device_id'', dget claims ''device_id''),
               (''device_trust_score'', dget claims ''device_trust_score''), (''correlation_id'', PyStr (correlation q))]"
  let ?ev = "access_event q res ''allow'' (reason_text P why) ?x"
  obtain r a where l: "log_event (float_repr P) (clk q 4) (local_time q) ?ev (gw_audit s) = (r, a)" by fastforce
  have x: "plain_extra ?x" by (simp add: plain_extra_def)
  from log_event_keeps [OF assms(2) access_event_ok(1,2) [OF x] assms(3) l] have "r = Inr ()" by simp
  then have log: "gw_log P q ?ev s = (Inr (), s\<lparr>gw_audit := a\<rparr>)" using l by (simp add: gw_log_def on_part_def)
  show ?thesis
    using assms(1,4,5,6,7,8) log
    by (simp add: decide_def obind_def forward_def proxy_to_backend_def Let_def olift_def dreq_def relay_def oret_def)
qed

lemma handle_access_serves:
  assumes "acc_authorization req = ''Bearer '' @ token" and "jwt_decode P (clk q 0) (strip token) = JwtClaims claims"
    and "is_revoked (dget claims ''jti'') (store.disk (gw_store s)) = Inr False"
    and "token_requires_proof cfg claims \<Longrightarrow> \<exists>seen. verify_proof P cfg claims ''GET'' (hd (split_on (CHR ''?'') (acc_path req)))
           (acc_proof req) (acc_proof_data req) (clk q 1) (gw_store s) (gw_nonces s) = (Inr (), seen)"
    and "evaluate cfg (gw_pdp s) (clk q 2) (local_hour q) claims (acc_resource req) = Inr (True, why)"
    and "verify_chain (float_repr P) (gw_audit s) = Inr (Intact k)" and "log_writable (gw_audit s)"
    and "map_of (RESOURCES cfg) (acc_resource req) = Some resource" and "map_of resource ''host'' = Some host"
    and "map_of resource ''port'' = Some port"
    and "mtls = (mtls_enabled cfg \<and> py_truth (dget_or resource ''require_mtls'' (PyBool False)))"
    and "upstream host port mtls = Replied code answer"
  shows "\<exists>s'. handle_access P cfg upstream q req s = (Inr (code, answer), s') \<and> gw_forwarded s' = gw_forwarded s @ [(acc_resource req, mtls)]"
proof -
  have b: "startswith (acc_authorization req) ''Bearer ''" by (simp add: assms(1) startswith_iff)
  have v: "verify_token P (clk q 0) (strip (drop 7 (acc_authorization req))) = Inr claims"
    using assms(1,2) by (simp add: verify_token_def)
  obtain s1 where p: "require_proof P cfg q req claims s = (Inr None, s1)"
    using assms(4) by (cases "token_requires_proof cfg claims") (auto simp: require_proof_def)
  note same = require_proof_cases(1,2,4) [OF p]
  from decide_serves [of cfg s1 q claims "acc_resource req" why P k resource host port mtls upstream code answer] assms same
  obtain s' where "decide P cfg upstream q (acc_resource req) claims s1 = (Inr (code, answer), s')"
    "gw_forwarded s' = gw_forwarded s @ [(acc_resource req, mtls)]" by auto
  then show ?thesis using assms(3) p by (simp add: handle_access_authenticated [OF b v])
qed

section \<open>Witnesses\<close>

text \<open>Carol's token, unbound, and an idle Gateway with the shipped policy.\<close>

definition carol_token :: dict where
  "carol_token = carol_claims @ [(''sub'', PyStr ''carol''), (''jti'', PyStr ''j1'')]"

definition idle_gateway :: gateway where
  "idle_gateway = \<lparr>gw_audit = no_log, gw_store = \<lparr>backend = MemoryBackend [], disk = empty_disk\<rparr>, gw_nonces = [],
     gw_pdp = \<lparr>policy_cache = shipped_cache default_config, business_hours = (PyInt 0, PyInt 24)\<rparr>, gw_forwarded = []\<rparr>"

definition finance_request :: access_request where
  "finance_request = \<lparr>acc_resource = ''finance-app'', acc_path = ''/access/finance-app'',
     acc_authorization = ''Bearer token'', acc_proof = [], acc_proof_data = []\<rparr>"

lemma carol_token_subject: "subject_as carol carol_token"
  by (simp add: subject_as_def carol_def carol_token_def carol_claims_def dict_simps opt_int_def)

lemma carol_token_verified: "verify_token (toy_prims carol_token) (clk calm 0) (strip (drop 7 ''Bearer token'')) = Inr carol_token"
  by (simp add: verify_token_def toy_prims_def strip_def rstrip_by_def lstrip_by_def is_space_def)

lemma carol_allowed: "\<exists>why. evaluate default_config (gw_pdp idle_gateway) 1002 0 carol_token ''finance-app'' = Inr (True, why)"
proof -
  obtain pol where pol: "map_of (policy_cache (gw_pdp idle_gateway)) ''finance-app'' = Some pol" "policy_as finance_policy pol"
    using shipped_finance by (auto simp: idle_gateway_def)
  have "permitted default_config (0, 24) 1002 0 finance_policy carol"
    by (simp add: permitted_def finance_policy_def carol_def level_of_def ROLE_LEVELS_def)
  then show ?thesis
    using evaluate_exact [OF pol carol_token_subject, of 0 24 default_config 1002 0] by (auto simp: idle_gateway_def)
qed

lemma carol_not_revoked: "is_revoked (dget carol_token ''jti'') (store.disk (gw_store idle_gateway)) = Inr False"
  by (simp add: is_revoked_def idle_gateway_def rev_load_def empty_disk_def carol_token_def carol_claims_def dict_simps json_has.simps)

lemma carol_unbound: "\<not> token_requires_proof default_config carol_token"
  by (simp add: token_requires_proof_def carol_token_def carol_claims_def dict_simps)

lemma carol_decoded: "jwt_decode (toy_prims carol_token) t (strip ''token'') = JwtClaims carol_token"
  by (simp add: toy_prims_def strip_def rstrip_by_def lstrip_by_def is_space_def)

lemma idle_gateway_log: "verify_chain (float_repr P) (gw_audit idle_gateway) = Inr (Intact 0)" "log_writable (gw_audit idle_gateway)"
  by (simp_all add: idle_gateway_def no_log_intact no_log_writable)

lemma carol_forwarded:
  obtains s' where "handle_access (toy_prims carol_token) default_config (\<lambda>host port mtls. Replied 200 (PyDict [])) calm
      finance_request idle_gateway = (Inr (200, PyDict []), s')" "gw_forwarded s' = [(''finance-app'', True)]"
proof -
  obtain why where ev: "evaluate default_config (gw_pdp idle_gateway) 1002 0 carol_token ''finance-app'' = Inr (True, why)"
    using carol_allowed by blast
  obtain resource where r: "map_of (RESOURCES default_config) ''finance-app'' = Some resource"
    "map_of resource ''host'' = Some (PyStr ''127.0.0.1'')" "map_of resource ''port'' = Some (PyInt 9102)"
    "True = (mtls_enabled default_config \<and> py_truth (dget_or resource ''require_mtls'' (PyBool False)))"
    by (simp add: RESOURCES_def default_config_def dict_simps)
  have f: "acc_authorization finance_request = ''Bearer '' @ ''token''" "acc_resource finance_request = ''finance-app''"
    by (simp_all add: finance_request_def)
  have n: "gw_forwarded idle_gateway = []" by (simp add: idle_gateway_def)
  from handle_access_serves [OF f(1), of "toy_prims carol_token" calm carol_token idle_gateway default_config why 0 resource _ _ True
      "\<lambda>host port mtls. Replied 200 (PyDict [])" 200 "PyDict []", OF carol_decoded carol_not_revoked _ _ idle_gateway_log _ r(2,3,4) refl]
  show thesis using that ev r(1) carol_unbound by (auto simp: f(2) n)
qed

theorem gateway_mediates_completely_witness:
  "\<exists>r s'. handle_access (toy_prims carol_token) default_config (\<lambda>host port mtls. Replied 200 (PyDict [])) calm finance_request
      idle_gateway = (r, s') \<and> gw_forwarded s' = [(''finance-app'', True)] \<and>
     (\<exists>why. evaluate default_config (gw_pdp idle_gateway) 1002 0 carol_token ''finance-app'' = Inr (True, why))"
proof -
  obtain s' where run: "handle_access (toy_prims carol_token) default_config (\<lambda>host port mtls. Replied 200 (PyDict [])) calm
      finance_request idle_gateway = (Inr (200, PyDict []), s')" and s': "gw_forwarded s' = [(''finance-app'', True)]"
    by (rule carol_forwarded)
  have "gw_forwarded s' \<noteq> gw_forwarded idle_gateway" by (simp add: s' idle_gateway_def)
  from gateway_mediates_completely [OF run this] run s' show ?thesis
    by (auto simp: toy_prims_def finance_request_def split: if_splits)
qed


end
