(* ===== verification/Services.thy ===== *)
theory Services
  imports HttpUtils IdpServer Gateway
begin

text \<open>
  The four services as applications of \<open>common/http_utils.py\<close>: the route tables and handlers of \<open>idp/idp_server.py\<close> and
  \<open>gateway/gateway_server.py\<close>, the two protected resources (\<open>resources/docs_app.py\<close>, \<open>resources/finance_app.py\<close>) in full,
  and the Gateway's request to a resource as a request that the resource dispatches.
\<close>

section \<open>The state store behind \<open>/ready\<close>\<close>

definition backend_health :: "time \<Rightarrow> string \<Rightarrow> (store, bool \<times> string) op" where
  "backend_health now err st =
     (case backend st of
        MemoryBackend m \<Rightarrow> (Inr (True, ''memory backend (process-local; not shared across instances)''), st)
      | FileBackend dir \<Rightarrow>
          (case file_health dir now (store.disk st) of
             (ok, d) \<Rightarrow> (Inr (ok, if ok then ''file backend at '' @ dir @ '' (single host only)''
                               else ''file backend unwritable at '' @ dir @ '': '' @ err), st\<lparr>store.disk := d\<rparr>)))"

section \<open>The protected resources\<close>

definition resource_data :: "config \<Rightarrow> string \<Rightarrow> string \<Rightarrow> response res" where
  "resource_data cfg name text =
     ebind (case map_of (RESOURCES cfg) name of None \<Rightarrow> Inl (KeyError name) | Some r \<Rightarrow> dreq r ''sensitivity'') (\<lambda>sens.
       Inr (200, PyDict [(''resource'', PyStr name), (''sensitivity'', sens), (''content'', PyStr text)]))"

definition docs_handle_data :: "config \<Rightarrow> response res" where
  "docs_handle_data cfg = resource_data cfg ''docs-app''
     (''Internal engineering wiki: onboarding guide, VPN retirement '' @ ''notice, and the Q3 architecture review notes.'')"

definition finance_handle_data :: "config \<Rightarrow> response res" where
  "finance_handle_data cfg = resource_data cfg ''finance-app''
     (''CONFIDENTIAL Q3 financial report: revenue $4.2M, '' @ ''payroll ledger, and unreleased earnings figures.'')"

definition RESOURCE_ROUTES :: "route list" where
  "RESOURCE_ROUTES = [((''GET'', ''/data''), ''handle_data''), ((''GET'', ''/health''), ''handle_health'')]"

definition docs_app :: "config \<Rightarrow> request_env \<Rightarrow> string \<Rightarrow> store application" where
  "docs_app cfg q err = \<lparr>routes = RESOURCE_ROUTES,
     handlers = (\<lambda>name params body. if name = ''handle_data'' then olift (docs_handle_data cfg) else oret (handle_health ''docs-app'')),
     store_health = backend_health (clk q 0) err\<rparr>"

definition finance_app :: "config \<Rightarrow> request_env \<Rightarrow> string \<Rightarrow> store application" where
  "finance_app cfg q err = \<lparr>routes = RESOURCE_ROUTES,
     handlers = (\<lambda>name params body. if name = ''handle_data'' then olift (finance_handle_data cfg) else oret (handle_health ''finance-app'')),
     store_health = backend_health (clk q 0) err\<rparr>"

text \<open>What a resource passes to \<open>serve\<close>: the address and port, whether a client certificate is required, and the names on its own.\<close>

definition resource_settings :: "config \<Rightarrow> string \<Rightarrow> (pyval \<times> pyval \<times> bool \<times> pyval list) res" where
  "resource_settings cfg name =
     ebind (case map_of (RESOURCES cfg) name of None \<Rightarrow> Inl (KeyError name) | Some r \<Rightarrow> Inr r) (\<lambda>r.
     ebind (dreq r ''host'') (\<lambda>host.
     ebind (dreq r ''port'') (\<lambda>port.
       Inr (dget_or r ''bind_host'' host, port, mtls_enabled cfg \<and> py_truth (dget_or r ''require_mtls'' (PyBool False)), [host]))))"

section \<open>The identity provider and the Gateway\<close>

definition IDP_ROUTES :: "route list" where
  "IDP_ROUTES = [((''POST'', ''/login''), ''handle_login''), ((''POST'', ''/enroll''), ''handle_enroll''),
     ((''POST'', ''/challenge''), ''handle_challenge''), ((''GET'', ''/health''), ''handle_health'')]"

definition idp_app :: "prims \<Rightarrow> config \<Rightarrow> directory \<Rightarrow> request_env \<Rightarrow> string \<Rightarrow> idp application" where
  "idp_app P cfg D q err = \<lparr>routes = IDP_ROUTES,
     handlers = (\<lambda>name params body.
       if name = ''handle_login'' then handle_login P cfg D q body
       else if name = ''handle_enroll'' then handle_enroll P cfg q body
       else if name = ''handle_challenge'' then handle_challenge q body
       else oret (handle_health ''idp'')),
     store_health = with_store (backend_health (clk q 0) err)\<rparr>"

text \<open>The headers that the Gateway reads.\<close>

record access_headers =
  hdr_authorization :: string
  hdr_proof :: string
  hdr_proof_data :: string

definition GATEWAY_ROUTES :: "route list" where
  "GATEWAY_ROUTES = [((''GET'', ''/access/{resource}''), ''handle_access''), ((''GET'', ''/health''), ''handle_health'')]"

definition to_access :: "string \<Rightarrow> access_headers \<Rightarrow> string \<Rightarrow> access_request" where
  "to_access path h name = \<lparr>acc_resource = name, acc_path = path, acc_authorization = hdr_authorization h,
     acc_proof = hdr_proof h, acc_proof_data = hdr_proof_data h\<rparr>"

definition gateway_app ::
  "prims \<Rightarrow> config \<Rightarrow> (pyval \<Rightarrow> pyval \<Rightarrow> bool \<Rightarrow> backend_reply) \<Rightarrow> request_env \<Rightarrow> string \<Rightarrow> string \<Rightarrow> access_headers \<Rightarrow> gateway application" where
  "gateway_app P cfg upstream q err path h = \<lparr>routes = GATEWAY_ROUTES,
     handlers = (\<lambda>name params body.
       if name = ''handle_access'' then
         (case map_of params ''resource'' of
            None \<Rightarrow> olift (Inl (KeyError ''resource''))
          | Some res \<Rightarrow> handle_access P cfg upstream q (to_access path h res))
       else oret (handle_health ''gateway'')),
     store_health = on_part gw_store (\<lambda>st s. s\<lparr>gw_store := st\<rparr>) (backend_health (clk q 0) err)\<rparr>"

section \<open>The request of the Gateway to a resource\<close>

definition data_request :: "string \<Rightarrow> http_request" where
  "data_request cid = \<lparr>verb = ''GET'', raw_path = ''/data'', hdr_correlation = Some cid, content_length = None, wire = []\<rparr>"

text \<open>The body of the answer: JSON, or else its text under the key \<open>raw\<close> (\<open>lossy\<close> decodes with replacement).\<close>

definition reply_of :: "(string \<Rightarrow> string) \<Rightarrow> sent \<Rightarrow> backend_reply" where
  "reply_of lossy a = Replied (status a)
     (case Option.bind (utf8_decode (payload a)) json_loads of Some v \<Rightarrow> v | None \<Rightarrow> PyDict [(''raw'', PyStr (lossy (payload a)))])"

definition fetch_data ::
  "prims \<Rightarrow> config \<Rightarrow> surroundings \<Rightarrow> (string \<Rightarrow> string) \<Rightarrow> string \<Rightarrow> 'a application \<Rightarrow> 'a server \<Rightarrow> backend_reply" where
  "fetch_data P cfg sq lossy cid A s =
     (case dispatch P cfg sq A (data_request cid) s of
        (Inl x, _) \<Rightarrow> Broke x
      | (Inr _, s') \<Rightarrow> (if answers s' = [] then Unreachable [] else reply_of lossy (last (answers s'))))"

text \<open>
  The network behind the Gateway: each resource listens at the address that the configuration has for it, and its TLS layer
  refuses a client without a certificate where it asks for one. Nothing else listens.
\<close>

definition resource_reply ::
  "prims \<Rightarrow> config \<Rightarrow> surroundings \<Rightarrow> (string \<Rightarrow> string) \<Rightarrow> string \<Rightarrow> string \<Rightarrow> 'a application \<Rightarrow> 'a server \<Rightarrow> bool \<Rightarrow> backend_reply" where
  "resource_reply P cfg sq lossy cid name A s cert =
     (case resource_settings cfg name of
        Inl x \<Rightarrow> Unreachable ''connection refused''
      | Inr (_, _, need_cert, _) \<Rightarrow>
          if need_cert \<and> \<not> cert then Unreachable ''certificate required'' else fetch_data P cfg sq lossy cid A s)"

definition lab_network ::
  "prims \<Rightarrow> config \<Rightarrow> surroundings \<Rightarrow> (string \<Rightarrow> string) \<Rightarrow> request_env \<Rightarrow> string \<Rightarrow> store server \<Rightarrow> store server \<Rightarrow>
   pyval \<Rightarrow> pyval \<Rightarrow> bool \<Rightarrow> backend_reply" where
  "lab_network P cfg sq lossy q err docs finance host port cert =
     (if host = PyStr (docs_host cfg) \<and> port = PyInt (docs_port cfg)
      then resource_reply P cfg sq lossy (correlation q) ''docs-app'' (docs_app cfg q err) docs cert
      else if host = PyStr (finance_host cfg) \<and> port = PyInt (finance_port cfg)
      then resource_reply P cfg sq lossy (correlation q) ''finance-app'' (finance_app cfg q err) finance cert
      else Unreachable ''connection refused'')"

section \<open>Routing\<close>

lemma match_data: "match_route RESOURCE_ROUTES ''GET'' ''/data'' = Some (''handle_data'', [])"
  by code_simp

lemma data_path: "path_of (data_request cid) = ''/data''" "verb (data_request cid) = ''GET''"
  by (simp_all add: data_request_def)

text \<open>The one route of the Gateway that reaches \<open>handle_access\<close>, and what it takes from the path.\<close>

lemma gateway_route:
  assumes "match_route GATEWAY_ROUTES m path = Some (name, params)" and "name = ''handle_access''"
  shows "m = ''GET'' \<and> (\<exists>res. parts path = [''access'', res] \<and> params = [(''resource'', res)])"
proof -
  have pat: "parts ''/access/{resource}'' = [''access'', ''{resource}'']" "parts ''/health'' = [''health'']" by code_simp+
  have var: "is_variable ''{resource}''" "\<not> is_variable ''access''" "\<not> is_variable ''health''" by code_simp+
  have m: "m = ''GET''" using assms(1) by (auto simp: GATEWAY_ROUTES_def split: if_splits)
  have "length (parts path) = 2"
  proof (rule ccontr)
    assume "length (parts path) \<noteq> 2"
    then have "match_route [((''GET'', ''/health''), ''handle_health'')] m path = Some (name, params)"
      using assms(1) by (simp add: GATEWAY_ROUTES_def pat m)
    then show False using assms(2) by (auto split: if_splits option.splits)
  qed
  then obtain a res where p: "parts path = [a, res]" by (auto simp: length_Suc_conv numeral_2_eq_2)
  have "match_parts (parts ''/access/{resource}'') (parts path) [] = Some params"
    using assms p m by (auto simp: GATEWAY_ROUTES_def pat var split: option.splits if_splits)
  then show ?thesis using p m by (auto simp: pat var split: if_splits)
qed

section \<open>What a resource answers\<close>

lemma fetch_data_reply:
  assumes "\<not> is_draining s" and "routes A = RESOURCE_ROUTES" and "handlers A ''handle_data'' [] (PyDict []) (app s) = (Inr (code, v), a)"
    and "plain_json v"
  shows "fetch_data P cfg sq lossy cid A s = Replied code v"
proof -
  have "\<exists>s' th. dispatch P cfg sq A (data_request cid) s = (Inr (), s') \<and> app s' = a \<and>
      answers s' = answers s @ [send_json P th (code, v)]"
    by (rule dispatch_get) (use assms in \<open>simp_all add: own_endpoint_def data_path match_data\<close>)
  then obtain s' th where d: "dispatch P cfg sq A (data_request cid) s = (Inr (), s')"
    "answers s' = answers s @ [send_json P th (code, v)]" by blast
  have "utf8_decode (json_dumps (float_repr P) False v) = Some (json_dumps (float_repr P) False v)"
    by (rule utf8_decode_ascii [OF ascii_json_dumps [OF assms(4)]])
  then show ?thesis
    using json_loads_dumps [OF assms(4), of "float_repr P"]
    by (simp add: fetch_data_def d reply_of_def send_json_def Let_def)
qed

definition resource_body :: "string \<Rightarrow> pyval \<Rightarrow> bool" where
  "resource_body name v \<longleftrightarrow> plain_json v \<and> (\<exists>sens content. v = PyDict [(''resource'', PyStr name), (''sensitivity'', PyStr sens), (''content'', PyStr content)])"

lemma resource_data_plain:
  assumes "map_of (RESOURCES cfg) name = Some r" and "map_of r ''sensitivity'' = Some (PyStr sens)"
    and "ascii name" and "ascii sens" and "ascii text"
  obtains v where "resource_data cfg name text = Inr (200, v)" "plain_json v" "resource_body name v"
proof
  let ?v = "PyDict [(''resource'', PyStr name), (''sensitivity'', PyStr sens), (''content'', PyStr text)]"
  show "resource_data cfg name text = Inr (200, ?v)" using assms(1,2) by (simp add: resource_data_def dreq_def)
  show "plain_json ?v" using assms(3-5) by (simp add: ascii_def)
  then show "resource_body name ?v" by (simp add: resource_body_def)
qed

lemma docs_data:
  obtains v where "docs_handle_data cfg = Inr (200, v)" "plain_json v" "resource_body ''docs-app'' v"
proof -
  have "\<exists>r. map_of (RESOURCES cfg) ''docs-app'' = Some r \<and> map_of r ''sensitivity'' = Some (PyStr ''low'')" by (simp add: RESOURCES_def)
  then obtain r where r: "map_of (RESOURCES cfg) ''docs-app'' = Some r" "map_of r ''sensitivity'' = Some (PyStr ''low'')" by blast
  show thesis
    unfolding docs_handle_data_def
    by (rule resource_data_plain [OF r]) (use that in \<open>auto simp: docs_handle_data_def ascii_def\<close>)
qed

lemma finance_data:
  obtains v where "finance_handle_data cfg = Inr (200, v)" "plain_json v" "resource_body ''finance-app'' v"
proof -
  have "\<exists>r. map_of (RESOURCES cfg) ''finance-app'' = Some r \<and> map_of r ''sensitivity'' = Some (PyStr ''high'')" by (simp add: RESOURCES_def)
  then obtain r where r: "map_of (RESOURCES cfg) ''finance-app'' = Some r" "map_of r ''sensitivity'' = Some (PyStr ''high'')" by blast
  show thesis
    unfolding finance_handle_data_def
    by (rule resource_data_plain [OF r]) (use that in \<open>auto simp: finance_handle_data_def ascii_def\<close>)
qed

text \<open>Both resources ask for the Gateway's certificate when mTLS is on, and the Gateway presents it then.\<close>

lemma lab_network_serves:
  assumes "\<not> is_draining docs" and "\<not> is_draining finance"
    and "docs_host cfg \<noteq> finance_host cfg \<or> docs_port cfg \<noteq> finance_port cfg" and "res \<in> {''docs-app'', ''finance-app''}"
  obtains resource host port v where "map_of (RESOURCES cfg) res = Some resource" "map_of resource ''host'' = Some host"
    "map_of resource ''port'' = Some port" "py_truth (dget_or resource ''require_mtls'' (PyBool False))"
    "lab_network P cfg sq lossy q err docs finance host port (mtls_enabled cfg) = Replied 200 v" "resource_body res v"
proof (cases "res = ''docs-app''")
  case True
  obtain v where v: "docs_handle_data cfg = Inr (200, v)" "plain_json v" "resource_body ''docs-app'' v" by (rule docs_data)
  have "fetch_data P cfg sq lossy (correlation q) (docs_app cfg q err) docs = Replied 200 v"
    using assms(1) v by (intro fetch_data_reply) (simp_all add: docs_app_def olift_def)
  then have net: "lab_network P cfg sq lossy q err docs finance (PyStr (docs_host cfg)) (PyInt (docs_port cfg)) (mtls_enabled cfg) = Replied 200 v"
    using assms(3) by (auto simp: RESOURCES_def lab_network_def resource_reply_def resource_settings_def dreq_def dict_simps)
  have "\<exists>r. map_of (RESOURCES cfg) ''docs-app'' = Some r \<and> map_of r ''host'' = Some (PyStr (docs_host cfg)) \<and>
      map_of r ''port'' = Some (PyInt (docs_port cfg)) \<and> py_truth (dget_or r ''require_mtls'' (PyBool False))"
    by (simp add: RESOURCES_def dict_simps)
  then show thesis using that net v(3) True by blast
next
  case False
  then have res: "res = ''finance-app''" using assms(4) by simp
  obtain v where v: "finance_handle_data cfg = Inr (200, v)" "plain_json v" "resource_body ''finance-app'' v" by (rule finance_data)
  have "fetch_data P cfg sq lossy (correlation q) (finance_app cfg q err) finance = Replied 200 v"
    using assms(2) v by (intro fetch_data_reply) (simp_all add: finance_app_def olift_def)
  then have net: "lab_network P cfg sq lossy q err docs finance (PyStr (finance_host cfg)) (PyInt (finance_port cfg)) (mtls_enabled cfg) = Replied 200 v"
    using assms(3) by (auto simp: RESOURCES_def lab_network_def resource_reply_def resource_settings_def dreq_def dict_simps)
  have "\<exists>r. map_of (RESOURCES cfg) ''finance-app'' = Some r \<and> map_of r ''host'' = Some (PyStr (finance_host cfg)) \<and>
      map_of r ''port'' = Some (PyInt (finance_port cfg)) \<and> py_truth (dget_or r ''require_mtls'' (PyBool False))"
    by (simp add: RESOURCES_def dict_simps)
  then show thesis using that net v(3) res by blast
qed

end
