(* ===== verification/ClientAgent.thy ===== *)
theory ClientAgent
  imports DeviceAttestation DevicePosture ProvisionCerts Services
begin

text \<open>
  \<open>agent/client_agent.py\<close>: the agent of the user, as an operation on the machine it runs on and on the network. The network is a
  parameter: a request, of the given method, URL, headers and JSON body, changes a state of any type and is answered or raises.
  The clock, the random values and what the user types are arguments; what the agent prints has no counterpart.
\<close>

record reply =
  reply_code :: int
  reply_body :: string

record ('w, 'n) agent =
  device :: "'w machine"
  net :: 'n

type_synonym 'n http = "string \<Rightarrow> string \<Rightarrow> (string \<times> string) list \<Rightarrow> pyval option \<Rightarrow> ('n, reply) op"

definition on_device :: "('w machine, 'a) op \<Rightarrow> (('w, 'n) agent, 'a) op" where
  "on_device = on_part device (\<lambda>d s. s\<lparr>device := d\<rparr>)"

definition on_net :: "('n, 'a) op \<Rightarrow> (('w, 'n) agent, 'a) op" where
  "on_net = on_part net (\<lambda>n s. s\<lparr>net := n\<rparr>)"

text \<open>\<open>resp.json()\<close>; its error is a \<open>ValueError\<close>.\<close>

definition reply_json :: "reply \<Rightarrow> pyval res" where
  "reply_json r = (case Option.bind (utf8_decode (reply_body r)) json_loads of None \<Rightarrow> Inl ValueError | Some v \<Rightarrow> Inr v)"

definition IDP_URL :: "network \<Rightarrow> string" where
  "IDP_URL w = tls_scheme @ ''://'' @ fst (idp_addr w) @ '':'' @ dec_int (fst (snd (idp_addr w)))"

definition GATEWAY_URL :: "network \<Rightarrow> string" where
  "GATEWAY_URL w = tls_scheme @ ''://'' @ fst (gateway_addr w) @ '':'' @ dec_int (fst (snd (gateway_addr w)))"

section \<open>Attestation\<close>

text \<open>What one run of the agent draws: the digits of a device id, nonces, the readings of the clock, and what the user types.\<close>

record agent_env =
  id_suffix :: string
  typed_otp :: string
  otp_clock :: time
  proof_clock :: time
  proof_nonce :: string

text \<open>The body of the \<open>try\<close>. In the case of a 202, whatever the answer holds and even if reading it raises, the result is \<open>None\<close>.\<close>

definition attest :: "'w attest_prims \<Rightarrow> 'n http \<Rightarrow> network \<Rightarrow> string \<Rightarrow> (('w, 'n) agent, string option) op" where
  "attest A http w device_id =
     obind (on_device (ensure_enrolled A device_id)) (\<lambda>e.
     obind (on_net (http ''POST'' (IDP_URL w @ ''/enroll'') []
       (Some (PyDict [(''device_id'', PyStr device_id), (''public_key_pem'', PyStr (enr_public_key_pem e))])))) (\<lambda>r.
     if reply_code r = 202 then oret None
     else obind (on_net (http ''POST'' (IDP_URL w @ ''/challenge'') [] (Some (PyDict [(''device_id'', PyStr device_id)])))) (\<lambda>c.
       if reply_code c \<noteq> 200 then oret None
       else obind (olift (ebind (reply_json c) (\<lambda>v. ebind (as_dict v) (\<lambda>d. ebind (dreq d ''nonce'') as_str)))) (\<lambda>nonce.
         obind (on_device (sign_nonce A device_id nonce (hardware_backed e))) (\<lambda>sig. oret (Some sig))))))"

definition do_attestation :: "'w attest_prims \<Rightarrow> 'n http \<Rightarrow> network \<Rightarrow> string \<Rightarrow> (('w, 'n) agent, string option) op" where
  "do_attestation A http w device_id s =
     (case attest A http w device_id s of
        (Inr r, s') \<Rightarrow> (Inr r, s')
      | (Inl Unmodelled, s') \<Rightarrow> (Inl Unmodelled, s')
      | (Inl _, s') \<Rightarrow> (Inr None, s'))"

section \<open>Login\<close>

record agent_args =
  arg_user :: string
  arg_password :: string
  arg_resource :: string
  arg_demo :: bool
  arg_simulate :: bool
  arg_attest :: bool

definition demo_secret :: "prims \<Rightarrow> string \<Rightarrow> string res" where
  "demo_secret P u = (case map_of (USERS P) u of None \<Rightarrow> Inl (KeyError u) | Some e \<Rightarrow> ebind (dreq e ''totp_secret'') as_str)"

definition one_time_code :: "prims \<Rightarrow> agent_env \<Rightarrow> agent_args \<Rightarrow> string res" where
  "one_time_code P q args =
     (if arg_demo args then ebind (demo_secret P (arg_user args)) (\<lambda>secret. current_totp secret 30 6 (otp_clock q))
      else Inr (strip (typed_otp q)))"

definition login_body :: "agent_args \<Rightarrow> string \<Rightarrow> int \<Rightarrow> string \<Rightarrow> string option \<Rightarrow> dict" where
  "login_body args otp score device_id sig =
     [(''username'', PyStr (arg_user args)), (''password'', PyStr (arg_password args)), (''otp'', PyStr otp),
      (''device_trust_score'', PyInt score), (''device_id'', PyStr device_id), (''attestation_signature'', opt_str sig)]"

text \<open>What becomes of the answer: the token, \<open>PyNone\<close> if there is none.\<close>

definition read_login :: "reply \<Rightarrow> pyval res" where
  "read_login r =
     ebind (reply_json r) (\<lambda>v.
     if reply_code r \<noteq> 200 then Inr PyNone
     else ebind (as_dict v) (\<lambda>data. ebind (dreq data ''claims'') (\<lambda>c. ebind (as_dict c) (\<lambda>claims.
       ebind (dreq data ''expires_in'') (\<lambda>_. dreq data ''access_token'')))))"

definition authenticate ::
  "prims \<Rightarrow> 'w attest_prims \<Rightarrow> 'n http \<Rightarrow> network \<Rightarrow> endpoint \<Rightarrow> agent_env \<Rightarrow> agent_args \<Rightarrow> (('w, 'n) agent, pyval) op" where
  "authenticate P A http w ep q args =
     (let score = fst (compute_trust_score ep (arg_simulate args)) in
      obind (olift (one_time_code P q args)) (\<lambda>otp.
      obind (on_device (osafe (get_local_device_id A (id_suffix q)))) (\<lambda>device_id.
      obind (if arg_attest args then do_attestation A http w device_id else oret None) (\<lambda>sig.
      obind (on_net (http ''POST'' (IDP_URL w @ ''/login'') [] (Some (PyDict (login_body args otp score device_id sig))))) (\<lambda>r.
      olift (read_login r))))))"

section \<open>Access\<close>

text \<open>
  \<open>base64.urlsafe_b64decode(payload + "=" * (-len(payload) % 4))\<close>, parsed. \<open>json.loads\<close> would read a payload with NUL bytes as UTF-16
  or UTF-32; here it reads UTF-8 only.
\<close>

definition from_urlsafe :: "char \<Rightarrow> char" where
  "from_urlsafe c = (if c = CHR ''-'' then CHR ''+'' else if c = CHR ''_'' then CHR ''/'' else c)"

definition decode_claims_unverified :: "pyval \<Rightarrow> pyval" where
  "decode_claims_unverified token =
     (case token of
        PyStr t \<Rightarrow>
          (case split_on (CHR ''.'') t of
             _ # seg # _ \<Rightarrow>
               (case Option.bind (Option.bind (b64decode (map from_urlsafe (seg @ replicate ((4 - length seg mod 4) mod 4) (CHR ''='')))) utf8_decode) json_loads of
                  Some v \<Rightarrow> v | None \<Rightarrow> PyDict [])
           | _ \<Rightarrow> PyDict [])
      | _ \<Rightarrow> PyDict [])"

text \<open>\<open>_build_device_proof\<close> with the device that signs: the theory \<open>TokenBinding\<close> has what it makes of the signature.\<close>

definition device_proof ::
  "prims \<Rightarrow> 'w attest_prims \<Rightarrow> agent_env \<Rightarrow> dict \<Rightarrow> string \<Rightarrow> string \<Rightarrow> 'w machine \<Rightarrow> (string \<times> string) list \<times> 'w machine" where
  "device_proof P A q claims meth path m =
     (if \<not> py_truth (dget claims ''cnf'') then ([], m)
      else case get_local_device_id A (id_suffix q) m of
        (device_id, m1) \<Rightarrow>
          (case ensure_enrolled A device_id m1 of
             (Inl _, m2) \<Rightarrow> ([], m2)
           | (Inr e, m2) \<Rightarrow>
               (build_device_proof P
                  (\<lambda>msg. case sign_bytes A device_id msg (hardware_backed e) m2 of (Inr s, _) \<Rightarrow> Some s | _ \<Rightarrow> None)
                  claims meth path (proof_clock q) (proof_nonce q),
                case map_of claims ''jti'' of
                  None \<Rightarrow> m2
                | Some jti \<Rightarrow> snd (sign_bytes A device_id
                    (build_proof_payload (py_str P jti) meth path (trunc (proof_clock q)) (proof_nonce q)) (hardware_backed e) m2))))"

definition request_resource ::
  "prims \<Rightarrow> 'w attest_prims \<Rightarrow> 'n http \<Rightarrow> network \<Rightarrow> agent_env \<Rightarrow> string \<Rightarrow> pyval \<Rightarrow> (('w, 'n) agent, int \<times> pyval) op" where
  "request_resource P A http w q resource token =
     (let path = ''/access/'' @ resource in
      obind (olift (as_dict (decode_claims_unverified token))) (\<lambda>claims.
      obind (on_device (osafe (device_proof P A q claims ''GET'' path))) (\<lambda>headers.
      obind (on_net (http ''GET'' (GATEWAY_URL w @ path) ((''Authorization'', ''Bearer '' @ py_str P token) # headers) None)) (\<lambda>r.
      obind (olift (reply_json r)) (\<lambda>v. oret (reply_code r, v))))))"

text \<open>One cycle of \<open>run_once\<close> or \<open>run_watch\<close>: what was reported of the access, \<open>None\<close> if the login failed.\<close>

definition run_once ::
  "prims \<Rightarrow> 'w attest_prims \<Rightarrow> 'n http \<Rightarrow> network \<Rightarrow> endpoint \<Rightarrow> agent_env \<Rightarrow> agent_args \<Rightarrow> (('w, 'n) agent, (int \<times> pyval) option) op" where
  "run_once P A http w ep q args =
     obind (authenticate P A http w ep q args) (\<lambda>token.
     if token = PyNone then oret None
     else obind (request_resource P A http w q (arg_resource args) token) (\<lambda>r. oret (Some r)))"

text \<open>
  \<open>run_watch\<close> repeats this for ever, from cycle 1 on; \<open>watch\<close> is its first \<open>n\<close> cycles from cycle \<open>c\<close>. An exception ends it.
\<close>

definition compromised_at :: "int \<Rightarrow> bool \<Rightarrow> nat \<Rightarrow> bool" where
  "compromised_at compromise_after simulate cycle \<longleftrightarrow> simulate \<or> (0 < compromise_after \<and> compromise_after \<le> int cycle)"

fun watch ::
  "prims \<Rightarrow> 'w attest_prims \<Rightarrow> 'n http \<Rightarrow> network \<Rightarrow> endpoint \<Rightarrow> (nat \<Rightarrow> agent_env) \<Rightarrow> int \<Rightarrow> agent_args \<Rightarrow> nat \<Rightarrow> nat \<Rightarrow>
   (('w, 'n) agent, (int \<times> pyval) option list) op" where
  "watch P A http w ep q after args c 0 = oret []"
| "watch P A http w ep q after args c (Suc n) =
     obind (run_once P A http w ep (q c) (args\<lparr>arg_simulate := compromised_at after (arg_simulate args) c\<rparr>)) (\<lambda>r.
     obind (watch P A http w ep q after args (Suc c) n) (\<lambda>rs. oret (r # rs)))"

text \<open>
  \<open>main\<close>: \<open>watching\<close> is \<open>--watch\<close> and \<open>after\<close> is \<open>--compromise-after\<close>; \<open>n\<close> is the number of cycles until the user stops it. The
  parser's choices admit the two resources only: any other ends the program with status 2.
\<close>

definition agent_main ::
  "prims \<Rightarrow> 'w attest_prims \<Rightarrow> 'n http \<Rightarrow> network \<Rightarrow> endpoint \<Rightarrow> (nat \<Rightarrow> agent_env) \<Rightarrow> bool \<Rightarrow> int \<Rightarrow> agent_args \<Rightarrow> nat \<Rightarrow>
   (('w, 'n) agent, int + (int \<times> pyval) option list) op" where
  "agent_main P A http w ep q watching after args n =
     (if arg_resource args \<notin> {''docs-app'', ''finance-app''} then oret (Inl 2)
      else if watching then obind (watch P A http w ep q after args 1 n) (\<lambda>rs. oret (Inr rs))
      else obind (run_once P A http w ep (q 0) args) (\<lambda>r. oret (Inr [r])))"

text \<open>Watching for \<open>m + n\<close> cycles is watching for \<open>m\<close> and then, from where that ended, for \<open>n\<close> more.\<close>

lemma watch_add:
  "watch P A http w ep q after args c (m + n) =
     obind (watch P A http w ep q after args c m) (\<lambda>rs.
     obind (watch P A http w ep q after args (c + m) n) (\<lambda>rs'. oret (rs @ rs')))"
proof (induction m arbitrary: c)
  case (Suc m)
  then show ?case by (simp add: fun_eq_iff obind_def oret_def split: sum.split prod.split)
qed (simp add: fun_eq_iff obind_def oret_def split: sum.split prod.split)

section \<open>Reading one's own token\<close>

text \<open>A segment of a compact JWS: base64url without padding.\<close>

definition to_urlsafe :: "char \<Rightarrow> char" where
  "to_urlsafe c = (if c = CHR ''+'' then CHR ''-'' else if c = CHR ''/'' then CHR ''_'' else c)"

definition jws_segment :: "string \<Rightarrow> string" where
  "jws_segment bytes = map to_urlsafe (filter (\<lambda>c. c \<noteq> pad_char) (b64encode bytes))"

abbreviation unpadded :: "string \<Rightarrow> string" where
  "unpadded \<equiv> filter (\<lambda>c. c \<noteq> pad_char)"

lemma repad_b64encode:
  "unpadded (b64encode s) @ replicate ((4 - length (unpadded (b64encode s)) mod 4) mod 4) pad_char = b64encode s"
proof -
  have four: "Suc (Suc (Suc (Suc n))) mod 4 = n mod 4" for n :: nat by presburger
  have small: "Suc (Suc 0) mod 4 = (2 :: nat)" "Suc (Suc (Suc 0)) mod 4 = (3 :: nat)" by simp_all
  have two: "replicate 2 c = [c, c]" for c :: char by (simp add: numeral_2_eq_2)
  show ?thesis
    by (induction s rule: b64encode.induct) (simp_all add: Let_def b64_char_facts b64_bounds four small two)
qed

lemma b64encode_chars: "c \<in> set (b64encode s) \<Longrightarrow> inert c \<and> c \<noteq> CHR ''-'' \<and> c \<noteq> CHR ''_''"
proof -
  have char: "inert (b64_char i) \<and> b64_char i \<noteq> CHR ''-'' \<and> b64_char i \<noteq> CHR ''_''" if "i < 64" for i
    using b64_char_inert [OF that] b64_char_facts(1) [OF that] by (auto simp: b64_val_def)
  have pad: "inert pad_char" by (simp add: inert_def)
  show "c \<in> set (b64encode s) \<Longrightarrow> ?thesis"
    by (induction s rule: b64encode.induct) (auto simp: Let_def char pad b64_bounds)
qed

lemma segment_back: "map from_urlsafe (jws_segment s) = unpadded (b64encode s)"
proof -
  have "from_urlsafe (to_urlsafe c) = c" if "c \<in> set (b64encode s)" for c
    using b64encode_chars [OF that] by (auto simp: from_urlsafe_def to_urlsafe_def)
  then show ?thesis by (simp add: jws_segment_def) (rule map_idI, simp)
qed

lemma segment_no_dot: "CHR ''.'' \<notin> set (jws_segment s)"
proof
  assume "CHR ''.'' \<in> set (jws_segment s)"
  then obtain c where "c \<in> set (b64encode s)" "to_urlsafe c = CHR ''.''" by (auto simp: jws_segment_def)
  then have "inert (CHR ''.'')" using b64encode_chars [of c s] by (auto simp: to_urlsafe_def split: if_splits)
  then show False by (simp add: inert_def is_alnum_def is_upper_def is_lower_def is_digit_def)
qed

lemma segment_decodes:
  assumes "CHR ''.'' \<notin> set header" and "Option.bind (utf8_decode json) json_loads = Some v"
  shows "decode_claims_unverified (PyStr (header @ ''.'' @ jws_segment json @ ''.'' @ signature)) = v"
proof -
  obtain sigs where s: "split_on (CHR ''.'') (header @ ''.'' @ jws_segment json @ ''.'' @ signature) = header # jws_segment json # sigs"
    using split_on_append [of "CHR ''.''" header "jws_segment json @ ''.'' @ signature"]
      split_on_append [OF segment_no_dot [of json], of signature] assms(1) by simp
  have "length (jws_segment json) = length (unpadded (b64encode json))" by (simp add: jws_segment_def)
  then have "map from_urlsafe (jws_segment json @ replicate ((4 - length (jws_segment json) mod 4) mod 4) pad_char) = b64encode json"
    by (simp add: segment_back repad_b64encode) (simp add: from_urlsafe_def repad_b64encode)
  then show ?thesis using assms(2) by (simp add: decode_claims_unverified_def s [simplified] b64decode_b64encode)
qed

section \<open>Properties\<close>

text \<open>
  The agent reads the claims out of its own token: the payload of a compact JWS, encoded in base64url without
  padding, comes back as the value its text stands for, whatever the header and the signature are.
\<close>

theorem agent_reads_its_token:
  assumes "CHR ''.'' \<notin> set header" and "Option.bind (utf8_decode json) json_loads = Some v"
  shows "decode_claims_unverified (PyStr (header @ ''.'' @ jws_segment json @ ''.'' @ signature)) = v"
  by (rule segment_decodes [OF assms])

section \<open>Witnesses\<close>

theorem agent_reads_its_token_witness:
  "decode_claims_unverified (PyStr (''h'' @ ''.'' @ jws_segment (json_dumps (\<lambda>_. []) False (PyDict [(''jti'', PyStr ''j1'')])) @ ''.'' @ ''s'')) =
     PyDict [(''jti'', PyStr ''j1'')]"
proof -
  let ?v = "PyDict [(''jti'', PyStr ''j1'')]"
  have v: "plain_json ?v" by (simp add: ascii_def)
  show ?thesis
    by (rule agent_reads_its_token)
      (simp_all only: utf8_decode_ascii [OF ascii_json_dumps [OF v]] json_loads_dumps [OF v] bind.simps, simp)
qed

end
