(* ===== verification/EndToEnd.thy ===== *)
theory EndToEnd
  imports Services
begin

text \<open>
  Properties that span the services: what a client can make the Gateway do over HTTP, what a permitted request
  brings back from the resources, and how a login, a revocation and an access interact through the shared files.
\<close>

section \<open>The Gateway over the wire\<close>

text \<open>A request that moves \<open>gw_forwarded\<close> ran \<open>handle_access\<close>.\<close>

lemma wire_forwarding:
  assumes "dispatch P cfg sq (gateway_app P cfg upstream q err (raw_path req) h) req s = (r, s')"
    and "gw_forwarded (app s') \<noteq> gw_forwarded (app s)"
  obtains res r' where "\<not> is_draining s" "verb req = ''GET''" "parts (path_of req) = [''access'', res]"
    "handle_access P cfg upstream q (to_access (raw_path req) h res) (app s) = (r', app s')"
  using assms(1)
proof (cases rule: dispatch_app)
  case nothing
  with assms(2) show thesis by simp
next
  case probe
  have "keeps gw_forwarded (on_part gw_store (\<lambda>st s. s\<lparr>gw_store := st\<rparr>) (backend_health (clk q 0) err) :: (gateway, bool \<times> string) op)"
    by (rule keeps_on_part) simp
  with probe(2) have "gw_forwarded (app s') = gw_forwarded (app s)" by (simp only: gateway_app_def application.simps keeps_def)
  with assms(2) show thesis by simp
next
  case (handler name params body)
  have m: "match_route GATEWAY_ROUTES (verb req) (path_of req) = Some (name, params)"
    using handler(2) by (simp add: gateway_app_def)
  have name: "name = ''handle_access''"
  proof (rule ccontr)
    assume "name \<noteq> ''handle_access''"
    with handler(3) assms(2) show False by (simp add: gateway_app_def oret_def)
  qed
  from gateway_route [OF m name] obtain res where g: "verb req = ''GET''" "parts (path_of req) = [''access'', res]" "params = [(''resource'', res)]"
    by blast
  have "app s' = snd (handle_access P cfg upstream q (to_access (raw_path req) h res) (app s))"
    using handler(3) by (simp add: gateway_app_def name g(3))
  with handler(1) g(1,2) show thesis using that by (metis prod.collapse)
qed

text \<open>
  C6: Complete mediation over the wire. Whatever a client sends to the Gateway, whether it is answered or fails, a
  protected resource is contacted only if the Gateway is not draining, the request is a GET of
  \<open>/access/NAME\<close> for that resource, and it carries a bearer token that is valid now, is not revoked, comes with
  its proof of possession where it is bound, and is allowed by the policy.
\<close>

theorem gateway_mediates_over_the_wire:
  assumes "dispatch P cfg sq (gateway_app P cfg upstream q err (raw_path req) h) req s = (r, s')"
    and "gw_forwarded (app s') \<noteq> gw_forwarded (app s)"
  shows "\<exists>res token claims why mtls. \<not> is_draining s \<and> verb req = ''GET'' \<and> parts (path_of req) = [''access'', res] \<and>
    hdr_authorization h = ''Bearer '' @ token \<and> jwt_decode P (clk q 0) (strip token) = JwtClaims claims \<and>
    is_revoked (dget claims ''jti'') (store.disk (gw_store (app s))) = Inr False \<and>
    (token_requires_proof cfg claims \<longrightarrow>
       (\<exists>seen. verify_proof P cfg claims ''GET'' (path_of req) (hdr_proof h) (hdr_proof_data h) (clk q 1)
          (gw_store (app s)) (gw_nonces (app s)) = (Inr (), seen))) \<and>
    evaluate cfg (gw_pdp (app s)) (clk q 2) (local_hour q) claims res = Inr (True, why) \<and>
    gw_forwarded (app s') = gw_forwarded (app s) @ [(res, mtls)]"
proof -
  obtain res r' where w: "\<not> is_draining s" "verb req = ''GET''" "parts (path_of req) = [''access'', res]"
    and run: "handle_access P cfg upstream q (to_access (raw_path req) h res) (app s) = (r', app s')"
    using assms by (rule wire_forwarding)
  from forwarded_only_after_checks [OF run assms(2)] show ?thesis
    using w by (simp add: to_access_def) metis
qed

text \<open>The one path that is routed to \<open>handle_access\<close>.\<close>

lemma access_routed:
  assumes "parts path = [''access'', res]"
  shows "match_route GATEWAY_ROUTES ''GET'' path = Some (''handle_access'', [(''resource'', res)])"
    "path \<noteq> ''/health''" "path \<noteq> ''/ready''"
proof -
  have pat: "parts ''/access/{resource}'' = [''access'', ''{resource}'']" by code_simp
  have var: "is_variable ''{resource}''" "\<not> is_variable ''access''" by code_simp+
  have name: "butlast (tl ''{resource}'') = ''resource''" by simp
  show "match_route GATEWAY_ROUTES ''GET'' path = Some (''handle_access'', [(''resource'', res)])"
    by (simp add: GATEWAY_ROUTES_def pat assms var name)
  have "parts ''/health'' = [''health'']" "parts ''/ready'' = [''ready'']" by code_simp+
  with assms show "path \<noteq> ''/health''" "path \<noteq> ''/ready''" by auto
qed

lemma gateway_dispatch:
  assumes "\<not> is_draining s" and "verb req = ''GET''" and "parts (path_of req) = [''access'', res]"
    and "handle_access P cfg upstream q (to_access (raw_path req) h res) (app s) = (Inr resp, a)"
  shows "\<exists>s' th. dispatch P cfg sq (gateway_app P cfg upstream q err (raw_path req) h) req s = (Inr (), s') \<and>
    app s' = a \<and> answers s' = answers s @ [send_json P th resp]"
proof -
  note m = access_routed [OF assms(3)]
  show ?thesis
  proof (rule dispatch_get)
    show "match_route (routes (gateway_app P cfg upstream q err (raw_path req) h)) ''GET'' (path_of req) =
        Some (''handle_access'', [(''resource'', res)])"
      using m(1) by (simp add: gateway_app_def)
    show "handlers (gateway_app P cfg upstream q err (raw_path req) h) ''handle_access'' [(''resource'', res)] (PyDict []) (app s) = (Inr resp, a)"
      using assms(4) by (simp add: gateway_app_def)
  qed (use assms m in \<open>simp_all add: own_endpoint_def\<close>)
qed

lemma permitted_request:
  assumes "\<not> is_draining g" and "\<not> is_draining docs" and "\<not> is_draining finance"
    and "docs_host cfg \<noteq> finance_host cfg \<or> docs_port cfg \<noteq> finance_port cfg"
    and "verb req = ''GET''" and "parts (path_of req) = [''access'', res]" and "res \<in> {''docs-app'', ''finance-app''}"
    and "hdr_authorization h = ''Bearer '' @ token" and "jwt_decode P (clk q 0) (strip token) = JwtClaims claims"
    and "is_revoked (dget claims ''jti'') (store.disk (gw_store (app g))) = Inr False"
    and "token_requires_proof cfg claims \<Longrightarrow> \<exists>seen. verify_proof P cfg claims ''GET'' (path_of req) (hdr_proof h) (hdr_proof_data h)
           (clk q 1) (gw_store (app g)) (gw_nonces (app g)) = (Inr (), seen)"
    and "evaluate cfg (gw_pdp (app g)) (clk q 2) (local_hour q) claims res = Inr (True, why)"
    and "verify_chain (float_repr P) (gw_audit (app g)) = Inr (Intact k)" and "log_writable (gw_audit (app g))"
  shows "\<exists>g' th v. dispatch P cfg sq (gateway_app P cfg (lab_network P cfg sq lossy q err docs finance) q err (raw_path req) h) req g = (Inr (), g') \<and>
    answers g' = answers g @ [send_json P th (200, v)] \<and> resource_body res v \<and>
    gw_forwarded (app g') = gw_forwarded (app g) @ [(res, mtls_enabled cfg)]"
proof -
  from assms(2,3,4,7) obtain resource host port v where r: "map_of (RESOURCES cfg) res = Some resource" "map_of resource ''host'' = Some host"
    "map_of resource ''port'' = Some port" "py_truth (dget_or resource ''require_mtls'' (PyBool False))"
    and net: "lab_network P cfg sq lossy q err docs finance host port (mtls_enabled cfg) = Replied 200 v" and v: "resource_body res v"
    by (rule lab_network_serves [where P = P and sq = sq and lossy = lossy and q = q and err = err])
  let ?a = "to_access (raw_path req) h res"
  have a: "acc_authorization ?a = ''Bearer '' @ token" "acc_resource ?a = res" "acc_path ?a = raw_path req"
    "acc_proof ?a = hdr_proof h" "acc_proof_data ?a = hdr_proof_data h"
    by (simp_all add: to_access_def assms(8))
  have possession: "\<exists>seen. verify_proof P cfg claims ''GET'' (hd (split_on (CHR ''?'') (acc_path ?a))) (acc_proof ?a) (acc_proof_data ?a)
      (clk q 1) (gw_store (app g)) (gw_nonces (app g)) = (Inr (), seen)" if "token_requires_proof cfg claims"
    using assms(11) [OF that] by (simp only: a)
  have mtls: "mtls_enabled cfg = (mtls_enabled cfg \<and> py_truth (dget_or resource ''require_mtls'' (PyBool False)))" using r(4) by simp
  have "\<exists>s'. handle_access P cfg (lab_network P cfg sq lossy q err docs finance) q ?a (app g) = (Inr (200, v), s') \<and>
      gw_forwarded s' = gw_forwarded (app g) @ [(acc_resource ?a, mtls_enabled cfg)]"
    by (rule handle_access_serves [where P = P and q = q and cfg = cfg and s = "app g" and req = ?a and claims = claims and token = token and why = why
        and k = k and resource = resource and host = host and port = port and mtls = "mtls_enabled cfg" and code = 200 and answer = v
        and upstream = "lab_network P cfg sq lossy q err docs finance", OF a(1) assms(9,10) _ _ assms(13,14) _ r(2,3) mtls net])
      (use possession assms(12) r(1) in \<open>simp_all only: a(2)\<close>)
  then obtain s' where s': "handle_access P cfg (lab_network P cfg sq lossy q err docs finance) q ?a (app g) = (Inr (200, v), s')"
    "gw_forwarded s' = gw_forwarded (app g) @ [(res, mtls_enabled cfg)]" using a(2) by auto
  from gateway_dispatch [OF assms(1,5,6) s'(1), of sq err] s'(2) v show ?thesis by auto
qed

text \<open>
  C34: A permitted request is served: a GET of \<open>/access/docs-app\<close> or \<open>/access/finance-app\<close> that passes every check of the Gateway,
  with the log intact and the resources up, is answered with 200 and the document of that resource, which came over a second
  HTTP request to it, was encoded and parsed again on the way, and cost exactly one contact, with the Gateway's certificate if mTLS is on.
\<close>

theorem permitted_request_is_served:
  assumes "\<not> is_draining g" and "\<not> is_draining docs" and "\<not> is_draining finance"
    and "docs_host cfg \<noteq> finance_host cfg \<or> docs_port cfg \<noteq> finance_port cfg"
    and "verb req = ''GET''" and "parts (path_of req) = [''access'', res]" and "res \<in> {''docs-app'', ''finance-app''}"
    and "hdr_authorization h = ''Bearer '' @ token" and "jwt_decode P (clk q 0) (strip token) = JwtClaims claims"
    and "is_revoked (dget claims ''jti'') (store.disk (gw_store (app g))) = Inr False"
    and "token_requires_proof cfg claims \<Longrightarrow> \<exists>seen. verify_proof P cfg claims ''GET'' (path_of req) (hdr_proof h) (hdr_proof_data h)
           (clk q 1) (gw_store (app g)) (gw_nonces (app g)) = (Inr (), seen)"
    and "evaluate cfg (gw_pdp (app g)) (clk q 2) (local_hour q) claims res = Inr (True, why)"
    and "verify_chain (float_repr P) (gw_audit (app g)) = Inr (Intact k)" and "log_writable (gw_audit (app g))"
  shows "\<exists>g' th v. dispatch P cfg sq (gateway_app P cfg (lab_network P cfg sq lossy q err docs finance) q err (raw_path req) h) req g = (Inr (), g') \<and>
    answers g' = answers g @ [send_json P th (200, v)] \<and> resource_body res v \<and>
    gw_forwarded (app g') = gw_forwarded (app g) @ [(res, mtls_enabled cfg)]"
  by (rule permitted_request [OF assms])

section \<open>Login, revocation, access\<close>

lemma record_issued_keeps_revocations:
  assumes "record_issued j u x dv now d = (Inr (), d')"
  shows "rev_load d' = rev_load d"
  using assms tok_load_save(3) by (auto simp: record_issued_def split: sum.splits)

text \<open>
  C7: Revocation across the services: a token that a login issued is refused by the Gateway once an administrator has run
  \<open>revoke_token --user\<close> for its owner while it was alive: the answer is 401 \<open>token_revoked\<close> and no resource is contacted,
  whatever the policy says and whatever proof comes with the request. The three processes share nothing but two files, and the
  libraries and settings of the Gateway (\<open>P'\<close>, \<open>cfg'\<close>) need not be those of the identity provider.
\<close>

theorem revoked_user_is_locked_out:
  assumes "handle_login P cfg D q (PyDict b) s = (Inr (200, PyDict data), s1)"
    and "dget_or b ''username'' (PyStr []) = PyStr u" and "map_of data ''claims'' = Some (PyDict claims)" and "random_jti q \<noteq> []"
    and "tok_wf ts (store.disk (reg_store (idp_registry s)))" and "rev_wf (store.disk (reg_store (idp_registry s)))"
    and "revoke_token_main \<lparr>cli_jti = None, cli_user = Some u, cli_reason = why\<rparr> now clks
           (store.disk (reg_store (idp_registry s1))) = (Inr n, store.disk (gw_store g))"
    and "now < of_int (trunc (clk q 3) + token_ttl cfg)"
    and "acc_authorization req = ''Bearer '' @ token" and "jwt_decode P' (clk q' 0) (strip token) = JwtClaims claims"
    and "handle_access P' cfg' upstream q' req g = (r, g')"
  shows "gw_forwarded g' = gw_forwarded g \<and> (\<forall>resp. r = Inr resp \<longrightarrow> resp = (401, error_body ''token_revoked''))"
proof -
  let ?j = "random_jti q" and ?x = "trunc (clk q 3) + token_ttl cfg" and ?d = "store.disk (reg_store (idp_registry s))"
  from login_records_token [OF assms(1)] obtain dev where jti: "map_of claims ''jti'' = Some (PyStr ?j)"
    and rec: "record_issued ?j u (PyInt ?x) dev (clk q 4) ?d = (Inr (), store.disk (reg_store (idp_registry s1)))"
    using assms(2,3) by (metis pyval.inject(4,6) option.inject)
  have wf: "rev_wf (store.disk (reg_store (idp_registry s1)))"
    using assms(6) record_issued_keeps_revocations [OF rec] by (simp add: rev_wf_def)
  from revoke_user_revokes [OF wf record_issued_wf [OF assms(5) rec] assms(7), of ?j ?x "clk q 4" dev] assms(4,8)
  have "is_revoked (PyStr ?j) (store.disk (gw_store g)) = Inr True" by (simp del: of_int_add)
  then have rev: "is_revoked (dget claims ''jti'') (store.disk (gw_store g)) = Inr True" using jti by (simp add: dget_def)
  have b: "startswith (acc_authorization req) ''Bearer ''" by (simp add: assms(9) startswith_iff)
  have v: "verify_token P' (clk q' 0) (strip (drop 7 (acc_authorization req))) = Inr claims"
    using assms(9,10) by (simp add: verify_token_def)
  have run: "obind (gw_log P' q' (access_event q' (acc_resource req) ''deny'' ''token_revoked'' (who q' claims)))
      (\<lambda>_. oret (401, error_body ''token_revoked'')) g = (r, g')"
    using assms(11) rev by (simp add: handle_access_authenticated [OF b v])
  have "keeps gw_forwarded (obind (gw_log P' q' ev) (\<lambda>_. oret x))" for ev x
    by (intro keeps_intros gw_log_keeps)
  from keepsD [OF this run] have "gw_forwarded g' = gw_forwarded g" .
  with run show ?thesis by (auto simp: obind_def oret_def split: prod.splits sum.splits)
qed

section \<open>Witnesses\<close>

definition idle_server :: "gateway server" where
  "idle_server = \<lparr>life = Some ((new_service ''gateway'' 0)\<lparr>ready := True\<rparr>), thread = None, answers = [], log_lines = [], app = idle_gateway\<rparr>"

definition finance_get :: http_request where
  "finance_get = \<lparr>verb = ''GET'', raw_path = ''/access/finance-app'', hdr_correlation = None, content_length = None, wire = []\<rparr>"

definition carol_headers :: access_headers where
  "carol_headers = \<lparr>hdr_authorization = ''Bearer token'', hdr_proof = [], hdr_proof_data = []\<rparr>"

lemma finance_get_simps: "verb finance_get = ''GET''" "path_of finance_get = ''/access/finance-app''"
  "parts (path_of finance_get) = [''access'', ''finance-app'']" "raw_path finance_get = ''/access/finance-app''"
proof -
  show "path_of finance_get = ''/access/finance-app''" by (simp add: finance_get_def)
  moreover have "parts ''/access/finance-app'' = [''access'', ''finance-app'']" by code_simp
  ultimately show "parts (path_of finance_get) = [''access'', ''finance-app'']" by simp
qed (simp_all add: finance_get_def)

lemma idle_server_simps: "\<not> is_draining idle_server" "app idle_server = idle_gateway"
  by (simp_all add: idle_server_def is_draining_def new_service_def)

theorem gateway_mediates_over_the_wire_witness:
  "\<exists>s'. dispatch (toy_prims carol_token) default_config quiet (gateway_app (toy_prims carol_token) default_config
       (\<lambda>host port mtls. Replied 200 (PyDict [])) calm [] ''/access/finance-app'' carol_headers) finance_get idle_server = (Inr (), s') \<and>
     gw_forwarded (app s') = [(''finance-app'', True)] \<and>
     (\<exists>why. evaluate default_config (gw_pdp idle_gateway) 1002 0 carol_token ''finance-app'' = Inr (True, why))"
proof -
  let ?P = "toy_prims carol_token" and ?up = "\<lambda>host port mtls. Replied 200 (PyDict [])"
  have req: "to_access (raw_path finance_get) carol_headers ''finance-app'' = finance_request"
    by (simp add: to_access_def finance_get_def carol_headers_def finance_request_def)
  obtain a where run: "handle_access ?P default_config ?up calm finance_request idle_gateway = (Inr (200, PyDict []), a)"
    and a: "gw_forwarded a = [(''finance-app'', True)]"
    by (rule carol_forwarded)
  from run have "handle_access ?P default_config ?up calm (to_access (raw_path finance_get) carol_headers ''finance-app'') (app idle_server) =
      (Inr (200, PyDict []), a)"
    by (simp add: req idle_server_simps)
  from gateway_dispatch [OF idle_server_simps(1) finance_get_simps(1,3) this, of quiet "[]"] obtain s' where
    d: "dispatch ?P default_config quiet (gateway_app ?P default_config ?up calm [] (raw_path finance_get) carol_headers) finance_get idle_server = (Inr (), s')"
    and s': "app s' = a" by blast
  have "gw_forwarded (app s') \<noteq> gw_forwarded (app idle_server)" by (simp add: s' a idle_server_simps idle_gateway_def)
  from gateway_mediates_over_the_wire [OF d this] obtain res token claims why where
    res: "parts (path_of finance_get) = [''access'', res]" and "hdr_authorization carol_headers = ''Bearer '' @ token"
    "jwt_decode ?P (clk calm 0) (strip token) = JwtClaims claims"
    "evaluate default_config (gw_pdp (app idle_server)) (clk calm 2) (local_hour calm) claims res = Inr (True, why)"
    by blast
  moreover have "res = ''finance-app''" using res finance_get_simps(3) by simp
  ultimately have "evaluate default_config (gw_pdp idle_gateway) 1002 0 carol_token ''finance-app'' = Inr (True, why)"
    by (auto simp: idle_server_simps toy_prims_def split: if_splits)
  with d s' a show ?thesis by (auto simp: finance_get_simps(4))
qed

lemma record_issued_healthy:
  assumes "healthy d" and "record_issued j u x dv now d = (Inr (), d')"
  shows "healthy d'"
proof -
  obtain rs where "tok_save rs d = (Inr (), d')"
    using assms(2) by (auto simp: record_issued_def split: sum.splits)
  with atomic_write_healthy [OF assms(1), of ISSUED_TOKENS_PATH "PyList rs"] show ?thesis by (auto simp: tok_save_def)
qed

theorem revoked_user_is_locked_out_witness:
  "\<exists>otp data s1 n d claims r g'. handle_login (toy_prims []) default_config no_directory calm (PyDict (alice_body otp)) fresh_idp = (Inr (200, PyDict data), s1) \<and>
     revoke_token_main \<lparr>cli_jti = None, cli_user = Some ''alice'', cli_reason = ''left''\<rparr> 1010 (\<lambda>_. (1010, 1010))
       (store.disk (reg_store (idp_registry s1))) = (Inr n, d) \<and>
     handle_access (toy_prims claims) default_config (\<lambda>host port mtls. Replied 200 (PyDict [])) calm finance_request
       (idle_gateway\<lparr>gw_store := \<lparr>backend = MemoryBackend [], store.disk = d\<rparr>\<rparr>) = (r, g') \<and> gw_forwarded g' = []"
proof -
  obtain otp payload s1 where run: "handle_login (toy_prims []) default_config no_directory calm (PyDict (alice_body otp)) fresh_idp = (Inr (200, payload), s1)"
    by (rule alice_login)
  have user: "dget_or (alice_body otp) ''username'' (PyStr []) = PyStr ''alice''" by (simp add: alice_body_def dict_simps)
  let ?d = "store.disk (reg_store (idp_registry fresh_idp))"
  have disk: "?d = empty_disk" by (simp add: fresh_idp_def empty_registry_def)
  have old: "tok_wf [] ?d" "rev_wf ?d" "healthy ?d"
    unfolding disk by (simp_all add: tok_wf_def tok_load_def rev_wf_def rev_load_def empty_disk_def healthy_def)
  from login_records_token [OF run] obtain data claims dev where data: "payload = PyDict data" "map_of data ''claims'' = Some (PyDict claims)"
    and rec: "record_issued ''j1'' ''alice'' (PyInt (trunc (clk calm 3) + token_ttl default_config)) dev (clk calm 4) ?d =
      (Inr (), store.disk (reg_store (idp_registry s1)))"
    using user by (metis calm_simps(2) pyval.inject(4))
  have expiry: "trunc (clk calm 3) + token_ttl default_config = 1048" by (simp add: trunc_def default_config_def)
  let ?d1 = "store.disk (reg_store (idp_registry s1))"
  have index: "tok_wf [(''j1'', ''alice'', 1048, 1004, dev)] ?d1"
    using record_issued_wf [OF old(1) rec [unfolded expiry]] by simp
  have live: "active_jtis_for_user (PyStr ''alice'') 1010 ?d1 = Inr [PyStr ''j1'']" using active_jtis_user_wf [OF index] by simp
  have "rev_load ?d1 = PyDict []"
    using record_issued_keeps_revocations [OF rec] by (simp add: disk rev_load_def empty_disk_def)
  with record_issued_healthy [OF old(3) rec] obtain d where "revoke ''j1'' PyNone ''left'' 1010 1010 ?d1 = (Inr (), d)"
    using atomic_write_healthy by (fastforce simp: revoke_def rev_save_def)
  then have cut: "revoke_token_main \<lparr>cli_jti = None, cli_user = Some ''alice'', cli_reason = ''left''\<rparr> 1010 (\<lambda>_. (1010, 1010)) ?d1 = (Inr 1, d)"
    by (simp add: revoke_token_main_def live)
  let ?g = "idle_gateway\<lparr>gw_store := \<lparr>backend = MemoryBackend [], store.disk = d\<rparr>\<rparr>"
  obtain r g' where acc: "handle_access (toy_prims claims) default_config (\<lambda>host port mtls. Replied 200 (PyDict [])) calm finance_request ?g = (r, g')"
    by fastforce
  have "revoke_token_main \<lparr>cli_jti = None, cli_user = Some ''alice'', cli_reason = ''left''\<rparr> 1010 (\<lambda>_. (1010, 1010)) ?d1 =
      (Inr 1, store.disk (gw_store ?g))" using cut by simp
  moreover have "1010 < real_of_int (trunc (clk calm 3) + token_ttl default_config)" by (simp only: expiry)
  moreover have "acc_authorization finance_request = ''Bearer '' @ ''token''" by (simp add: finance_request_def)
  moreover have "jwt_decode (toy_prims claims) (clk calm 0) (strip ''token'') = JwtClaims claims"
    by (simp add: toy_prims_def strip_def rstrip_by_def lstrip_by_def is_space_def)
  ultimately have "gw_forwarded g' = gw_forwarded ?g"
    using revoked_user_is_locked_out [OF run [unfolded data(1)] user data(2) _ old(1,2) _ _ _ _ acc] by simp
  then have "gw_forwarded g' = []" by (simp add: idle_gateway_def)
  with run data(1) cut acc show ?thesis by blast
qed

definition ready_resource :: "string \<Rightarrow> store server" where
  "ready_resource name = \<lparr>life = Some ((new_service name 0)\<lparr>ready := True\<rparr>), thread = None, answers = [], log_lines = [],
     app = \<lparr>backend = MemoryBackend [], store.disk = empty_disk\<rparr>\<rparr>"

theorem permitted_request_is_served_witness:
  "\<exists>g' v. dispatch (toy_prims carol_token) default_config quiet (gateway_app (toy_prims carol_token) default_config
       (lab_network (toy_prims carol_token) default_config quiet id calm [] (ready_resource ''docs-app'') (ready_resource ''finance-app''))
       calm [] ''/access/finance-app'' carol_headers) finance_get idle_server = (Inr (), g') \<and>
     resource_body ''finance-app'' v \<and> gw_forwarded (app g') = [(''finance-app'', True)]"
proof -
  obtain why where ev: "evaluate default_config (gw_pdp idle_gateway) (clk calm 2) (local_hour calm) carol_token ''finance-app'' = Inr (True, why)"
    using carol_allowed by auto
  have up: "\<not> is_draining (ready_resource name)" for name by (simp add: ready_resource_def is_draining_def new_service_def)
  have addr: "docs_host default_config \<noteq> finance_host default_config \<or> docs_port default_config \<noteq> finance_port default_config"
    by (simp add: default_config_def)
  have h: "hdr_authorization carol_headers = ''Bearer '' @ ''token''" by (simp add: carol_headers_def)
  have n: "gw_forwarded idle_gateway = []" "mtls_enabled default_config" by (simp_all add: idle_gateway_def default_config_def)
  from permitted_request_is_served [where lossy = id and err = "[]" and sq = quiet, OF idle_server_simps(1) up up addr finance_get_simps(1,3) _ h carol_decoded,
      unfolded idle_server_simps(2) finance_get_simps(4), OF _ carol_not_revoked _ ev idle_gateway_log, of "''docs-app''" "''finance-app''"]
  show ?thesis using carol_unbound n by auto
qed

end
