(* ===== verification/AgentSession.thy ===== *)
theory AgentSession
  imports ClientAgent EndToEnd
begin

text \<open>
  The agent against the services: a network on which the identity provider and the Gateway answer HTTP, the Gateway reaching the two
  resources over HTTP in turn. A session of the agent, from the posture check to the document, runs through all of the code.
\<close>

section \<open>The network\<close>

record lab =
  idp_srv :: "idp server"
  gw_srv :: "gateway server"

text \<open>What \<open>requests\<close> sends: the body as JSON behind its length.\<close>

definition to_request :: "prims \<Rightarrow> string \<Rightarrow> string \<Rightarrow> pyval option \<Rightarrow> http_request" where
  "to_request P m path content =
     (let b = (case content of None \<Rightarrow> [] | Some v \<Rightarrow> json_dumps (float_repr P) False v) in
      \<lparr>verb = m, raw_path = path, hdr_correlation = None,
       content_length = (case content of None \<Rightarrow> None | Some v \<Rightarrow> Some (dec_int (int (length b)))), wire = b\<rparr>)"

definition to_headers :: "(string \<times> string) list \<Rightarrow> access_headers" where
  "to_headers hs =
     (let h = (\<lambda>name. case map_of hs name of None \<Rightarrow> [] | Some v \<Rightarrow> v) in
      \<lparr>hdr_authorization = h ''Authorization'', hdr_proof = h ''X-Device-Proof'', hdr_proof_data = h ''X-Device-Proof-Data''\<rparr>)"

text \<open>What came back: the last answer, if there is a new one.\<close>

definition last_reply :: "'a server \<Rightarrow> 'a server \<Rightarrow> reply res" where
  "last_reply s s' =
     (if length (answers s) < length (answers s')
      then Inr \<lparr>reply_code = status (last (answers s')), reply_body = payload (last (answers s'))\<rparr>
      else Inl OSError)"

definition lab_http ::
  "prims \<Rightarrow> config \<Rightarrow> directory \<Rightarrow> network \<Rightarrow> surroundings \<Rightarrow> request_env \<Rightarrow> request_env \<Rightarrow> string \<Rightarrow>
   (pyval \<Rightarrow> pyval \<Rightarrow> bool \<Rightarrow> backend_reply) \<Rightarrow> lab http" where
  "lab_http P cfg D w sq q1 q2 err upstream m url hs content s =
     (if startswith url (IDP_URL w) then
        (case dispatch P cfg sq (idp_app P cfg D q1 err) (to_request P m (drop (length (IDP_URL w)) url) content) (idp_srv s) of
           (_, i) \<Rightarrow> (last_reply (idp_srv s) i, s\<lparr>idp_srv := i\<rparr>))
      else if startswith url (GATEWAY_URL w) then
        (let path = drop (length (GATEWAY_URL w)) url in
         case dispatch P cfg sq (gateway_app P cfg upstream q2 err path (to_headers hs)) (to_request P m path content) (gw_srv s) of
           (_, g) \<Rightarrow> (last_reply (gw_srv s) g, s\<lparr>gw_srv := g\<rparr>))
      else (Inl OSError, s))"

section \<open>One exchange\<close>

lemma reply_of_answer:
  assumes "answers s' = answers s @ [send_json P th (code, v)]" and "plain_json v"
  obtains r where "last_reply s s' = Inr r" "reply_code r = code" "reply_json r = Inr v"
  using that utf8_decode_ascii [OF ascii_json_dumps [OF assms(2)]] json_loads_dumps [OF assms(2)]
  by (simp add: last_reply_def assms(1) send_json_def Let_def reply_json_def)

lemma idp_post:
  assumes "\<not> is_draining i" and "plain_json v" and "map_of [(''/login'', ''handle_login''), (''/enroll'', ''handle_enroll''), (''/challenge'', ''handle_challenge'')] path = Some name"
    and "handlers (idp_app P cfg D q err) name [] v (app i) = (Inr (code, out), a)" and "plain_json out"
  shows "\<exists>i' r. dispatch P cfg sq (idp_app P cfg D q err) (to_request P ''POST'' path (Some v)) i = (Inr (), i') \<and> app i' = a \<and>
    last_reply i i' = Inr r \<and> reply_code r = code \<and> reply_json r = Inr out"
proof -
  let ?req = "to_request P ''POST'' path (Some v)"
  have req: "verb ?req = ''POST''" "raw_path ?req = path"
    "read_json_body (content_length ?req) (wire ?req) = Inr v"
    using body_read_back [OF assms(2), of "float_repr P" "[]"] by (simp_all add: to_request_def Let_def)
  have m: "match_route IDP_ROUTES ''POST'' ''/login'' = Some (''handle_login'', [])"
    "match_route IDP_ROUTES ''POST'' ''/enroll'' = Some (''handle_enroll'', [])"
    "match_route IDP_ROUTES ''POST'' ''/challenge'' = Some (''handle_challenge'', [])" by code_simp+
  have p: "path \<in> {''/login'', ''/enroll'', ''/challenge''}" using assms(3) by (auto split: if_splits)
  then have path: "path_of ?req = path" by (auto simp: req)
  have route: "match_route (routes (idp_app P cfg D q err)) (verb ?req) (path_of ?req) = Some (name, [])"
    unfolding path req(1) using assms(3) m by (auto simp: idp_app_def split: if_splits)
  have "\<exists>i' th. dispatch P cfg sq (idp_app P cfg D q err) ?req i = (Inr (), i') \<and> app i' = a \<and>
      answers i' = answers i @ [send_json P th (code, out)]"
    by (rule dispatch_handler [OF _ _ assms(1) route _ assms(4)]) (simp_all add: own_endpoint_def req)
  then show ?thesis using reply_of_answer [OF _ assms(5)] by metis
qed

section \<open>A session\<close>

lemma authenticate_run:
  assumes "\<not> arg_attest args" and "one_time_code P q args = Inr otp" and "get_local_device_id A (id_suffix q) (device s) = (d, m)"
    and "http ''POST'' (IDP_URL w @ ''/login'') [] (Some (PyDict (login_body args otp (fst (compute_trust_score ep (arg_simulate args))) d None))) (net s) = (Inr r, n)"
    and "read_login r = Inr v"
  shows "authenticate P A http w ep q args s = (Inr v, s\<lparr>device := m, net := n\<rparr>)"
  using assms by (simp add: authenticate_def on_device_def on_net_def on_part_def osafe_def obind_def oret_def olift_def Let_def)

lemma request_resource_run:
  assumes "decode_claims_unverified token = PyDict claims" and "\<not> py_truth (dget claims ''cnf'')"
    and "http ''GET'' (GATEWAY_URL w @ ''/access/'' @ res) [(''Authorization'', ''Bearer '' @ py_str P token)] None (net s) = (Inr r, n)"
    and "reply_json r = Inr v"
  shows "request_resource P A http w q res token s = (Inr (reply_code r, v), s\<lparr>net := n\<rparr>)"
  using assms
  by (simp add: request_resource_def as_dict_def on_device_def on_net_def on_part_def osafe_def device_proof_def obind_def oret_def olift_def Let_def)

lemma access_parts: "res \<in> {''docs-app'', ''finance-app''} \<Longrightarrow> parts (''/access/'' @ res) = [''access'', res] \<and> hd (split_on (CHR ''?'') (''/access/'' @ res)) = ''/access/'' @ res"
proof -
  have "parts ''/access/docs-app'' = [''access'', ''docs-app'']" "parts ''/access/finance-app'' = [''access'', ''finance-app'']" by code_simp+
  then show "res \<in> {''docs-app'', ''finance-app''} \<Longrightarrow> ?thesis" by auto
qed

section \<open>Properties\<close>


text \<open>
  C35: Continuous verification: once the agent reports a compromised device (\<open>--simulate-compromised\<close>, or the cycle of \<open>--compromise-after\<close> has come),
  a login may still succeed, but its token opens nothing: for every resource whose policy asks for a trust score above 20
  the Gateway contacts no resource, whatever the role, the factors and the attestation were.
\<close>

theorem compromised_device_is_cut_off:
  assumes "compromised_at after simulate cycle"
    and "body = login_body args otp (fst (compute_trust_score ep (compromised_at after simulate cycle))) d sig"
    and "handle_login P cfg D q (PyDict body) s = (Inr (200, PyDict data), s1)" and "map_of data ''claims'' = Some (PyDict claims)"
    and "acc_authorization req = ''Bearer '' @ token" and "jwt_decode P' (clk q' 0) (strip token) = JwtClaims claims"
    and "map_of (policy_cache (gw_pdp g)) (acc_resource req) = Some pol" and "map_of pol ''min_device_trust'' = Some (PyInt m)" and "20 < m"
    and "handle_access P' cfg' upstream q' req g = (r, g')"
  shows "gw_forwarded g' = gw_forwarded g"
proof (rule ccontr)
  assume "gw_forwarded g' \<noteq> gw_forwarded g"
  from forwarded_only_after_checks [OF assms(10) this] obtain token' claims' why where
    "acc_authorization req = ''Bearer '' @ token'" "jwt_decode P' (clk q' 0) (strip token') = JwtClaims claims'"
    and allow: "evaluate cfg' (gw_pdp g) (clk q' 2) (local_hour q') claims' (acc_resource req) = Inr (True, why)"
    by blast
  then have same: "claims' = claims" using assms(5,6) by simp
  from login_payload [OF assms(3)] obtain u user role n attested cnf c where n: "int_of (dget body ''device_trust_score'') = Inr n"
    and c: "token_claims cfg u role (login_device u body user) n attested cnf PyNone (login_methods attested) (clk q 3) (random_jti q) = Inr c"
    and data: "PyDict data = PyDict [(''access_token'', PyStr (jwt_encode P c)), (''token_type'', PyStr ''Bearer''),
       (''expires_in'', PyInt (token_ttl cfg)), (''claims'', PyDict c)]"
    by metis
  have "c = claims" using assms(4) data by simp
  moreover have "n = 20" using n assms(1) by (simp add: assms(2) login_body_def dict_simps compute_trust_score_def)
  ultimately have trust: "dget_or claims ''device_trust_score'' (PyInt 0) = PyInt 20"
    using c by (auto simp: token_claims_def Let_def ebind_eq_Inr dget_or_def)
  from allow_implies_checked [OF allow] show False
    using assms(7-9) trust by (auto simp: same)
qed

lemma store_set_error: "store_set st ns k v = (Inl x, st') \<Longrightarrow> x = OSError"
  by (cases "backend st") (auto simp: store_set.simps mem_set_def file_set_def split: prod.splits dest: file_save_cases)

text \<open>
  Enrolment asks for no credentials, and that is enough to take a device out of service: whoever sends \<open>/enroll\<close> for the id of an approved
  device with any key of his own leaves it pending; its attested logins and its bound tokens fail until an administrator approves it again.
\<close>

theorem stranger_suspends_a_device:
  assumes "require_device_approval cfg" and "approved_key (reg_store (idp_registry s)) k tp"
    and "key_thumbprint P (PyStr pem) = Inr tp'" and "tp' \<noteq> tp" and "k \<noteq> []" and "pem \<noteq> []"
    and "handle_enroll P cfg q (PyDict [(''device_id'', PyStr k), (''public_key_pem'', PyStr pem)]) s = (Inr (code, v), s')"
  shows "code = 202 \<and> (\<forall>tp''. \<not> approved_key (reg_store (idp_registry s')) k tp'')"
proof -
  obtain x st where reg: "register_device P cfg (PyStr k) (PyStr pem) (clk q 0) (reg_store (idp_registry s)) = (x, st)" by fastforce
  obtain old where old: "device_of (reg_store (idp_registry s)) k = Some old" "dget old ''thumbprint'' = PyStr tp"
    using assms(2) by (auto simp: approved_key_def)
  have rec: "store_get (reg_store (idp_registry s)) NAMESPACE k PyNone = PyDict old" "old \<noteq> []"
    using old(1) by (auto simp: device_of_def split: pyval.splits if_splits)
  have known: "x \<noteq> Inl ValueError"
    using reg assms(3) rec by (auto simp: register_device_def as_dict_def split: prod.splits sum.splits dest!: store_set_error)
  let ?s1 = "s\<lparr>idp_registry := (idp_registry s)\<lparr>reg_store := st\<rparr>\<rparr>"
  have run: "with_store (register_device P cfg (PyStr k) (PyStr pem) (clk q 0)) s = (x, ?s1)"
    using reg by (simp add: with_store_def on_part_def)
  obtain e where x: "x = Inr e"
    using assms(5-7) run known by (cases x) (auto simp: handle_enroll_def as_dict_def dict_simps Let_def split: exn.splits)
  from register_device_spec [OF reg] x old assms(3,4) obtain prev where
    e: "e = new_record cfg (PyStr k) (PyStr pem) tp' prev (clk q 0)" and st: "device_of st k = Some e" by auto
  have status: "map_of e ''status'' = Some STATUS_PENDING" "map_of e ''thumbprint'' = Some (PyStr tp')"
    using assms(1) by (simp_all add: e new_record_def Let_def)
  have log: "keeps (reg_store \<circ> idp_registry) (idp_log P q n ev)" for n ev
    by (simp add: idp_log_def with_audit_def keeps_on_part)
  let ?ev = "[(''event'', PyStr ''device_enrollment''), (''device_id'', PyStr k), (''source_ip'', PyStr (peer q)),
            (''decision'', PyStr ''pending''), (''reason'', PyStr (''enrolled_'' @ py_str P STATUS_PENDING)), (''thumbprint'', PyStr (take 16 tp'))]"
  have "\<not> py_eq STATUS_PENDING STATUS_APPROVED" by simp
  then have "code = 202 \<and> (\<exists>r. idp_log P q 1 ?ev ?s1 = (r, s'))"
    using assms(5-7) run status
    by (auto simp: handle_enroll_def as_dict_def dict_simps x dreq_def as_str_def obind_eq_Inr oret_eq Let_def)
  moreover from this keepsD [OF log] have "reg_store (idp_registry s') = st" by fastforce
  ultimately show ?thesis using st status by (auto simp: approved_key_def dget_def)
qed

section \<open>Witnesses\<close>

text \<open>Alice at a Linux laptop, with tokens in the form of a compact JWS.\<close>

definition jws_prims :: prims where
  "jws_prims = (toy_prims [])\<lparr>
     jwt_encode := (\<lambda>c. ''h'' @ ''.'' @ jws_segment (json_dumps (\<lambda>_. []) False (PyDict c)) @ ''.'' @ ''s''),
     jwt_decode := (\<lambda>t token. case decode_claims_unverified (PyStr token) of PyDict c \<Rightarrow> JwtClaims c | _ \<Rightarrow> JwtMalformed)\<rparr>"

definition alice_args :: agent_args where
  "alice_args = \<lparr>arg_user = ''alice'', arg_password = ''Intern#2026'', arg_resource = ''docs-app'', arg_demo = True, arg_simulate = False, arg_attest = False\<rparr>"

definition alice_env :: agent_env where
  "alice_env = \<lparr>id_suffix = ''0a1b2c3d'', typed_otp = [], otp_clock = 1001, proof_clock = 1002, proof_nonce = []\<rparr>"

definition loopback :: network where
  "loopback = \<lparr>idp_addr = (''127.0.0.1'', 9000, ''127.0.0.1''), gateway_addr = (''127.0.0.1'', 9200, ''127.0.0.1''),
     docs_addr = (''127.0.0.1'', 9101, ''127.0.0.1''), finance_addr = (''127.0.0.1'', 9102, ''127.0.0.1''), extra_sans = []\<rparr>"

definition lab_state :: "(unit, lab) agent" where
  "lab_state = \<lparr>device = \<lparr>home = \<lparr>kfiles = Map.empty, generated = 0\<rparr>, world = ()\<rparr>,
     net = \<lparr>idp_srv = \<lparr>life = Some ((new_service ''idp'' 0)\<lparr>ready := True\<rparr>), thread = None, answers = [], log_lines = [], app = fresh_idp\<rparr>,
       gw_srv = idle_server\<rparr>\<rparr>"

lemma jws_token:
  assumes "plain_json (PyDict c)"
  shows "decode_claims_unverified (PyStr (jwt_encode jws_prims c)) = PyDict c" "jwt_decode jws_prims t (strip (jwt_encode jws_prims c)) = JwtClaims c"
proof -
  let ?token = "''h'' @ ''.'' @ jws_segment (json_dumps (\<lambda>_. []) False (PyDict c)) @ ''.'' @ ''s''"
  have d: "decode_claims_unverified (PyStr ?token) = PyDict c"
    by (rule segment_decodes) (simp_all only: utf8_decode_ascii [OF ascii_json_dumps [OF assms]] json_loads_dumps [OF assms] bind.simps, simp)
  have e: "jwt_encode jws_prims c = ?token" by (simp add: jws_prims_def)
  have "strip ?token = ?token" by (rule strip_id) (simp_all add: is_space_def)
  with d e show "decode_claims_unverified (PyStr (jwt_encode jws_prims c)) = PyDict c" "jwt_decode jws_prims t (strip (jwt_encode jws_prims c)) = JwtClaims c"
    by (simp_all only: e d) (simp add: jws_prims_def d [simplified])
qed

lemma ascii_jws_segment: "ascii (jws_segment s)"
  using ascii_b64encode [of s] by (auto simp: ascii_def jws_segment_def to_urlsafe_def)

lemma alice_may_read:
  "\<exists>why. evaluate default_config (gw_pdp idle_gateway) t 0 (alice_claims d 70) ''docs-app'' = Inr (True, why)"
proof -
  let ?S = "\<lparr>sub_role = ''intern'', sub_trust = 70, sub_attested = False, sub_auth_time = Some 1003, sub_methods = [''pwd'', ''otp'']\<rparr>"
  obtain pol where pol: "map_of (policy_cache (gw_pdp idle_gateway)) ''docs-app'' = Some pol" "policy_as docs_policy pol"
    using shipped_docs by (auto simp: idle_gateway_def)
  have S: "subject_as ?S (alice_claims d 70)" by (simp add: subject_as_def alice_claims_def dict_simps opt_int_def)
  have "permitted default_config (0, 24) t 0 docs_policy ?S"
    by (simp add: permitted_def docs_policy_def level_of_def ROLE_LEVELS_def)
  then show ?thesis
    using evaluate_exact [OF pol S, of 0 24 default_config t 0] by (auto simp: idle_gateway_def)
qed


theorem compromised_device_is_cut_off_witness:
  "\<exists>otp s1 r g'. handle_login jws_prims default_config no_directory calm
      (PyDict (login_body alice_args otp (fst (compute_trust_score open_linux (compromised_at 3 False 3))) ''lab-0a1b2c3d'' None)) fresh_idp =
        (Inr (200, PyDict (alice_data jws_prims ''lab-0a1b2c3d'' 20)), s1) \<and>
     handle_access (toy_prims (alice_claims ''lab-0a1b2c3d'' 20)) default_config (\<lambda>host port mtls. Replied 200 (PyDict [])) calm finance_request idle_gateway = (r, g') \<and>
     gw_forwarded g' = []"
proof -
  let ?d = "''lab-0a1b2c3d''" and ?c = "alice_claims ''lab-0a1b2c3d'' 20"
  obtain k where k: "totp_key ''JBSWY3DPEHPK3PXPJBSWY3DP'' = Inr k" using alice_key by blast
  from totp_within_a_step [OF k, of 1001 1001] obtain otp where otp: "verify_totp ''JBSWY3DPEHPK3PXPJBSWY3DP'' otp 30 6 1 1001 = Inr True" by auto
  let ?b = "login_body alice_args otp (fst (compute_trust_score open_linux (compromised_at 3 False 3))) ?d None"
  have now: "compromised_at 3 False 3" by (simp add: compromised_at_def)
  have b: "?b = [(''username'', PyStr ''alice''), (''password'', PyStr ''Intern#2026''), (''otp'', PyStr otp),
      (''device_trust_score'', PyInt 20), (''device_id'', PyStr ?d), (''attestation_signature'', PyNone)]"
    using now by (simp add: login_body_def alice_args_def compute_trust_score_def)
  have hash: "checkpw jws_prims pw (hashpw jws_prims salt pw)" for pw salt by (simp add: jws_prims_def toy_prims_def)
  obtain s1 where login: "handle_login jws_prims default_config no_directory calm (PyDict ?b) fresh_idp = (Inr (200, PyDict (alice_data jws_prims ?d 20)), s1)"
    using alice_logs_in [OF hash _ _ _ _ _ otp, of ?b 20 ?d] by (auto simp: b dict_simps py_or_def)
  obtain r g' where acc: "handle_access (toy_prims ?c) default_config (\<lambda>host port mtls. Replied 200 (PyDict [])) calm finance_request idle_gateway = (r, g')"
    by fastforce
  have claims: "map_of (alice_data jws_prims ?d 20) ''claims'' = Some (PyDict ?c)" by (simp add: alice_data_def)
  have bearer: "acc_authorization finance_request = ''Bearer '' @ ''token''" by (simp add: finance_request_def)
  have jwt: "jwt_decode (toy_prims ?c) (clk calm 0) (strip ''token'') = JwtClaims ?c"
    by (simp add: toy_prims_def strip_def rstrip_by_def lstrip_by_def is_space_def)
  obtain pol where "map_of (policy_cache (gw_pdp idle_gateway)) (acc_resource finance_request) = Some pol"
    "map_of pol ''min_device_trust'' = Some (PyInt 80)"
    using shipped_finance by (auto simp: idle_gateway_def finance_request_def policy_as_def finance_policy_def)
  from compromised_device_is_cut_off [OF now refl login claims bearer jwt this _ acc] have "gw_forwarded g' = gw_forwarded idle_gateway" by simp
  with login acc show ?thesis by (auto simp: idle_gateway_def)
qed

definition approved_laptop :: dict where
  "approved_laptop = [(''thumbprint'', PyStr ''0ld''), (''status'', STATUS_APPROVED)]"

definition enrolled_idp :: idp where
  "enrolled_idp = \<lparr>idp_audit = no_log, idp_limiter = [], idp_registry = \<lparr>reg_store =
     \<lparr>backend = MemoryBackend [(NAMESPACE, [(''d1'', PyDict approved_laptop)])], disk = empty_disk\<rparr>, challenges = []\<rparr>\<rparr>"

lemma idp_log_on_empty:
  assumes "idp_audit s = no_log" and "map_of given ''hash'' = None" and "odict_ok given"
  shows "\<exists>s'. idp_log P q n given s = (Inr (), s')"
proof -
  obtain r a where l: "log_event (float_repr P) (clk q n) (local_time q) given no_log = (r, a)" by fastforce
  with log_event_keeps [OF no_log_intact assms(2,3) no_log_writable] have "r = Inr ()" by blast
  with l show ?thesis using assms(1) by (auto simp: idp_log_Inr)
qed

theorem stranger_suspends_a_device_witness:
  "\<exists>v s'. handle_enroll (toy_prims []) default_config calm (PyDict [(''device_id'', PyStr ''d1''), (''public_key_pem'', PyStr ''mallory'')]) enrolled_idp = (Inr (202, v), s') \<and>
     \<not> approved_key (reg_store (idp_registry s')) ''d1'' ''0ld''"
proof -
  let ?P = "toy_prims []" and ?st = "reg_store (idp_registry enrolled_idp)"
  have dev: "device_of ?st ''d1'' = Some approved_laptop"
    by (simp add: device_of_def enrolled_idp_def approved_laptop_def run_memory dict_simps)
  then have approved: "approved_key ?st ''d1'' ''0ld''" by (simp add: approved_key_def approved_laptop_def dict_simps)
  have tp: "key_thumbprint ?P (PyStr ''mallory'') = Inr (sha256_hex ''mallory'')"
    by (simp add: key_thumbprint_def as_str_def toy_prims_def)
  have neq: "sha256_hex ''mallory'' \<noteq> ''0ld''"
  proof
    assume "sha256_hex ''mallory'' = ''0ld''"
    from length_sha256_hex [of "''mallory''", unfolded this] show False by simp
  qed
  have req: "require_device_approval default_config" by (simp add: default_config_def)
  let ?new = "new_record default_config (PyStr ''d1'') (PyStr ''mallory'') (sha256_hex ''mallory'') (PyStr ''0ld'') (clk calm 0)"
  obtain st where reg: "register_device ?P default_config (PyStr ''d1'') (PyStr ''mallory'') (clk calm 0) ?st = (Inr ?new, st)"
    using neq by (simp add: register_device_def tp enrolled_idp_def approved_laptop_def run_memory as_dict_def dict_simps)
  let ?s1 = "enrolled_idp\<lparr>idp_registry := (idp_registry enrolled_idp)\<lparr>reg_store := st\<rparr>\<rparr>"
  have run: "with_store (register_device ?P default_config (PyStr ''d1'') (PyStr ''mallory'') (clk calm 0)) enrolled_idp = (Inr ?new, ?s1)"
    using reg by (simp add: with_store_def on_part_def)
  have new: "map_of ?new ''status'' = Some STATUS_PENDING" "map_of ?new ''thumbprint'' = Some (PyStr (sha256_hex ''mallory''))"
    using req by (simp_all add: new_record_def Let_def)
  let ?ev = "[(''event'', PyStr ''device_enrollment''), (''device_id'', PyStr ''d1''), (''source_ip'', PyStr (peer calm)),
            (''decision'', PyStr ''pending''), (''reason'', PyStr (''enrolled_'' @ py_str ?P STATUS_PENDING)),
            (''thumbprint'', PyStr (take 16 (sha256_hex ''mallory'')))]"
  have "idp_audit ?s1 = no_log" by (simp add: enrolled_idp_def)
  then obtain s' where log: "idp_log ?P calm 1 ?ev ?s1 = (Inr (), s')"
    using idp_log_on_empty [of ?s1 ?ev ?P calm 1] by auto
  obtain code v t' where all: "handle_enroll ?P default_config calm (PyDict [(''device_id'', PyStr ''d1''), (''public_key_pem'', PyStr ''mallory'')]) enrolled_idp =
      (Inr (code, v), t')"
    using run new log by (simp add: handle_enroll_def as_dict_def dict_simps dreq_def as_str_def obind_def oret_def Let_def)
  from stranger_suspends_a_device [OF req approved tp neq _ _ all] all show ?thesis by auto
qed

end
