(* ===== verification/ServiceLife.thy ===== *)
theory ServiceLife
  imports HttpUtils
begin

text \<open>
  \<open>common/http_utils.py\<close>, the life of a service: \<open>serve\<close> up to the listening socket, the drain loop of
  \<open>_drain_and_stop\<close> as a function of what it observes, and the whole process (main thread, worker
  threads, clock) as a step relation. The signal handler runs in the main thread, which is the thread
  that accepts connections: while it drains, nothing is accepted.
\<close>

section \<open>Starting\<close>

datatype start_error = PreflightFailed string | CannotBind string

text \<open>
  The outcomes of the preflight checks and of binding the port are arguments. The events are what goes
  to the log; the service is ready when the accept loop is about to start.
\<close>

definition serve_start ::
  "bool \<Rightarrow> string + unit \<Rightarrow> string + unit \<Rightarrow> string \<Rightarrow> bool \<Rightarrow> time \<Rightarrow> (start_error + service) \<times> string list" where
  "serve_start preflight checks bind name use_tls now =
     (case (if preflight then checks else Inr ()) of
        Inl e \<Rightarrow> (Inl (PreflightFailed e), [])
      | Inr _ \<Rightarrow>
          (case bind of
             Inl e \<Rightarrow> (Inl (CannotBind e), [''bind_failed''])
           | Inr _ \<Rightarrow> (Inr ((new_service name now)\<lparr>ready := True\<rparr>), [''service_started''])))"

section \<open>The drain loop\<close>

text \<open>
  \<open>seen n\<close> is what the loop sees when it tests its condition for the \<open>n\<close>-th time: the requests in flight
  and the clock. \<open>None\<close> would be a loop that never ends.
\<close>

partial_function (option) drain_loop :: "(nat \<Rightarrow> int \<times> time) \<Rightarrow> time \<Rightarrow> nat \<Rightarrow> nat option" where
  "drain_loop seen deadline n =
     (if 0 < fst (seen n) \<and> snd (seen n) < deadline then drain_loop seen deadline (Suc n) else Some n)"

text \<open>\<open>_drain_and_stop\<close>: the record afterwards, the event it logs, and whether the listener is shut down.\<close>

definition drain_and_stop ::
  "config \<Rightarrow> (nat \<Rightarrow> int \<times> time) \<Rightarrow> time \<Rightarrow> service \<Rightarrow> (service \<times> string list \<times> bool) option" where
  "drain_and_stop cfg seen now s =
     (if draining s then Some (s, [], False)
      else map_option (\<lambda>n.
        (s\<lparr>draining := True, ready := False, inflight := fst (seen n), live := False\<rparr>,
         [''shutdown_started'', if 0 < fst (seen n) then ''shutdown_forced'' else ''shutdown_drained''], True))
        (drain_loop seen (now + of_int (shutdown_grace cfg)) 0))"

lemma drain_loop_stops:
  assumes "\<not> (0 < fst (seen (k + n)) \<and> snd (seen (k + n)) < deadline)"
    and "\<forall>m < n. 0 < fst (seen (k + m)) \<and> snd (seen (k + m)) < deadline"
  shows "drain_loop seen deadline k = Some (k + n)"
  using assms
proof (induction n arbitrary: k)
  case 0
  then show ?case by (subst drain_loop.simps) auto
next
  case (Suc n)
  have "0 < fst (seen k) \<and> snd (seen k) < deadline" using Suc.prems(2) by force
  moreover have "drain_loop seen deadline (Suc k) = Some (Suc k + n)"
    using Suc.prems by (intro Suc.IH) (auto dest: spec [of _ "Suc _"])
  ultimately show ?case by (subst drain_loop.simps) simp
qed

section \<open>The process\<close>

datatype main_thread = Serving | Draining time | Leaving | Closed | Exited

text \<open>
  A worker thread; the flag says whether its request is for an operational endpoint that the library
  answers itself. \<open>Refused\<close> has sent the 503 and \<open>Replied\<close> another answer; both are still counted.
\<close>

datatype worker = Accepted bool | Entered bool | Handling | Refused | Replied | Finished

record process =
  srv :: service
  main :: main_thread
  workers :: "worker list"
  now :: time

fun inside :: "worker \<Rightarrow> bool" where
  "inside (Accepted own) = False"
| "inside Finished = False"
| "inside w = True"

definition count_inside :: "worker list \<Rightarrow> int" where
  "count_inside ws = int (length (filter inside ws))"

inductive step :: "config \<Rightarrow> process \<Rightarrow> process \<Rightarrow> bool" for cfg :: config where
  tick: "now p \<le> t \<Longrightarrow> step cfg p (p\<lparr>now := t\<rparr>)"
| accept: "main p = Serving \<or> main p = Leaving \<Longrightarrow> step cfg p (p\<lparr>workers := workers p @ [Accepted own]\<rparr>)"
| enter: "i < length (workers p) \<Longrightarrow> workers p ! i = Accepted own \<Longrightarrow>
    step cfg p (p\<lparr>srv := enter_request (srv p), workers := (workers p)[i := Entered own]\<rparr>)"
| gate: "i < length (workers p) \<Longrightarrow> workers p ! i = Entered own \<Longrightarrow>
    step cfg p (p\<lparr>workers := (workers p)[i := if own then Replied else if draining (srv p) then Refused else Handling]\<rparr>)"
| reply: "i < length (workers p) \<Longrightarrow> workers p ! i = Handling \<Longrightarrow>
    step cfg p (p\<lparr>workers := (workers p)[i := Replied]\<rparr>)"
| finish: "i < length (workers p) \<Longrightarrow> workers p ! i = Refused \<or> workers p ! i = Replied \<Longrightarrow>
    step cfg p (p\<lparr>srv := exit_request (srv p), workers := (workers p)[i := Finished]\<rparr>)"
| signal: "main p = Serving \<Longrightarrow> \<not> draining (srv p) \<Longrightarrow>
    step cfg p (p\<lparr>srv := (srv p)\<lparr>draining := True, ready := False\<rparr>, main := Draining (now p + of_int (shutdown_grace cfg))\<rparr>)"
| drained: "main p = Draining deadline \<Longrightarrow> \<not> (0 < inflight (srv p) \<and> now p < deadline) \<Longrightarrow>
    step cfg p (p\<lparr>srv := (srv p)\<lparr>live := False\<rparr>, main := Leaving\<rparr>)"
| shut: "main p = Leaving \<Longrightarrow> step cfg p (p\<lparr>main := Closed\<rparr>)"
| leave: "main p = Closed \<Longrightarrow> \<forall>w \<in> set (workers p). w = Finished \<Longrightarrow> step cfg p (p\<lparr>main := Exited\<rparr>)"

text \<open>The process when its accept loop starts.\<close>

definition started :: "string \<Rightarrow> time \<Rightarrow> process" where
  "started name t = \<lparr>srv = (new_service name t)\<lparr>ready := True\<rparr>, main = Serving, workers = [], now = t\<rparr>"

inductive reachable :: "config \<Rightarrow> process \<Rightarrow> bool" for cfg :: config where
  start: "reachable cfg (started name t)"
| next_step: "reachable cfg p \<Longrightarrow> step cfg p p' \<Longrightarrow> reachable cfg p'"

inductive_cases stepE: "step cfg p p'"

section \<open>Invariants\<close>

lemma filter_update_count:
  assumes "i < length ws"
  shows "count_inside (ws[i := w]) = count_inside ws + (if inside w then 1 else 0) - (if inside (ws ! i) then 1 else 0)"
proof -
  have ws: "ws = take i ws @ ws ! i # drop (Suc i) ws" using assms by (simp add: id_take_nth_drop)
  then have "filter inside ws = filter inside (take i ws) @ filter inside (ws ! i # drop (Suc i) ws)"
    by (metis filter_append)
  then show ?thesis by (simp add: count_inside_def upd_conv_take_nth_drop [OF assms])
qed

text \<open>What every reachable process satisfies.\<close>

definition life_ok :: "process \<Rightarrow> bool" where
  "life_ok p \<longleftrightarrow> inflight (srv p) = count_inside (workers p) \<and>
     (draining (srv p) \<longleftrightarrow> main p \<noteq> Serving) \<and> (ready (srv p) \<longleftrightarrow> main p = Serving) \<and>
     (live (srv p) \<longleftrightarrow> main p = Serving \<or> (\<exists>d. main p = Draining d)) \<and>
     (main p = Exited \<longrightarrow> (\<forall>w \<in> set (workers p). w = Finished))"

lemma count_inside_nonneg: "0 \<le> count_inside ws"
  by (simp add: count_inside_def)

lemma count_inside_pos: "i < length ws \<Longrightarrow> inside (ws ! i) \<Longrightarrow> 0 < count_inside ws"
  by (auto simp: count_inside_def) (metis filter_empty_conv length_greater_0_conv nth_mem)

lemma busy_not_exited: "life_ok p \<Longrightarrow> i < length (workers p) \<Longrightarrow> workers p ! i \<noteq> Finished \<Longrightarrow> main p \<noteq> Exited"
  by (auto simp: life_ok_def)

lemma step_life_ok: "step cfg p p' \<Longrightarrow> life_ok p \<Longrightarrow> life_ok p'"
proof (induction rule: step.induct)
  case (accept p own)
  then show ?case by (auto simp: life_ok_def count_inside_def)
next
  case (enter i p own)
  moreover from enter have "main p \<noteq> Exited" using busy_not_exited by fastforce
  ultimately show ?case by (simp add: life_ok_def enter_request_def filter_update_count)
next
  case (gate i p own)
  moreover from gate have "main p \<noteq> Exited" using busy_not_exited by fastforce
  ultimately show ?case by (simp add: life_ok_def filter_update_count)
next
  case (reply i p)
  moreover from reply have "main p \<noteq> Exited" using busy_not_exited by fastforce
  ultimately show ?case by (simp add: life_ok_def filter_update_count)
next
  case (finish i p)
  moreover from finish have "main p \<noteq> Exited" "inside (workers p ! i)" using busy_not_exited by fastforce+
  ultimately show ?case
    using count_inside_pos [of i "workers p"] by (simp add: life_ok_def exit_request_def filter_update_count)
qed (auto simp: life_ok_def)

lemma reachable_life_ok: "reachable cfg p \<Longrightarrow> life_ok p"
  by (induction rule: reachable.induct)
    (auto simp: life_ok_def started_def new_service_def count_inside_def dest: step_life_ok [unfolded life_ok_def])

text \<open>The handlers that are running: no step of a draining process starts one.\<close>

definition handling :: "process \<Rightarrow> nat set" where
  "handling p = {i. i < length (workers p) \<and> workers p ! i = Handling}"

lemma step_handling: "step cfg p p' \<Longrightarrow> draining (srv p) \<Longrightarrow> handling p' \<subseteq> handling p"
  by (induction rule: step.induct) (auto simp: handling_def nth_append nth_list_update split: if_splits)

lemma step_draining: "step cfg p p' \<Longrightarrow> draining (srv p) \<Longrightarrow> draining (srv p')"
  by (induction rule: step.induct) (auto simp: enter_request_def exit_request_def)

text \<open>Runs of the process.\<close>

inductive steps :: "config \<Rightarrow> process \<Rightarrow> process \<Rightarrow> bool" for cfg :: config where
  none: "steps cfg p p"
| more: "steps cfg p p' \<Longrightarrow> step cfg p' p'' \<Longrightarrow> steps cfg p p''"

lemma steps_reachable: "steps cfg p p' \<Longrightarrow> reachable cfg p \<Longrightarrow> reachable cfg p'"
  by (induction rule: steps.induct) (auto intro: next_step)

lemma steps_trans: "steps cfg p q \<Longrightarrow> steps cfg q r \<Longrightarrow> steps cfg p r"
  by (rotate_tac 1, induction rule: steps.induct) (auto intro: steps.intros)

lemma steps_handling: "steps cfg p p' \<Longrightarrow> draining (srv p) \<Longrightarrow> draining (srv p') \<and> handling p' \<subseteq> handling p"
  by (induction rule: steps.induct) (auto dest: step_handling step_draining)

text \<open>The phase of the main thread only goes forward, so a process that is draining now has been since it began to.\<close>

fun phase :: "main_thread \<Rightarrow> nat" where
  "phase Serving = 0"
| "phase (Draining d) = 1"
| "phase Leaving = 2"
| "phase Closed = 3"
| "phase Exited = 4"

lemma step_phase: "step cfg p p' \<Longrightarrow> phase (main p) \<le> phase (main p')"
  by (induction rule: step.induct) auto

lemma steps_phase: "steps cfg p p' \<Longrightarrow> phase (main p) \<le> phase (main p')"
  by (induction rule: steps.induct) (auto dest: step_phase)

lemma step_no_accept: "step cfg p p' \<Longrightarrow> main p = Draining d \<Longrightarrow> length (workers p') = length (workers p)"
  by (induction rule: step.induct) auto

lemma steps_no_accept:
  "steps cfg p p' \<Longrightarrow> main p = Draining d \<Longrightarrow> main p' = Draining d' \<Longrightarrow> length (workers p') = length (workers p)"
proof (induction arbitrary: d' rule: steps.induct)
  case (more p p1 p2)
  have "phase (main p1) = 1"
    using step_phase [OF more.hyps(2)] steps_phase [OF more.hyps(1)] more.prems by simp
  then obtain e where "main p1 = Draining e" by (cases "main p1") auto
  with more.IH [OF more.prems(1)] step_no_accept [OF more.hyps(2)] show ?case by simp
qed simp

section \<open>Progress\<close>

text \<open>The steps a worker still has to take.\<close>

fun todo :: "worker \<Rightarrow> nat" where
  "todo (Accepted own) = 4"
| "todo (Entered own) = 3"
| "todo Handling = 2"
| "todo Refused = 1"
| "todo Replied = 1"
| "todo Finished = 0"

definition work_left :: "process \<Rightarrow> nat" where
  "work_left p = sum_list (map todo (workers p))"

lemma work_left_update:
  "i < length ws \<Longrightarrow> todo w < todo (ws ! i) \<Longrightarrow> sum_list (map todo (ws[i := w])) < sum_list (map todo ws)"
proof (induction ws arbitrary: i)
  case (Cons x ws)
  then show ?case by (cases i) auto
qed simp

lemma worker_steps:
  assumes "i < length (workers p)" and "workers p ! i \<noteq> Finished"
  shows "\<exists>p'. step cfg p p' \<and> main p' = main p \<and> work_left p' < work_left p"
proof (cases "workers p ! i")
  case (Accepted own)
  with assms(1) show ?thesis
    by (intro exI conjI, rule enter) (auto simp: work_left_def intro!: work_left_update)
next
  case (Entered own)
  with assms(1) show ?thesis
    by (intro exI conjI, rule gate) (auto simp: work_left_def intro!: work_left_update)
next
  case Handling
  with assms(1) show ?thesis
    by (intro exI conjI, rule reply) (auto simp: work_left_def intro!: work_left_update)
next
  case Refused
  then have "workers p ! i = Refused \<or> workers p ! i = Replied" by simp
  from assms(1) this show ?thesis
    by (intro exI conjI, rule finish) (auto simp: work_left_def intro!: work_left_update)
next
  case Replied
  then have "workers p ! i = Refused \<or> workers p ! i = Replied" by simp
  from assms(1) this show ?thesis
    by (intro exI conjI, rule finish) (auto simp: work_left_def intro!: work_left_update)
qed (use assms in simp)

lemma work_can_finish: "\<exists>p'. steps cfg p p' \<and> main p' = main p \<and> (\<forall>w \<in> set (workers p'). w = Finished)"
proof (induction "work_left p" arbitrary: p rule: less_induct)
  case less
  show ?case
  proof (cases "\<forall>w \<in> set (workers p). w = Finished")
    case True
    then show ?thesis using none by blast
  next
    case False
    then obtain i where "i < length (workers p)" "workers p ! i \<noteq> Finished" by (auto simp: in_set_conv_nth)
    then obtain p1 where p1: "step cfg p p1" "main p1 = main p" "work_left p1 < work_left p"
      using worker_steps by blast
    with less obtain p' where "steps cfg p1 p'" "main p' = main p1" "\<forall>w \<in> set (workers p'). w = Finished" by blast
    moreover have "steps cfg p p1" using more [OF none p1(1)] .
    ultimately show ?thesis using p1(2) steps_trans by metis
  qed
qed

lemma closed_can_exit: "main p = Closed \<Longrightarrow> \<exists>p'. steps cfg p p' \<and> main p' = Exited"
proof -
  assume p: "main p = Closed"
  obtain p1 where p1: "steps cfg p p1" "main p1 = Closed" "\<forall>w \<in> set (workers p1). w = Finished"
    using work_can_finish [of cfg p] p by auto
  from more [OF p1(1) leave [OF p1(2,3)]] show ?thesis by fastforce
qed

lemma leaving_can_exit: "main p = Leaving \<Longrightarrow> \<exists>p'. steps cfg p p' \<and> main p' = Exited"
  using closed_can_exit [of "p\<lparr>main := Closed\<rparr>" cfg] more [OF none shut, of p cfg] steps_trans by fastforce

lemma draining_can_exit:
  assumes "life_ok p" and "main p = Draining d"
  shows "\<exists>p'. steps cfg p p' \<and> main p' = Exited"
proof -
  obtain p1 where p1: "steps cfg p p1" "main p1 = Draining d" "\<forall>w \<in> set (workers p1). w = Finished"
    using work_can_finish [of cfg p] assms(2) by auto
  have "life_ok p1" using p1(1) assms(1) by (induction rule: steps.induct) (auto dest: step_life_ok)
  then have "inflight (srv p1) = 0" using p1(3) by (auto simp: life_ok_def count_inside_def filter_empty_conv)
  then have "steps cfg p (p1\<lparr>srv := (srv p1)\<lparr>live := False\<rparr>, main := Leaving\<rparr>)"
    using more [OF p1(1) drained [OF p1(2)]] by simp
  with leaving_can_exit [of "p1\<lparr>srv := (srv p1)\<lparr>live := False\<rparr>, main := Leaving\<rparr>" cfg] steps_trans show ?thesis by fastforce
qed

section \<open>Properties\<close>

text \<open>
  C29: The count of requests in flight, which the drain waits for, is exact: in every reachable
  process it equals the number of worker threads between their entry and their exit, so that the
  clamp at zero never acts; and ready, live and draining tell the phase of the main thread.
\<close>

theorem inflight_counts_requests:
  assumes "reachable cfg p"
  shows "inflight (srv p) = int (length (filter inside (workers p))) \<and> (ready (srv p) \<longleftrightarrow> main p = Serving) \<and>
    (draining (srv p) \<longleftrightarrow> main p \<noteq> Serving) \<and> (live (srv p) \<longleftrightarrow> main p = Serving \<or> (\<exists>d. main p = Draining d))"
  using reachable_life_ok [OF assms] by (simp add: life_ok_def count_inside_def)

text \<open>
  From the moment a service starts to drain, in every interleaving, no further request reaches a
  handler: the requests being handled are only ever among those that were handled at that moment.
\<close>

theorem drain_starts_no_handler:
  assumes "steps cfg p p'" and "draining (srv p)"
  shows "handling p' \<subseteq> handling p"
  using steps_handling [OF assms] by blast

text \<open>
  While the main thread drains, no connection is accepted. So no readiness probe that arrives during
  the drain is answered: the 503 of \<open>/ready\<close> reaches only connections that were accepted before the signal.
\<close>

theorem no_probe_accepted_while_draining:
  assumes "reachable cfg p" and "steps cfg p p'" and "main p = Draining d" and "main p' = Draining d'"
  shows "length (workers p') = length (workers p) \<and> \<not> ready (srv p') \<and> live (srv p')"
  using steps_no_accept [OF assms(2-4)] reachable_life_ok [OF steps_reachable [OF assms(2,1)]] assms(4)
  by (auto simp: life_ok_def)

text \<open>
  The end of the grace period closes the listener and no more: the process exits only when every
  request that was accepted has finished, and for a handler that does not return it is still there at
  any later time.
\<close>

theorem exit_waits_for_every_request:
  "(reachable cfg p \<and> main p = Exited \<longrightarrow> (\<forall>w \<in> set (workers p). w = Finished)) \<and>
   (\<exists>p. reachable cfg p \<and> main p = Closed \<and> t \<le> now p \<and> handling p \<noteq> {})"
proof (intro conjI)
  show "reachable cfg p \<and> main p = Exited \<longrightarrow> (\<forall>w \<in> set (workers p). w = Finished)"
    using reachable_life_ok [of cfg p] by (auto simp: life_ok_def)
next
  let ?s = "(new_service ''s'' 0)\<lparr>ready := True\<rparr>"
  let ?p0 = "started ''s'' 0"
  let ?p1 = "?p0\<lparr>workers := [Accepted False]\<rparr>"
  let ?p2 = "?p1\<lparr>srv := enter_request ?s, workers := [Entered False]\<rparr>"
  let ?p3 = "?p2\<lparr>workers := [Handling]\<rparr>"
  let ?dl = "of_int (shutdown_grace cfg) :: time"
  let ?p4 = "?p3\<lparr>srv := (enter_request ?s)\<lparr>draining := True, ready := False\<rparr>, main := Draining ?dl\<rparr>"
  let ?p5 = "?p4\<lparr>now := max 0 (max ?dl t)\<rparr>"
  let ?p6 = "?p5\<lparr>srv := (srv ?p5)\<lparr>live := False\<rparr>, main := Leaving\<rparr>"
  have 0: "reachable cfg ?p0" by (rule start)
  have 1: "reachable cfg ?p1"
    using next_step [OF 0 accept [of _ _ False]] by (simp add: started_def)
  have 2: "reachable cfg ?p2"
    using next_step [OF 1 enter [of 0 _ False]] by (simp add: started_def)
  have 3: "reachable cfg ?p3"
    using next_step [OF 2 gate [of 0 _ False]] by (simp add: started_def enter_request_def new_service_def)
  have 4: "reachable cfg ?p4"
    using next_step [OF 3 signal] by (simp add: started_def enter_request_def new_service_def)
  have 5: "reachable cfg ?p5"
    using next_step [OF 4 tick [of _ "max 0 (max ?dl t)"]] by (simp add: started_def)
  have 6: "reachable cfg ?p6"
    using next_step [OF 5 drained [of _ ?dl]] by (simp add: started_def)
  have "reachable cfg (?p6\<lparr>main := Closed\<rparr>)"
    using next_step [OF 6 shut] by simp
  then show "\<exists>p. reachable cfg p \<and> main p = Closed \<and> t \<le> now p \<and> handling p \<noteq> {}"
    by (rule_tac x = "?p6\<lparr>main := Closed\<rparr>" in exI) (simp add: handling_def)
qed


text \<open>
  C27: The drain loop ends. If each round takes at least the twentieth of a second that it sleeps,
  \<open>_drain_and_stop\<close> returns after at most twenty rounds per second of grace (and one), and then
  no request is in flight or the grace period is over.
\<close>

theorem drain_terminates:
  assumes "\<And>n. snd (seen n) + 1 / 20 \<le> snd (seen (Suc n))" and "now0 \<le> snd (seen 0)" and "\<not> draining s"
  shows "\<exists>s' events n. drain_and_stop cfg seen now0 s = Some (s', events, True) \<and>
    int n \<le> max 0 (20 * shutdown_grace cfg) \<and> inflight s' = fst (seen n) \<and>
    (fst (seen n) \<le> 0 \<or> now0 + of_int (shutdown_grace cfg) \<le> snd (seen n)) \<and>
    draining s' \<and> \<not> ready s' \<and> \<not> live s'"
proof -
  let ?dl = "now0 + of_int (shutdown_grace cfg)"
  let ?go = "\<lambda>n. 0 < fst (seen n) \<and> snd (seen n) < ?dl"
  have late: "now0 + of_nat n / 20 \<le> snd (seen n)" for n
  proof (induction n)
    case (Suc n)
    then show ?case using assms(1) [of n] by (simp add: field_simps)
  qed (use assms(2) in simp)
  let ?last = "nat (20 * shutdown_grace cfg)"
  have "\<not> ?go ?last"
  proof (cases "0 \<le> shutdown_grace cfg")
    case True
    then have "(of_nat ?last :: real) / 20 = of_int (shutdown_grace cfg)" by simp
    with late [of ?last] show ?thesis by simp
  next
    case False
    then show ?thesis using late [of 0] by simp
  qed
  then obtain n where n: "\<not> ?go n" "\<forall>m < n. ?go m" "n \<le> ?last"
    using exists_least_iff [of "\<lambda>n. \<not> ?go n"] by (metis linorder_not_less)
  have "drain_loop seen ?dl 0 = Some n"
    using drain_loop_stops [of seen 0 n ?dl] n(1,2) by simp
  then have "drain_and_stop cfg seen now0 s =
      Some (s\<lparr>draining := True, ready := False, inflight := fst (seen n), live := False\<rparr>,
        [''shutdown_started'', if 0 < fst (seen n) then ''shutdown_forced'' else ''shutdown_drained''], True)"
    using assms(3) by (simp add: drain_and_stop_def)
  then show ?thesis
    using n(1,3) by (intro exI conjI) (assumption, auto)
qed

section \<open>Witnesses\<close>

theorem inflight_counts_requests_witness:
  "inflight (srv (started ''idp'' 5)) = 0 \<and> ready (srv (started ''idp'' 5))"
  using inflight_counts_requests [OF start [of default_config "''idp''" 5]] by (simp add: started_def)

text \<open>A service that got the signal while idle.\<close>

definition signalled :: process where
  "signalled = (started ''idp'' 0)\<lparr>srv := (srv (started ''idp'' 0))\<lparr>draining := True, ready := False\<rparr>,
     main := Draining (0 + of_int (shutdown_grace default_config))\<rparr>"

lemma signalled_reachable: "reachable default_config signalled"
proof -
  have "step default_config (started ''idp'' 0) ((started ''idp'' 0)\<lparr>srv := (srv (started ''idp'' 0))\<lparr>draining := True, ready := False\<rparr>,
      main := Draining (now (started ''idp'' 0) + of_int (shutdown_grace default_config))\<rparr>)"
    by (rule signal) (simp_all add: started_def new_service_def)
  from next_step [OF start this] show ?thesis by (simp add: signalled_def started_def)
qed

lemma signalled_waits: "steps default_config signalled (signalled\<lparr>now := 3\<rparr>)"
  by (rule more [OF none tick]) (simp add: signalled_def started_def)

theorem drain_starts_no_handler_witness: "handling (signalled\<lparr>now := 3\<rparr>) \<subseteq> handling signalled \<and> draining (srv signalled)"
  using drain_starts_no_handler [OF signalled_waits] by (simp add: signalled_def)

theorem no_probe_accepted_while_draining_witness:
  "length (workers (signalled\<lparr>now := 3\<rparr>)) = length (workers signalled) \<and> \<not> ready (srv (signalled\<lparr>now := 3\<rparr>))"
  using no_probe_accepted_while_draining [OF signalled_reachable signalled_waits]
  by (simp add: signalled_def)

theorem exit_waits_for_every_request_witness:
  "\<exists>p. reachable default_config p \<and> main p = Closed \<and> 1000 \<le> now p \<and> handling p \<noteq> {}"
  using exit_waits_for_every_request [of default_config signalled 1000] by blast


theorem drain_terminates_witness:
  "\<exists>s' events. drain_and_stop default_config (\<lambda>n. (if n < 3 then 2 else 0, 7 + of_nat n / 10)) 7 (new_service ''idp'' 0) =
     Some (s', events, True) \<and> draining s'"
proof -
  let ?seen = "\<lambda>n. (if n < 3 then 2 else 0 :: int, 7 + of_nat n / 10 :: time)"
  have "snd (?seen n) + 1 / 20 \<le> snd (?seen (Suc n))" for n by (simp add: field_simps)
  moreover have "7 \<le> snd (?seen 0)" "\<not> draining (new_service ''idp'' 0)" by (simp_all add: new_service_def)
  ultimately show ?thesis using drain_terminates [of ?seen 7 "new_service ''idp'' 0" default_config] by blast
qed

end
