(* ===== verification/RotateKeys.thy ===== *)
theory RotateKeys
  imports ProvisionCerts Config "HOL-Library.List_Lexorder" "HOL-Library.Char_ord"
begin

text \<open>
  \<open>tools/rotate_keys.py\<close>: the report on the key material and its rotation, over the key files. What
  \<open>os.listdir\<close> returns for the directory of the service certificates is an argument (\<open>None\<close> when there
  is no such directory), as are the time stamp of the archive and the answer at the prompt.
\<close>

definition ARCHIVE_DIR :: string where "ARCHIVE_DIR = ''certs/archive''"

section \<open>The report\<close>

definition cert_days_left :: "ca_prims \<Rightarrow> time \<Rightarrow> string \<Rightarrow> keystore \<Rightarrow> real option" where
  "cert_days_left C now path s =
     map_option (\<lambda>c. (of_int (cert_until c) - now) / 86400) (Option.bind (kfiles s path) (parse_cert C))"

datatype key_validity = Unreadable | Expired real | RotateSoon real | ValidFor real

definition key_status :: "config \<Rightarrow> real option \<Rightarrow> key_validity" where
  "key_status cfg days =
     (case days of
        None \<Rightarrow> Unreadable
      | Some d \<Rightarrow> if d < 0 then Expired \<bar>d\<bar> else if d < of_int (cert_expiry_warn_days cfg) then RotateSoon d else ValidFor d)"

text \<open>The lines of the report, as data; \<open>JwtAge\<close> carries the age in days and the advice to rotate.\<close>

datatype report_line =
    CaMissing
  | KeyRow string key_validity
  | JwtAge real bool
  | JwtMissing
  | ActionRequired

definition cert_suffix :: string where "cert_suffix = ''_cert.pem''"

definition cert_label :: "string \<Rightarrow> string" where
  "cert_label name = take (length name - length cert_suffix) name"

definition service_cert_names :: "string list option \<Rightarrow> string list" where
  "service_cert_names names =
     (case names of None \<Rightarrow> [] | Some ns \<Rightarrow> filter (\<lambda>n. endswith n cert_suffix) (sort ns))"

definition check_rows :: "ca_prims \<Rightarrow> time \<Rightarrow> string list option \<Rightarrow> keystore \<Rightarrow> (string \<times> real option) list" where
  "check_rows C now names s =
     (if on_disk s CA_CERT_PATH then [(''CA'', cert_days_left C now CA_CERT_PATH s)] else []) @
     map (\<lambda>n. (cert_label n, cert_days_left C now (SERVICE_CERT_DIR @ ''/'' @ n) s)) (service_cert_names names)"

fun worst_days :: "real option list \<Rightarrow> real option \<Rightarrow> real option" where
  "worst_days [] worst = worst"
| "worst_days (d # ds) worst =
     worst_days ds (case (d, worst) of (None, w) \<Rightarrow> w | (Some x, None) \<Rightarrow> Some x | (Some x, Some w) \<Rightarrow> Some (if x < w then x else w))"

definition cmd_check ::
  "ca_prims \<Rightarrow> config \<Rightarrow> time \<Rightarrow> time \<Rightarrow> string list option \<Rightarrow> keystore \<Rightarrow> int \<times> report_line list" where
  "cmd_check C cfg now jwt_created names s =
     (let rows = check_rows C now names s;
          worst = worst_days (map snd rows) None;
          age = (now - jwt_created) / 86400;
          expired = (case worst of None \<Rightarrow> False | Some d \<Rightarrow> d < 0)
      in (if expired then 1 else 0,
          (if on_disk s CA_CERT_PATH then [] else [CaMissing]) @
          map (\<lambda>(l, d). KeyRow l (key_status cfg d)) rows @
          [if on_disk s JWT_PRIVATE_KEY_PATH then JwtAge age (365 < age) else JwtMissing] @
          (if expired then [ActionRequired] else [])))"

section \<open>Rotation\<close>

text \<open>\<open>shutil.move\<close> of a file into the archive, for the paths that exist.\<close>

definition move_file :: "string \<Rightarrow> string \<Rightarrow> keystore \<Rightarrow> keystore" where
  "move_file src dst s = s\<lparr>kfiles := (kfiles s)(src := None, dst := kfiles s src)\<rparr>"

fun move_all :: "string \<Rightarrow> string list \<Rightarrow> keystore \<Rightarrow> keystore" where
  "move_all dest [] s = s"
| "move_all dest (p # ps) s = move_all dest ps (if on_disk s p then move_file p (dest @ ''/'' @ basename p) s else s)"

definition archive_dest :: "string \<Rightarrow> string \<Rightarrow> string" where
  "archive_dest stamp label = ARCHIVE_DIR @ ''/'' @ stamp @ ''-'' @ label"

definition archive :: "string \<Rightarrow> string list \<Rightarrow> string \<Rightarrow> keystore \<Rightarrow> keystore" where
  "archive stamp paths label s = move_all (archive_dest stamp label) paths s"

text \<open>How a command ends: a status it returns, or the \<open>SystemExit\<close> of \<open>argparse\<close> on its way out.\<close>

datatype outcome = Returned int | SystemExit int

definition exit_status :: "outcome \<Rightarrow> int" where
  "exit_status r = (case r of Returned n \<Rightarrow> n | SystemExit n \<Rightarrow> n)"

text \<open>
  \<open>_reprovision\<close> calls the provisioner with no arguments. Its exceptions are caught and reported, but
  \<open>SystemExit\<close> is no \<open>Exception\<close>.
\<close>

definition reprovision :: "ca_prims \<Rightarrow> string list \<Rightarrow> int \<Rightarrow> keystore \<Rightarrow> outcome option \<times> keystore" where
  "reprovision C env_sans t s =
     (case parse_prov_args [] of
        None \<Rightarrow> (Some (SystemExit 2), s)
      | Some a \<Rightarrow> (None, snd (prov_main C env_sans t a s)))"

definition service_paths :: "string list option \<Rightarrow> string list" where
  "service_paths names = (case names of None \<Rightarrow> [] | Some ns \<Rightarrow> map (\<lambda>n. SERVICE_CERT_DIR @ ''/'' @ n) ns)"

text \<open>What the caller and the surroundings give to a rotation.\<close>

record rotation =
  rot_yes :: bool
  rot_answer :: string
  rot_stamp :: string
  rot_names :: "string list option"
  rot_env_sans :: "string list"
  rot_time :: int

definition rotate :: "ca_prims \<Rightarrow> rotation \<Rightarrow> string list \<Rightarrow> string \<Rightarrow> keystore \<Rightarrow> outcome \<times> keystore" where
  "rotate C q paths label s =
     (if \<not> rot_yes q \<and> \<not> confirmed (rot_answer q) then (Returned 1, s)
      else case reprovision C (rot_env_sans q) (rot_time q) (archive (rot_stamp q) paths label s) of
        (None, s') \<Rightarrow> (Returned 0, s')
      | (Some r, s') \<Rightarrow> (r, s'))"

definition cmd_rotate_service_certs :: "ca_prims \<Rightarrow> rotation \<Rightarrow> keystore \<Rightarrow> outcome \<times> keystore" where
  "cmd_rotate_service_certs C q = rotate C q (service_paths (rot_names q)) ''service-certs''"

definition cmd_rotate_jwt :: "ca_prims \<Rightarrow> rotation \<Rightarrow> keystore \<Rightarrow> outcome \<times> keystore" where
  "cmd_rotate_jwt C q = rotate C q [JWT_PRIVATE_KEY_PATH, JWT_PUBLIC_KEY_PATH] ''jwt''"

definition cmd_rotate_ca :: "ca_prims \<Rightarrow> rotation \<Rightarrow> keystore \<Rightarrow> outcome \<times> keystore" where
  "cmd_rotate_ca C q = rotate C q ([CA_CERT_PATH, CA_KEY_PATH] @ service_paths (rot_names q)) ''ca''"

datatype rotate_choice = ServiceCerts | Jwt | Ca

definition rotate_main :: "ca_prims \<Rightarrow> rotate_choice \<Rightarrow> rotation \<Rightarrow> keystore \<Rightarrow> outcome \<times> keystore" where
  "rotate_main C what =
     (case what of
        ServiceCerts \<Rightarrow> cmd_rotate_service_certs C
      | Jwt \<Rightarrow> cmd_rotate_jwt C
      | Ca \<Rightarrow> cmd_rotate_ca C)"

section \<open>What archiving does\<close>

lemma split_on_two_pieces: "tl (split_on sep (d @ sep # n)) \<noteq> []"
  by (induction d) (auto split: list.splits)

lemma last_split_on: "sep \<notin> set n \<Longrightarrow> last (split_on sep (d @ sep # n)) = n"
proof (induction d)
  case (Cons c d)
  then show ?case
    using split_on_two_pieces [of sep d n] by (cases "split_on sep (d @ sep # n)") auto
qed (simp add: split_on_no_sep)

lemma basename_join [simp]: "CHR ''/'' \<notin> set n \<Longrightarrow> basename (d @ CHR ''/'' # n) = n"
  by (simp add: basename_def last_split_on)

lemma move_file_simps [simp]:
  "kfiles (move_file p d s) q = (if q = d then kfiles s p else if q = p then None else kfiles s q)"
  "generated (move_file p d s) = generated s"
  by (simp_all add: move_file_def)

lemma move_all_frame:
  "q \<notin> set ps \<Longrightarrow> q \<notin> (\<lambda>p. dest @ ''/'' @ basename p) ` set ps \<Longrightarrow>
   kfiles (move_all dest ps s) q = kfiles s q \<and> generated (move_all dest ps s) = generated s"
  by (induction ps arbitrary: s) auto

text \<open>No file is lost: each is in the archive under its own name and gone from its place.\<close>

lemma move_all_moves:
  assumes "p \<in> set ps" and "distinct (map basename ps)" and "set ps \<inter> (\<lambda>p. dest @ ''/'' @ basename p) ` set ps = {}"
  shows "kfiles (move_all dest ps s) p = None \<and>
    (kfiles s p \<noteq> None \<longrightarrow> kfiles (move_all dest ps s) (dest @ ''/'' @ basename p) = kfiles s p)"
  using assms
proof (induction ps arbitrary: s)
  case (Cons a ps)
  let ?to = "\<lambda>p. dest @ ''/'' @ basename p" and ?s = "if on_disk s a then move_file a (dest @ ''/'' @ basename a) s else s"
  show ?case
  proof (cases "p = a")
    case True
    have "p \<notin> ?to ` set ps" "?to p \<notin> set ps" "?to p \<noteq> p" "p \<notin> set ps" "?to p \<notin> ?to ` set ps"
      using Cons.prems True by auto
    then show ?thesis
      using move_all_frame [of p ps dest ?s] move_all_frame [of "?to p" ps dest ?s] True by (auto simp: on_disk_def)
  next
    case False
    then have p: "p \<in> set ps" using Cons.prems(1) by simp
    have "distinct (map basename ps)" "set ps \<inter> ?to ` set ps = {}" using Cons.prems(2,3) by auto
    note IH = Cons.IH [OF p this, of ?s]
    have "?to a \<noteq> p" using Cons.prems(3) p by auto
    then have "kfiles ?s p = kfiles s p" using False by simp
    with IH show ?thesis by simp
  qed
qed simp

section \<open>What a rotation does\<close>

definition rotated_paths :: "rotate_choice \<Rightarrow> string list option \<Rightarrow> string list" where
  "rotated_paths what names =
     (case what of
        ServiceCerts \<Rightarrow> service_paths names
      | Jwt \<Rightarrow> [JWT_PRIVATE_KEY_PATH, JWT_PUBLIC_KEY_PATH]
      | Ca \<Rightarrow> [CA_CERT_PATH, CA_KEY_PATH] @ service_paths names)"

definition archive_of :: "rotate_choice \<Rightarrow> string \<Rightarrow> string" where
  "archive_of what stamp =
     archive_dest stamp (case what of ServiceCerts \<Rightarrow> ''service-certs'' | Jwt \<Rightarrow> ''jwt'' | Ca \<Rightarrow> ''ca'')"

text \<open>The names of a directory: different, without a slash, and none that of a CA file.\<close>

definition plain_names :: "string list option \<Rightarrow> bool" where
  "plain_names names \<longleftrightarrow> (case names of None \<Rightarrow> True | Some ns \<Rightarrow>
     distinct ns \<and> (\<forall>n \<in> set ns. CHR ''/'' \<notin> set n) \<and> ''ca_cert.pem'' \<notin> set ns \<and> ''ca_key.pem'' \<notin> set ns)"

definition agreed :: "rotation \<Rightarrow> bool" where
  "agreed q \<longleftrightarrow> rot_yes q \<or> confirmed (rot_answer q)"

lemma rotate_main_eq:
  "rotate_main C what q s =
     (if agreed q then (SystemExit 2, move_all (archive_of what (rot_stamp q)) (rotated_paths what (rot_names q)) s)
      else (Returned 1, s))"
  by (cases what)
    (auto simp: rotate_main_def cmd_rotate_service_certs_def cmd_rotate_jwt_def cmd_rotate_ca_def rotate_def agreed_def
      reprovision_def parse_prov_args_def opt_value_def archive_def archive_of_def rotated_paths_def)

lemma rotated_not_archived: "p \<in> set (rotated_paths what names) \<Longrightarrow> p \<noteq> archive_of what' stamp @ r"
  by (auto simp: rotated_paths_def service_paths_def archive_of_def archive_dest_def ARCHIVE_DIR_def path_defs
      split: rotate_choice.splits option.splits)

lemma map_basename_join: "\<forall>n \<in> set ns. CHR ''/'' \<notin> set n \<Longrightarrow> map (\<lambda>n. basename (d @ CHR ''/'' # n)) ns = ns"
  by (induction ns) simp_all

lemma rotated_names_distinct:
  assumes "plain_names names"
  shows "distinct (map basename (rotated_paths what names))"
proof -
  have "basename JWT_PRIVATE_KEY_PATH = ''jwt_private.pem''" "basename JWT_PUBLIC_KEY_PATH = ''jwt_public.pem''"
    "basename CA_CERT_PATH = ''ca_cert.pem''" "basename CA_KEY_PATH = ''ca_key.pem''"
    by (simp_all add: basename_def path_defs)
  with assms show ?thesis
    by (cases what; cases names) (auto simp: rotated_paths_def service_paths_def plain_names_def map_basename_join o_def)
qed

lemma rotation_moves:
  assumes "agreed q" and "plain_names (rot_names q)" and "rotate_main C what q s = (r, s')"
  shows "r = SystemExit 2 \<and> generated s' = generated s \<and>
    (\<forall>p \<in> set (rotated_paths what (rot_names q)). kfiles s' p = None \<and>
       (kfiles s p \<noteq> None \<longrightarrow> kfiles s' (archive_of what (rot_stamp q) @ ''/'' @ basename p) = kfiles s p)) \<and>
    (\<forall>p. p \<notin> set (rotated_paths what (rot_names q)) \<and> \<not> startswith p (archive_of what (rot_stamp q)) \<longrightarrow> kfiles s' p = kfiles s p)"
proof -
  let ?ps = "rotated_paths what (rot_names q)" and ?dest = "archive_of what (rot_stamp q)"
  have r: "r = SystemExit 2" and s': "s' = move_all ?dest ?ps s"
    using assms(1,3) by (simp_all add: rotate_main_eq)
  have apart: "set ?ps \<inter> (\<lambda>p. ?dest @ ''/'' @ basename p) ` set ?ps = {}"
    using rotated_not_archived by fastforce
  have "kfiles s' p = kfiles s p" if "p \<notin> set ?ps" "\<not> startswith p ?dest" for p
    using move_all_frame [of p ?ps ?dest s] that unfolding s' by (auto simp: startswith_iff)
  moreover have "generated (move_all d ps u) = generated u" for d ps u
    by (induction ps arbitrary: u) auto
  moreover note move_all_moves [OF _ rotated_names_distinct [OF assms(2)] apart, of _ s]
  ultimately show ?thesis by (simp add: r s')
qed

lemma cert_days_left_negative:
  "(\<exists>d < 0. cert_days_left C now p s = Some d) \<longleftrightarrow>
     (\<exists>c. Option.bind (kfiles s p) (parse_cert C) = Some c \<and> of_int (cert_until c) < now)"
proof (cases "Option.bind (kfiles s p) (parse_cert C)")
  case (Some c)
  let ?d = "(of_int (cert_until c) - now) / 86400"
  have "cert_days_left C now p s = Some ?d" using Some by (simp add: cert_days_left_def)
  then have "(\<exists>d < 0. cert_days_left C now p s = Some d) \<longleftrightarrow> ?d < 0" by (metis option.inject)
  then show ?thesis using Some by (simp add: divide_less_0_iff)
qed (simp add: cert_days_left_def)

lemma worst_days_least:
  "worst_days ds w = Some x \<longleftrightarrow> (Some x \<in> insert w (set ds) \<and> (\<forall>y. Some y \<in> insert w (set ds) \<longrightarrow> x \<le> y))"
proof (induction ds arbitrary: w)
  case Nil
  then show ?case by auto
next
  case (Cons d ds)
  show ?case by (cases d; cases w) (auto simp: Cons)
qed

lemma worst_days_None: "worst_days ds w = None \<longleftrightarrow> w = None \<and> set ds \<subseteq> {None}"
  by (induction ds arbitrary: w) (auto split: option.splits)

section \<open>Properties\<close>

text \<open>
  A rotation that was agreed to never completes: the old files are safe in the archive and gone from their place, but no
  replacement is generated; the command leaves with status 2, out of the provisioner's argument parser.
\<close>

theorem rotation_stops_half_way:
  assumes "agreed q" and "plain_names (rot_names q)" and "rotate_main C what q s = (r, s')"
  shows "r = SystemExit 2 \<and> generated s' = generated s \<and>
    (\<forall>p \<in> set (rotated_paths what (rot_names q)). kfiles s' p = None \<and>
       (kfiles s p \<noteq> None \<longrightarrow> kfiles s' (archive_of what (rot_stamp q) @ ''/'' @ basename p) = kfiles s p)) \<and>
    (\<forall>p. p \<notin> set (rotated_paths what (rot_names q)) \<and> \<not> startswith p (archive_of what (rot_stamp q)) \<longrightarrow> kfiles s' p = kfiles s p)"
  by (rule rotation_moves [OF assms])

text \<open>
  \<open>--check\<close> exits with 1 exactly when the certificate of the CA or one in the directory of service certificates can be
  read and is past its end; one that cannot be read does not count.
\<close>

theorem check_exit_status:
  "fst (cmd_check C cfg now created names s) =
     (if \<exists>p c. p \<in> insert CA_CERT_PATH ((\<lambda>n. SERVICE_CERT_DIR @ ''/'' @ n) ` set (service_cert_names names)) \<and>
          Option.bind (kfiles s p) (parse_cert C) = Some c \<and> of_int (cert_until c) < now then 1 else 0)"
proof -
  let ?ds = "map snd (check_rows C now names s)"
  let ?ps = "insert CA_CERT_PATH ((\<lambda>n. SERVICE_CERT_DIR @ ''/'' @ n) ` set (service_cert_names names))"
  let ?left = "\<lambda>p. cert_days_left C now p s"
  have "?left CA_CERT_PATH = None" if "\<not> on_disk s CA_CERT_PATH"
    using that by (simp add: cert_days_left_def on_disk_def)
  then have rows: "Some x \<in> set ?ds \<longleftrightarrow> Some x \<in> ?left ` ?ps" for x
    by (cases "on_disk s CA_CERT_PATH") (auto simp: check_rows_def o_def)
  have "(\<exists>x < 0. Some x \<in> set ?ds) \<longleftrightarrow> (\<exists>p \<in> ?ps. \<exists>x < 0. ?left p = Some x)"
    unfolding rows by (metis (no_types, lifting) image_iff)
  then have "(\<exists>x < 0. Some x \<in> set ?ds) \<longleftrightarrow>
    (\<exists>p c. p \<in> ?ps \<and> Option.bind (kfiles s p) (parse_cert C) = Some c \<and> of_int (cert_until c) < now)"
    unfolding cert_days_left_negative by blast
  moreover have "(case worst_days ?ds None of None \<Rightarrow> False | Some d \<Rightarrow> d < 0) \<longleftrightarrow> (\<exists>x < 0. Some x \<in> set ?ds)"
  proof (cases "worst_days ?ds None")
    case None
    then have "set ?ds \<subseteq> {None}" by (simp only: worst_days_None)
    with None show ?thesis by fastforce
  next
    case (Some d)
    then show ?thesis using worst_days_least [of ?ds None d] by fastforce
  qed
  ultimately show ?thesis by (simp add: cmd_check_def Let_def)
qed

section \<open>Witness\<close>

definition jwt_rotation :: rotation where
  "jwt_rotation = \<lparr>rot_yes = False, rot_answer = '' Yes '', rot_stamp = ''20260804-221500'', rot_names = None, rot_env_sans = [], rot_time = 9\<rparr>"

theorem rotation_stops_half_way_witness:
  "\<exists>r s'. rotate_main toy_ca Jwt jwt_rotation (ensure_jwt_keypair toy_ca empty_keys) = (r, s') \<and> r = SystemExit 2 \<and>
     kfiles s' JWT_PRIVATE_KEY_PATH = None \<and>
     kfiles s' (archive_of Jwt ''20260804-221500'' @ ''/jwt_private.pem'') = Some ''key0''"
proof -
  let ?s = "ensure_jwt_keypair toy_ca empty_keys"
  obtain r s' where run: "rotate_main toy_ca Jwt jwt_rotation ?s = (r, s')" by fastforce
  have "confirmed '' Yes ''" by code_simp
  then have "agreed jwt_rotation" "plain_names (rot_names jwt_rotation)"
    by (simp_all add: agreed_def jwt_rotation_def plain_names_def)
  moreover have "JWT_PRIVATE_KEY_PATH \<in> set (rotated_paths Jwt (rot_names jwt_rotation))" by (simp add: rotated_paths_def)
  moreover have "kfiles ?s JWT_PRIVATE_KEY_PATH = Some ''key0''"
    by (simp add: ensure_jwt_keypair_def on_disk_def empty_keys_def generate_key_def toy_ca_def dec_nat.simps)
  moreover have "basename JWT_PRIVATE_KEY_PATH = ''jwt_private.pem''" by (simp add: basename_def path_defs)
  ultimately show ?thesis
    using rotation_stops_half_way [OF _ _ run] run by (fastforce simp: jwt_rotation_def)
qed

end
