(* ===== verification/Preflight.thy ===== *)
theory Preflight
  imports RotateKeys JsonReader ServiceLife
begin

text \<open>
  \<open>common/preflight.py\<close>: the checks before a service binds its port. A finding is its severity and the
  name of the check; the prose of its detail and remedy is left out. The host is its key files, what
  \<open>os.listdir\<close> returns for the service certificates, the bytes of \<open>pdp/policies.json\<close>, the directories the
  process can write to, and the clock. Probing a directory leaves it as it was.
\<close>

section \<open>Findings\<close>

datatype severity = Err | Warn

type_synonym finding = "severity \<times> string"

record host =
  keys :: keystore
  listing :: "string list option"
  policies_file :: "string option"
  writable :: "string \<Rightarrow> bool"
  host_now :: time

definition LOG_DIR :: string where "LOG_DIR = ''logs''"
definition STATE_DIR :: string where "STATE_DIR = ''logs/state''"

definition check_writable_dir :: "host \<Rightarrow> string \<Rightarrow> string \<Rightarrow> finding list" where
  "check_writable_dir h path label = (if writable h path then [] else [(Err, label @ ''_writable'')])"

definition cert_expiry_findings :: "ca_prims \<Rightarrow> config \<Rightarrow> host \<Rightarrow> string \<Rightarrow> string \<Rightarrow> finding list" where
  "cert_expiry_findings C cfg h path label =
     (if \<not> on_disk (keys h) path then []
      else case cert_days_left C (host_now h) path (keys h) of
        None \<Rightarrow> [(Warn, label @ ''_unreadable'')]
      | Some d \<Rightarrow>
          if d < 0 then [(Err, label @ ''_expired'')]
          else if d < of_int (cert_expiry_warn_days cfg) then [(Warn, label @ ''_expiring'')]
          else [])"

text \<open>The groups of checks, in the order of \<open>collect_findings\<close>.\<close>

definition jwt_findings :: "string \<Rightarrow> host \<Rightarrow> finding list" where
  "jwt_findings name h =
     (if name = ''idp'' \<and> \<not> on_disk (keys h) JWT_PRIVATE_KEY_PATH then [(Err, ''jwt_private_key_missing'')] else []) @
     (if name \<in> {''idp'', ''gateway''} \<and> \<not> on_disk (keys h) JWT_PUBLIC_KEY_PATH then [(Err, ''jwt_public_key_missing'')] else []) @
     (if name = ''gateway'' \<and> on_disk (keys h) JWT_PRIVATE_KEY_PATH then [(Warn, ''gateway_holds_signing_key'')] else [])"

definition mtls_findings :: "ca_prims \<Rightarrow> config \<Rightarrow> host \<Rightarrow> finding list" where
  "mtls_findings C cfg h =
     (if \<not> mtls_enabled cfg then []
      else (if on_disk (keys h) CA_CERT_PATH then [] else [(Err, ''ca_cert_missing'')]) @
        cert_expiry_findings C cfg h CA_CERT_PATH ''ca'' @
        concat (map (\<lambda>n. cert_expiry_findings C cfg h (SERVICE_CERT_DIR @ ''/'' @ n) (cert_label n))
          (service_cert_names (listing h))))"

definition policy_findings :: "host \<Rightarrow> finding list" where
  "policy_findings h =
     (case policies_file h of
        None \<Rightarrow> [(Err, ''policies_missing'')]
      | Some bytes \<Rightarrow> (case Option.bind (utf8_decode bytes) json_loads of
            None \<Rightarrow> [(Err, ''policies_invalid'')]
          | Some _ \<Rightarrow> []))"

definition posture_findings :: "config \<Rightarrow> finding list" where
  "posture_findings cfg =
     (if require_device_approval cfg then [] else [(Warn, ''device_approval_disabled'')]) @
     (if token_binding_enabled cfg then [] else [(Warn, ''token_binding_disabled'')]) @
     (if state_backend cfg = ''memory'' then [(Warn, ''state_backend_memory'')] else []) @
     (if 3600 < token_ttl cfg then [(Warn, ''token_ttl_long'')] else [])"

definition collect_findings :: "ca_prims \<Rightarrow> config \<Rightarrow> string \<Rightarrow> host \<Rightarrow> finding list" where
  "collect_findings C cfg name h =
     jwt_findings name h @ mtls_findings C cfg h @
     (if tls_scheme \<noteq> ''https'' then [(Warn, ''tls_disabled'')] else []) @
     check_writable_dir h LOG_DIR ''log'' @ check_writable_dir h STATE_DIR ''state'' @
     policy_findings h @ posture_findings cfg"

section \<open>The gate\<close>

datatype preflight_result = Exits int | Raises nat | Passed "finding list"

definition blocking :: "finding list \<Rightarrow> finding list" where
  "blocking fs = filter (\<lambda>f. fst f = Err) fs"

definition warnings :: "finding list \<Rightarrow> finding list" where
  "warnings fs = filter (\<lambda>f. fst f = Warn) fs"

text \<open>The result and the log entries: the level, the event and the check it names.\<close>

definition run_preflight ::
  "ca_prims \<Rightarrow> config \<Rightarrow> string \<Rightarrow> bool \<Rightarrow> bool \<Rightarrow> host \<Rightarrow> preflight_result \<times> (level \<times> string \<times> string) list" where
  "run_preflight C cfg name strict exit_on_error h =
     (let fs = collect_findings C cfg name h; errors = blocking fs;
          logs = map (\<lambda>f. (WARNING, ''preflight_warning'', snd f)) (warnings fs) @
                 map (\<lambda>f. (CRITICAL, ''preflight_error'', snd f)) errors
      in if errors \<noteq> [] \<and> strict then (if exit_on_error then (Exits 2, logs) else (Raises (length errors), logs))
         else (Passed fs, logs @ [(INFO, ''preflight_ok'', [])]))"

text \<open>\<open>python -m common.preflight\<close>: every service is reported on, and the exit status is 1 if one has an error.\<close>

definition preflight_main :: "ca_prims \<Rightarrow> config \<Rightarrow> string option \<Rightarrow> host \<Rightarrow> int" where
  "preflight_main C cfg arg h =
     (let services = (case arg of None \<Rightarrow> [''idp'', ''gateway'', ''docs-app'', ''finance-app'']
                      | Some s \<Rightarrow> if s = ''all'' then [''idp'', ''gateway'', ''docs-app'', ''finance-app''] else [s])
      in if list_ex (\<lambda>name. blocking (collect_findings C cfg name h) \<noteq> []) services then 1 else 0)"

text \<open>\<open>serve\<close> runs the checks in strict mode and lets the exit through.\<close>

definition preflight_outcome :: "ca_prims \<Rightarrow> config \<Rightarrow> string \<Rightarrow> host \<Rightarrow> string + unit" where
  "preflight_outcome C cfg name h =
     (case run_preflight C cfg name True True h of (Passed _, _) \<Rightarrow> Inr () | _ \<Rightarrow> Inl ''Preflight FAILED'')"

section \<open>What blocks a service\<close>

definition outdated :: "ca_prims \<Rightarrow> host \<Rightarrow> string \<Rightarrow> bool" where
  "outdated C h path \<longleftrightarrow>
     (\<exists>c. Option.bind (kfiles (keys h) path) (parse_cert C) = Some c \<and> of_int (cert_until c) < host_now h)"

definition fit_to_start :: "ca_prims \<Rightarrow> config \<Rightarrow> string \<Rightarrow> host \<Rightarrow> bool" where
  "fit_to_start C cfg name h \<longleftrightarrow>
     (name = ''idp'' \<longrightarrow> on_disk (keys h) JWT_PRIVATE_KEY_PATH) \<and>
     (name \<in> {''idp'', ''gateway''} \<longrightarrow> on_disk (keys h) JWT_PUBLIC_KEY_PATH) \<and>
     (mtls_enabled cfg \<longrightarrow> on_disk (keys h) CA_CERT_PATH \<and> \<not> outdated C h CA_CERT_PATH \<and>
        (\<forall>n \<in> set (service_cert_names (listing h)). \<not> outdated C h (SERVICE_CERT_DIR @ ''/'' @ n))) \<and>
     writable h LOG_DIR \<and> writable h STATE_DIR \<and>
     (\<exists>bytes text v. policies_file h = Some bytes \<and> utf8_decode bytes = Some text \<and> json_loads text = Some v)"

lemma blocking_append [simp]: "blocking (xs @ ys) = blocking xs @ blocking ys"
  by (simp add: blocking_def)

lemma blocking_simps [simp]:
  "blocking [] = []" "blocking ((Err, c) # fs) = (Err, c) # blocking fs" "blocking ((Warn, c) # fs) = blocking fs"
  by (simp_all add: blocking_def)

lemma blocking_concat: "blocking (concat fss) = [] \<longleftrightarrow> (\<forall>fs \<in> set fss. blocking fs = [])"
  by (induction fss) auto

lemma blocking_expiry: "blocking (cert_expiry_findings C cfg h path label) = [] \<longleftrightarrow> \<not> outdated C h path"
proof -
  have "outdated C h path \<longleftrightarrow> (\<exists>d < 0. cert_days_left C (host_now h) path (keys h) = Some d)"
    by (simp add: outdated_def cert_days_left_negative)
  moreover have "\<not> on_disk (keys h) path \<Longrightarrow> cert_days_left C (host_now h) path (keys h) = None"
    by (simp add: on_disk_def cert_days_left_def)
  ultimately show ?thesis by (auto simp: cert_expiry_findings_def split: option.splits)
qed

lemma blocking_none: "blocking (collect_findings C cfg name h) = [] \<longleftrightarrow> fit_to_start C cfg name h"
proof -
  have "blocking (policy_findings h) = [] \<longleftrightarrow>
      (\<exists>bytes text v. policies_file h = Some bytes \<and> utf8_decode bytes = Some text \<and> json_loads text = Some v)"
    by (auto simp: policy_findings_def bind_eq_Some_conv split: option.splits)
  moreover have "blocking (mtls_findings C cfg h) = [] \<longleftrightarrow>
      (mtls_enabled cfg \<longrightarrow> on_disk (keys h) CA_CERT_PATH \<and> \<not> outdated C h CA_CERT_PATH \<and>
        (\<forall>n \<in> set (service_cert_names (listing h)). \<not> outdated C h (SERVICE_CERT_DIR @ ''/'' @ n)))"
    by (auto simp: mtls_findings_def blocking_concat blocking_expiry)
  moreover have "blocking (posture_findings cfg) = []" by (simp add: posture_findings_def)
  ultimately show ?thesis
    by (auto simp: collect_findings_def jwt_findings_def check_writable_dir_def tls_scheme_def fit_to_start_def)
qed

lemma preflight_passes: "fst (run_preflight C cfg name True e h) = Passed fs \<longleftrightarrow> fit_to_start C cfg name h \<and> fs = collect_findings C cfg name h"
  by (auto simp: run_preflight_def Let_def blocking_none)

lemma preflight_outcome_Inr: "preflight_outcome C cfg name h = Inr () \<longleftrightarrow> fit_to_start C cfg name h"
  by (auto simp: preflight_outcome_def run_preflight_def Let_def blocking_none)

section \<open>Provisioning makes a host fit\<close>

definition leaf_validity :: int where "leaf_validity = 825 * one_day"

text \<open>All key material is in place, and every certificate that can be read is good until \<open>e\<close>.\<close>

definition provisioned :: "ca_prims \<Rightarrow> int \<Rightarrow> keystore \<Rightarrow> bool" where
  "provisioned C e s \<longleftrightarrow> on_disk s JWT_PRIVATE_KEY_PATH \<and> on_disk s JWT_PUBLIC_KEY_PATH \<and> on_disk s CA_KEY_PATH \<and> on_disk s CA_CERT_PATH \<and>
     (\<forall>p c. p \<in> insert CA_CERT_PATH (range service_cert_path) \<and> Option.bind (kfiles s p) (parse_cert C) = Some c \<longrightarrow> e \<le> cert_until c)"

lemma fresh_keys_provisioned:
  assumes "crypto_ok C" and "\<not> on_disk s CA_KEY_PATH" and "\<forall>n. \<not> on_disk s (service_cert_path n)"
  shows "provisioned C (t + leaf_validity) (ensure_jwt_keypair C (ensure_ca C t s))"
proof -
  let ?c = "ca_certificate C (gen_key C (generated s)) t" and ?u = "ensure_ca C t s"
  have ca: "kfiles ?u CA_CERT_PATH = Some (cert_pem C ?c)" "on_disk ?u CA_KEY_PATH" "\<forall>n. \<not> on_disk ?u (service_cert_path n)"
    using assms(2,3) by (simp_all add: ensure_ca_def generate_key_def)
  have "CA_KEY_PATH \<notin> {JWT_PRIVATE_KEY_PATH, JWT_PUBLIC_KEY_PATH}" "CA_CERT_PATH \<notin> {JWT_PRIVATE_KEY_PATH, JWT_PUBLIC_KEY_PATH}"
    by (simp_all add: path_defs)
  then have same: "kfiles (ensure_jwt_keypair C ?u) p = kfiles ?u p" if "p \<in> {CA_KEY_PATH, CA_CERT_PATH} \<union> range service_cert_path" for p
    using that by (auto simp: ensure_jwt_keypair_def generate_key_def)
  have "kfiles (ensure_jwt_keypair C ?u) (service_cert_path n) = None" for n
    using same [of "service_cert_path n"] ca(3) by (simp add: on_disk_def)
  moreover have "kfiles (ensure_jwt_keypair C ?u) CA_CERT_PATH = Some (cert_pem C ?c)" "on_disk (ensure_jwt_keypair C ?u) CA_KEY_PATH"
    using same [of CA_CERT_PATH] same [of CA_KEY_PATH] ca(1,2) by (simp_all add: on_disk_def)
  moreover have "on_disk (ensure_jwt_keypair C ?u) JWT_PRIVATE_KEY_PATH" "on_disk (ensure_jwt_keypair C ?u) JWT_PUBLIC_KEY_PATH"
    by (auto simp: ensure_jwt_keypair_def generate_key_def)
  moreover have "parse_cert C (cert_pem C ?c) = Some ?c" using assms(1) by (simp add: crypto_ok_def)
  moreover have "t + leaf_validity \<le> cert_until ?c" by (simp add: ca_certificate_def leaf_validity_def one_day_def)
  ultimately show ?thesis by (auto simp: provisioned_def on_disk_def)
qed

lemma issue_keeps_provisioned:
  assumes "issue_cert C name is_client required t s = (Inr kc, s')" and "provisioned C (t + leaf_validity) s" and "crypto_ok C"
  shows "provisioned C (t + leaf_validity) s'"
proof -
  obtain kp cp where kc: "kc = (kp, cp)" by (cases kc)
  from assms(1) [unfolded kc] show ?thesis
  proof (cases rule: issue_cert_cases)
    case (issued k ca s1)
    have "s1 = s"
      using load_ca_Inr(1) [OF issued(3)] assms(2) by (simp add: ensure_ca_def provisioned_def)
    moreover have "t + leaf_validity \<le> cert_until (leaf_certificate C k name ca required is_client key t)" for key
      by (simp add: leaf_certificate_def leaf_validity_def)
    moreover have "parse_cert C (cert_pem C c) = Some c" for c using assms(3) by (simp add: crypto_ok_def)
    ultimately show ?thesis
      using assms(2) issued(1,2,4) by (auto simp: provisioned_def split: if_splits)
  qed (use assms(2) in simp)
qed

lemma write_keeps_provisioned:
  assumes "provisioned C e s" and "absolute p"
  shows "provisioned C e (write_file p c s)"
proof -
  have "p \<noteq> q" if "\<not> absolute q" for q using that assms(2) by blast
  then have "p \<notin> {JWT_PRIVATE_KEY_PATH, JWT_PUBLIC_KEY_PATH, CA_KEY_PATH, CA_CERT_PATH} \<union> range service_cert_path"
    using key_paths_relative by blast
  with assms(1) show ?thesis by (auto simp: provisioned_def)
qed

lemma prov_main_provisions:
  assumes "crypto_ok C" and "\<not> on_disk s CA_KEY_PATH" and "\<forall>n. \<not> on_disk s (service_cert_path n)"
    and "prov_main C env_sans t a s = (Inr (), s')" and "absolute (out_dir a)"
  shows "provisioned C (t + leaf_validity) s'"
proof (rule prov_main_keeps [OF assms(4,5)])
  show "provisioned C (t + leaf_validity) (ensure_jwt_keypair C (ensure_ca C t s))"
    by (rule fresh_keys_provisioned [OF assms(1-3)])
  show "provisioned C (t + leaf_validity) u'"
    if "issue_cert C name is_client required t u = (Inr kc, u')" "provisioned C (t + leaf_validity) u"
    for name is_client required u kc u'
    by (rule issue_keeps_provisioned [OF that assms(1)])
qed (rule write_keeps_provisioned)

lemma service_cert_name: "endswith n cert_suffix \<Longrightarrow> SERVICE_CERT_DIR @ ''/'' @ n = service_cert_path (cert_label n)"
proof -
  assume "endswith n cert_suffix"
  then obtain r where "rev n = rev cert_suffix @ r" by (auto simp: endswith_def startswith_iff)
  then have "n = rev r @ cert_suffix" by (metis rev_append rev_rev_ident)
  then show ?thesis by (simp add: cert_label_def service_cert_path_def cert_suffix_def)
qed

lemma provisioned_fit:
  assumes "provisioned C e (keys h)" and "host_now h \<le> of_int e" and "writable h LOG_DIR" and "writable h STATE_DIR"
    and "policies_file h = Some bytes" and "utf8_decode bytes = Some json" and "json_loads json = Some v"
  shows "fit_to_start C cfg name h"
proof -
  have good: "\<not> outdated C h p" if "p \<in> insert CA_CERT_PATH (range service_cert_path)" for p
  proof
    assume "outdated C h p"
    then obtain c where "Option.bind (kfiles (keys h) p) (parse_cert C) = Some c" "of_int (cert_until c) < host_now h"
      by (auto simp: outdated_def)
    moreover from this(1) that assms(1) have "e \<le> cert_until c" unfolding provisioned_def by blast
    ultimately show False using assms(2) by linarith
  qed
  have "SERVICE_CERT_DIR @ ''/'' @ n \<in> range service_cert_path" if "n \<in> set (service_cert_names (listing h))" for n
    using that service_cert_name by (cases "listing h") (auto simp: service_cert_names_def)
  with good have "\<forall>n \<in> set (service_cert_names (listing h)). \<not> outdated C h (SERVICE_CERT_DIR @ ''/'' @ n)" by blast
  with good assms show ?thesis by (auto simp: fit_to_start_def provisioned_def)
qed

section \<open>Properties\<close>


text \<open>
  After provisioning a host that had no certificates, every service passes its checks until the 825 days of the
  leaf certificates are over.
\<close>

theorem provisioned_host_passes_preflight:
  assumes "crypto_ok C" and "\<not> on_disk s CA_KEY_PATH" and "\<forall>n. \<not> on_disk s (service_cert_path n)"
    and "prov_main C env_sans t a s = (Inr (), keys h)" and "absolute (out_dir a)"
    and "host_now h \<le> of_int (t + 825 * one_day)" and "writable h LOG_DIR" and "writable h STATE_DIR"
    and "policies_file h = Some bytes" and "utf8_decode bytes = Some json" and "json_loads json = Some v"
  shows "fst (run_preflight C cfg name True e h) = Passed (collect_findings C cfg name h)"
proof -
  have "provisioned C (t + leaf_validity) (keys h)" by (rule prov_main_provisions [OF assms(1-5)])
  from provisioned_fit [OF this _ assms(7-11)] assms(6) have "fit_to_start C cfg name h" by (simp add: leaf_validity_def)
  then show ?thesis by (simp add: preflight_passes)
qed

text \<open>
  Rotating the signing keys takes the system down: afterwards the checks of the IdP and of the Gateway refuse to start them.
\<close>

theorem jwt_rotation_stops_the_services:
  assumes "agreed q" and "rotate_main C Jwt q (keys h) = (r, s')" and "name \<in> {''idp'', ''gateway''}"
  shows "fst (run_preflight C' cfg name True True (h\<lparr>keys := s'\<rparr>)) = Exits 2"
proof -
  let ?q = "q\<lparr>rot_names := None\<rparr>"
  have "rotate_main C Jwt ?q (keys h) = (r, s')" "agreed ?q"
    using assms(1,2) by (simp_all add: rotate_main_eq agreed_def rotated_paths_def)
  from rotation_moves [OF this(2) _ this(1)] have "\<not> on_disk s' JWT_PUBLIC_KEY_PATH"
    by (simp add: plain_names_def rotated_paths_def on_disk_def)
  with assms(3) have "\<not> fit_to_start C' cfg name (h\<lparr>keys := s'\<rparr>)" by (auto simp: fit_to_start_def)
  then show ?thesis by (simp add: run_preflight_def Let_def blocking_none)
qed

section \<open>Witnesses\<close>

definition lab_host :: "keystore \<Rightarrow> host" where
  "lab_host s = \<lparr>keys = s, listing = Some [''idp_key.pem'', ''idp_cert.pem''], policies_file = Some ''{}'', writable = (\<lambda>_. True), host_now = 100\<rparr>"

lemma empty_policies: "utf8_decode ''{}'' = Some ''{}''" "json_loads ''{}'' = Some (PyDict [])"
  by code_simp+

lemma lab_host_fit:
  obtains s' where "prov_main toy_ca [] 5 lab empty_keys = (Inr (), s')" "fit_to_start toy_ca default_config name (lab_host s')"
proof -
  obtain s' where run: "prov_main toy_ca [] 5 lab empty_keys = (Inr (), s')" using lab_provisioned by blast
  have "crypto_ok toy_ca" using toy_parse_pem by (simp add: crypto_ok_def) (simp add: toy_ca_def)
  then have "provisioned toy_ca (5 + leaf_validity) (keys (lab_host s'))"
    using prov_main_provisions [OF _ _ _ run]
    by (simp add: lab_host_def on_disk_def empty_keys_def lab_def absolute_def)
  then have "fit_to_start toy_ca default_config name (lab_host s')"
    by (rule provisioned_fit [where bytes = "''{}''" and json = "''{}''" and v = "PyDict []"])
      (simp_all add: lab_host_def empty_policies leaf_validity_def one_day_def)
  with run show thesis by (rule that)
qed


theorem provisioned_host_passes_preflight_witness:
  "\<exists>s' fs. prov_main toy_ca [] 5 lab empty_keys = (Inr (), s') \<and>
     fst (run_preflight toy_ca default_config ''gateway'' True True (lab_host s')) = Passed fs"
proof -
  obtain s' where "prov_main toy_ca [] 5 lab empty_keys = (Inr (), s')" using lab_provisioned by blast
  then have run: "prov_main toy_ca [] 5 lab empty_keys = (Inr (), keys (lab_host s'))" by (simp add: lab_host_def)
  have "crypto_ok toy_ca" using toy_parse_pem by (simp add: crypto_ok_def) (simp add: toy_ca_def)
  from provisioned_host_passes_preflight [OF this _ _ run, where bytes = "''{}''" and json = "''{}''" and v = "PyDict []"] run
  show ?thesis
    by (fastforce simp: lab_host_def on_disk_def empty_keys_def lab_def absolute_def one_day_def empty_policies)
qed

theorem jwt_rotation_stops_the_services_witness:
  "\<exists>s' u. prov_main toy_ca [] 5 lab empty_keys = (Inr (), s') \<and> rotate_main toy_ca Jwt jwt_rotation s' = (SystemExit 2, u) \<and>
     fst (run_preflight toy_ca default_config ''idp'' True True (lab_host u)) = Exits 2"
proof -
  obtain s' where prov: "prov_main toy_ca [] 5 lab empty_keys = (Inr (), s')" using lab_provisioned by blast
  have "confirmed '' Yes ''" by code_simp
  then have agreed: "agreed jwt_rotation" by (simp add: agreed_def jwt_rotation_def)
  obtain u where run: "rotate_main toy_ca Jwt jwt_rotation (keys (lab_host s')) = (SystemExit 2, u)"
    using agreed by (simp add: rotate_main_eq)
  have "lab_host s'\<lparr>keys := u\<rparr> = lab_host u" by (simp add: lab_host_def)
  with jwt_rotation_stops_the_services [OF agreed run, of "''idp''" toy_ca default_config] prov run show ?thesis
    by (auto simp: lab_host_def)
qed

end
