(* ===== verification/ManageDevices.thy ===== *)
theory ManageDevices
  imports DeviceRegistry Revocation
begin

text \<open>
  \<open>tools/manage_devices.py\<close>: the administrator's commands on the device registry. They work on the
  records of the registry and, when a device is revoked, on the files of issued and revoked tokens.
  What is printed is data: rows of a table, and pairs of a label and a value.
\<close>

record admin =
  registry_store :: store
  token_disk :: disk

section \<open>Looking\<close>

text \<open>The sort key of the list: \<open>enrolled_at\<close>, or 0; a value that is no number does not compare.\<close>

definition enrolled_key :: "pyval \<Rightarrow> real res" where
  "enrolled_key r =
     ebind (as_dict r) (\<lambda>e. case num_of (dget_or e ''enrolled_at'' (PyInt 0)) of Some (Fin x) \<Rightarrow> Inr x | _ \<Rightarrow> Inl TypeError)"

definition is_pending :: "pyval \<Rightarrow> bool" where
  "is_pending r = (case r of PyDict e \<Rightarrow> py_eq (dget e ''status'') STATUS_PENDING | _ \<Rightarrow> False)"

text \<open>
  \<open>cmd_list\<close>: the rows in the order of enrolment, and the number of devices that wait for approval.
\<close>

definition cmd_list :: "bool \<Rightarrow> store \<Rightarrow> (pyval list \<times> nat) res" where
  "cmd_list pending_only st =
     (let devices = list_devices st in
      if devices = [] then Inr ([], 0)
      else ebind (emap (\<lambda>r. ebind (enrolled_key r) (\<lambda>k. Inr (k, r))) (map snd devices)) (\<lambda>keyed.
        let rows = map snd (sort_key fst keyed);
            shown = (if pending_only then filter is_pending rows else rows)
        in Inr (shown, if pending_only \<and> shown = [] then 0 else length (filter is_pending (map snd devices)))))"

text \<open>\<open>cmd_show\<close>: the exit status and the lines; a time is shown as stored.\<close>

definition show_lines :: "dict \<Rightarrow> (string \<times> pyval) list" where
  "show_lines e =
     [(''device_id'', dget e ''device_id''), (''status'', dget e ''status''), (''thumbprint'', dget e ''thumbprint''),
      (''enrolled_at'', dget e ''enrolled_at''), (''approved_at'', dget e ''approved_at''),
      (''approved_by'', py_or (dget e ''approved_by'') (PyStr ''-''))] @
     (if py_truth (dget e ''previous_thumbprint'') then [(''previous'', dget e ''previous_thumbprint'')] else []) @
     (if py_eq (dget e ''status'') STATUS_REVOKED
      then [(''revoked_at'', dget e ''revoked_at''), (''revoked_by'', dget e ''revoked_by''),
            (''revoked_reason'', py_or (dget e ''revoked_reason'') (PyStr ''-''))]
      else []) @
     [(''public key'', dget_or e ''public_key_pem'' (PyStr []))]"

definition cmd_show :: "string \<Rightarrow> store \<Rightarrow> (int \<times> (string \<times> pyval) list) res" where
  "cmd_show device_id st =
     ebind (get_device (PyStr device_id) st) (\<lambda>r.
       if \<not> py_truth r then Inr (1, []) else ebind (as_dict r) (\<lambda>e. Inr (0, show_lines e)))"

section \<open>Approving\<close>

text \<open>
  \<open>meanwhile\<close> is what happens to the registry between reading the record, whose thumbprint the
  administrator is shown, and the approval; the prompt is open all that time.
\<close>

definition cmd_approve ::
  "bool \<Rightarrow> string \<Rightarrow> string \<Rightarrow> time \<Rightarrow> (store \<Rightarrow> store) \<Rightarrow> string \<Rightarrow> (store, int) op" where
  "cmd_approve yes answer by now meanwhile device_id st =
     (case get_device (PyStr device_id) st of
        Inl x \<Rightarrow> (Inl x, st)
      | Inr r \<Rightarrow>
          if \<not> py_truth r then (Inr 1, st)
          else (case as_dict r of
              Inl x \<Rightarrow> (Inl x, st)
            | Inr e \<Rightarrow>
                if py_eq (dget e ''status'') STATUS_APPROVED then (Inr 0, st)
                else if \<not> yes \<and> \<not> confirmed answer then (Inr 1, meanwhile st)
                else obind (approve_device device_id by now) (\<lambda>_. oret 0) (meanwhile st)))"

section \<open>Revoking\<close>

text \<open>
  The sweep over the live tokens: those of the device are revoked until the end of their life, and counted.
  A record without a \<open>jti\<close> stops it, and so does one whose \<open>jti\<close> is no string (in the model).
\<close>

definition sweep_reason :: "string \<Rightarrow> string" where
  "sweep_reason device_id = ''device_revoked:'' @ device_id"

fun sweep :: "(nat \<Rightarrow> time \<times> time) \<Rightarrow> string \<Rightarrow> nat \<Rightarrow> pyval list \<Rightarrow> (disk, nat) op" where
  "sweep clk device_id killed [] = oret killed"
| "sweep clk device_id killed (r # rs) =
     obind (olift (as_dict r)) (\<lambda>e.
       if py_eq (dget e ''device_id'') (PyStr device_id) then
         obind (olift (ebind (dreq e ''jti'') jti_string)) (\<lambda>j.
         obind (revoke j (dget e ''exp'') (sweep_reason device_id) (fst (clk killed)) (snd (clk killed))) (\<lambda>_.
         sweep clk device_id (Suc killed) rs))
       else sweep clk device_id killed rs)"

text \<open>
  The exit status, and what is reported of the tokens: how many were revoked, or \<open>None\<close> for the warning
  that the sweep failed. The device is revoked first.
\<close>

definition cmd_revoke ::
  "string \<Rightarrow> string \<Rightarrow> time \<Rightarrow> time \<Rightarrow> (nat \<Rightarrow> time \<times> time) \<Rightarrow> string \<Rightarrow> (admin, int \<times> nat option) op" where
  "cmd_revoke by reason now now' clk device_id a =
     (case get_device (PyStr device_id) (registry_store a) of
        Inl x \<Rightarrow> (Inl x, a)
      | Inr r \<Rightarrow>
          if \<not> py_truth r then (Inr (1, None), a)
          else obind (on_part registry_store (\<lambda>st a. a\<lparr>registry_store := st\<rparr>) (revoke_device device_id by reason now)) (\<lambda>_ a1.
            case obind (olift (load_all now' (token_disk a1))) (sweep clk device_id 0) (token_disk a1) of
              (Inl x, d) \<Rightarrow> (Inr (0, None), a1\<lparr>token_disk := d\<rparr>)
            | (Inr n, d) \<Rightarrow> (Inr (0, Some n), a1\<lparr>token_disk := d\<rparr>)) a)"

section \<open>The command line\<close>

text \<open>One of the four commands; an empty identifier is given, and counts for none.\<close>

datatype manage_command = ListDevices bool | ShowDevice string | ApproveDevice string | RevokeDevice string string

record manage_env =
  assume_yes :: bool
  typed_answer :: string
  acting_as :: string
  clock_at :: time
  clock_sweep :: time
  clock_revoke :: "nat \<Rightarrow> time \<times> time"

definition manage_main :: "manage_env \<Rightarrow> (store \<Rightarrow> store) \<Rightarrow> manage_command \<Rightarrow> (admin, int) op" where
  "manage_main q meanwhile cmd a =
     (case cmd of
        ListDevices pending_only \<Rightarrow> (ebind (cmd_list pending_only (registry_store a)) (\<lambda>_. Inr 0), a)
      | ShowDevice d \<Rightarrow>
          if d = [] then (Inr 1, a) else (ebind (cmd_show d (registry_store a)) (\<lambda>(n, _). Inr n), a)
      | ApproveDevice d \<Rightarrow>
          if d = [] then (Inr 1, a)
          else on_part registry_store (\<lambda>st a. a\<lparr>registry_store := st\<rparr>)
                 (cmd_approve (assume_yes q) (typed_answer q) (acting_as q) (clock_at q) meanwhile d) a
      | RevokeDevice d why \<Rightarrow>
          if d = [] then (Inr 1, a)
          else obind (cmd_revoke (acting_as q) why (clock_at q) (clock_sweep q) (clock_revoke q) d) (\<lambda>(n, _). oret n) a)"

lemma failed_command:
  assumes "manage_main q id cmd a = (Inr n, a')" and "n \<noteq> 0"
  shows "n = 1 \<and> a' = a"
proof (cases cmd)
  case (ShowDevice d)
  then show ?thesis using assms
    by (auto simp: manage_main_def cmd_show_def ebind_eq_Inr split: if_splits)
next
  case (ApproveDevice d)
  then show ?thesis using assms
    by (auto simp: manage_main_def on_part_def cmd_approve_def obind_def oret_def
        split: if_splits sum.splits prod.splits)
next
  case (RevokeDevice d why)
  then show ?thesis using assms
    by (auto simp: manage_main_def cmd_revoke_def obind_def oret_def on_part_def olift_def split: if_splits sum.splits prod.splits)
qed (use assms in \<open>auto simp: manage_main_def ebind_eq_Inr\<close>)

section \<open>What the sweep does\<close>

text \<open>On records of the module's own shape the sweep revokes as the admin tools' loop does.\<close>

definition for_device :: "string \<Rightarrow> string \<times> string \<times> int \<times> time \<times> pyval \<Rightarrow> bool" where
  "for_device device_id = (\<lambda>(j, u, x, i, dv). dv = PyStr device_id)"

fun sweep_args :: "(nat \<Rightarrow> time \<times> time) \<Rightarrow> string \<Rightarrow> nat \<Rightarrow> (string \<times> string \<times> int \<times> time \<times> pyval) list \<Rightarrow> (string \<times> revoke_args) list" where
  "sweep_args clk device_id n [] = []"
| "sweep_args clk device_id n ((j, u, x, i, dv) # ts) =
     (if dv = PyStr device_id
      then (j, PyInt x, sweep_reason device_id, fst (clk n), snd (clk n)) # sweep_args clk device_id (Suc n) ts
      else sweep_args clk device_id n ts)"

lemma sweep_args_keys: "fst ` set (sweep_args clk device_id n ts) = fst ` set (filter (for_device device_id) ts)"
proof -
  have "map fst (sweep_args clk device_id n ts) = map fst (filter (for_device device_id) ts)"
    by (induction clk device_id n ts rule: sweep_args.induct) (simp_all add: for_device_def)
  then show ?thesis by (metis list.set_map)
qed

lemma sweep_revokes_each:
  "sweep clk device_id n (map token_record ts) d = (r, d') \<Longrightarrow>
   \<exists>q. revoke_each revoke_with (sweep_args clk device_id n ts) d = (q, d') \<and>
     (\<forall>k. r = Inr k \<longrightarrow> q = Inr () \<and> k = n + length (filter (for_device device_id) ts))"
proof (induction ts arbitrary: n d)
  case (Cons t ts)
  obtain j u x i dv where t: "t = (j, u, x, i, dv)" by (cases t)
  show ?case
  proof (cases "dv = PyStr device_id")
    case True
    obtain c1 c2 where clk: "clk n = (c1, c2)" by fastforce
    obtain q d1 where one: "revoke j (PyInt x) (sweep_reason device_id) c1 c2 d = (q, d1)" by fastforce
    show ?thesis
    proof (cases q)
      case (Inl e)
      with Cons.prems one True show ?thesis by (auto simp: t clk as_dict_def dict_simps obind_def)
    next
      case (Inr v)
      with Cons.prems one True have "sweep clk device_id (Suc n) (map token_record ts) d1 = (r, d')"
        by (simp add: t clk as_dict_def dict_simps obind_def)
      from Cons.IH [OF this] one Inr True show ?thesis by (simp add: t clk for_device_def)
    qed
  next
    case False
    with Cons.prems have "sweep clk device_id n (map token_record ts) d = (r, d')"
      by (simp add: t as_dict_def dict_simps)
    from Cons.IH [OF this] False show ?thesis by (simp add: t for_device_def)
  qed
qed (auto simp: oret_def)

lemma load_all_wf:
  assumes "tok_wf ts d"
  shows "load_all now d = Inr (map token_record (filter (\<lambda>(j, u, x, i, dv). now < of_int x) ts))"
proof -
  have "later_than now ''exp'' (token_record t) = Inr ((\<lambda>(j, u, x, i, dv). now < of_int x) t)" for t
    by (cases t) (simp del: token_record.simps)
  from efilter_records [where q = "\<lambda>(j, u, x, i, dv). now < of_int x", OF this] show ?thesis
    using assms by (simp add: load_all_def tok_wf_def)
qed

text \<open>Changing a record that is there either succeeds or raises.\<close>

lemma update_device_found:
  assumes "device_of st k = Some e" and "update_device f k st = (Inr b, st')" and "\<And>e. f e \<noteq> []"
  shows "device_of st' k = Some (f e)"
proof -
  have "store_get st NAMESPACE k PyNone = PyDict e" "e \<noteq> []"
    using assms(1) by (auto simp: device_of_def split: pyval.splits if_splits)
  then have "b = True" using assms(2) by (auto simp: update_device_def split: prod.splits sum.splits)
  with update_device_spec [OF assms(2,3)] assms(1) show ?thesis by auto
qed

lemma device_record:
  "device_of st k = Some e \<Longrightarrow> get_device (PyStr k) st = Inr (PyDict e) \<and> e \<noteq> []"
  by (auto simp: device_of_def get_device_def split: pyval.splits if_splits)

text \<open>An agreed approval of a device that is not approved yet works on the registry as it is after the prompt.\<close>

lemma cmd_approve_agreed:
  assumes "device_of st k = Some e" and "dget e ''status'' \<noteq> STATUS_APPROVED" and "yes \<or> confirmed reply"
    and "device_of (meanwhile st) k = Some e'" and "cmd_approve yes reply who now meanwhile k st = (Inr code, st')"
  shows "code = 0 \<and> (\<exists>e''. device_of st' k = Some e'' \<and> dget e'' ''status'' = STATUS_APPROVED \<and>
    dget e'' ''thumbprint'' = dget e' ''thumbprint'')"
proof -
  obtain b where b: "approve_device k who now (meanwhile st) = (Inr b, st')" "code = 0"
    using assms(2,3,5) device_record [OF assms(1)]
    by (auto simp: cmd_approve_def as_dict_def obind_eq_Inr oret_eq split: if_splits)
  from update_device_found [OF assms(4) b(1) [unfolded approve_device_def]] b(2) show ?thesis
    by (simp add: dict_simps)
qed

section \<open>Properties\<close>

text \<open>
  What the administrator approves is what was shown, provided nothing happened to the device meanwhile: an agreed
  approval that returns leaves it approved with the thumbprint of the record that was read, and a declined one does nothing.
\<close>

theorem approval_of_the_shown_key:
  assumes "device_of st k = Some e" and "dget e ''status'' \<noteq> STATUS_APPROVED" and "dget e ''thumbprint'' = PyStr tp"
    and "device_of (meanwhile st) k = Some e" and "cmd_approve yes reply who now meanwhile k st = (Inr code, st')"
  shows "if yes \<or> confirmed reply then code = 0 \<and> approved_key st' k tp else code = 1 \<and> st' = meanwhile st"
proof (cases "yes \<or> confirmed reply")
  case True
  from cmd_approve_agreed [where meanwhile = meanwhile, OF assms(1,2) True assms(4,5)] True assms(3) show ?thesis
    by (auto simp: approved_key_def)
next
  case False
  then show ?thesis
    using assms(2,5) device_record [OF assms(1)] by (simp add: cmd_approve_def as_dict_def)
qed

text \<open>
  The confirmation does not bind the approval to the key that was shown. If the device enrols again with another
  key while the prompt is open, the administrator who confirms the old thumbprint approves the new key.
\<close>

theorem approval_of_an_unseen_key:
  assumes "require_device_approval cfg" and "device_of st k = Some e" and "dget e ''status'' = STATUS_PENDING"
    and "dget e ''thumbprint'' = PyStr tp" and "key_thumbprint P pem = Inr tp'" and "tp' \<noteq> tp"
    and "register_device P cfg (PyStr k) pem t st = (Inr new, st1)" and "yes \<or> confirmed reply"
    and "cmd_approve yes reply who now (\<lambda>st. snd (register_device P cfg (PyStr k) pem t st)) k st = (Inr code, st')"
  shows "code = 0 \<and> approved_key st' k tp' \<and> \<not> approved_key st' k tp"
proof -
  have "device_of st1 k = Some new" and "\<exists>prev. new = new_record cfg (PyStr k) pem tp' prev t"
    using register_device_spec [OF assms(7)] assms(2,4,5,6) by auto
  then obtain prev where d: "device_of (snd (register_device P cfg (PyStr k) pem t st)) k = Some new"
    and new: "new = new_record cfg (PyStr k) pem tp' prev t"
    by (auto simp: assms(7))
  have tp: "dget new ''thumbprint'' = PyStr tp'" by (simp add: new new_record_def Let_def dict_simps)
  have "dget e ''status'' \<noteq> STATUS_APPROVED" using assms(3) by simp
  from cmd_approve_agreed [OF assms(2) this assms(8), where meanwhile = "\<lambda>st. snd (register_device P cfg (PyStr k) pem t st)",
      OF d assms(9)] assms(6) show ?thesis
    by (auto simp: approved_key_def tp)
qed

text \<open>
  C32: Revoking a device ends its access: if the command reports the number of tokens it revoked, the device is not
  approved any more, every recorded token of the device that has not expired is revoked, the number is right, and the only
  tokens that became revoked are such tokens.
\<close>

theorem revoked_device_loses_its_sessions:
  assumes "rev_wf (token_disk a)" and "tok_wf ts (token_disk a)" and "device_of (registry_store a) k = Some e"
    and "cmd_revoke who why now now' clk k a = (Inr (code, Some n), a')"
  shows "code = 0 \<and> is_approved (PyStr k) (registry_store a') = Inr False \<and>
    n = length (filter (\<lambda>(j, u, x, i, dv). dv = PyStr k \<and> now' < of_int x) ts) \<and>
    (\<forall>(j, u, x, i, dv) \<in> set ts. dv = PyStr k \<and> now' < of_int x \<and> j \<noteq> [] \<longrightarrow> is_revoked (PyStr j) (token_disk a') = Inr True) \<and>
    (\<forall>j. is_revoked (PyStr j) (token_disk a') = Inr True \<longrightarrow> is_revoked (PyStr j) (token_disk a) = Inr True \<or>
       (\<exists>u x i. (j, u, x, i, PyStr k) \<in> set ts \<and> now' < of_int x))"
proof -
  let ?live = "filter (\<lambda>(j, u, x, i, dv). now' < of_int x) ts"
  let ?args = "sweep_args clk k 0 ?live"
  obtain q st1 where q: "revoke_device k who why now (registry_store a) = (q, st1)" by fastforce
  obtain r d where sw: "sweep clk k 0 (map token_record ?live) (token_disk a) = (r, d)" by fastforce
  note res = assms(4) [unfolded cmd_revoke_def]
  obtain b where b: "q = Inr b"
    using res device_record [OF assms(3)] by (cases q) (simp_all add: on_part_def obind_def q)
  then have fin: "(case r of Inl x \<Rightarrow> (Inr (0, None), a\<lparr>registry_store := st1, token_disk := d\<rparr>)
      | Inr n \<Rightarrow> (Inr (0, Some n), a\<lparr>registry_store := st1, token_disk := d\<rparr>)) = (Inr (code, Some n), a')"
    using res device_record [OF assms(3)] by (simp add: on_part_def obind_def q load_all_wf [OF assms(2)] olift_def sw split: sum.splits)
  then have "r = Inr n" and code: "code = 0" and a': "a' = a\<lparr>registry_store := st1, token_disk := d\<rparr>"
    by (auto split: sum.splits)
  with sw q b have dev: "revoke_device k who why now (registry_store a) = (Inr b, st1)"
    and run: "sweep clk k 0 (map token_record ?live) (token_disk a) = (Inr n, token_disk a')"
    and st': "registry_store a' = st1"
    by simp_all
  have "device_of st1 k = Some (dset ''revoked_reason'' (PyStr why) (dset ''revoked_by'' (PyStr who)
       (dset ''revoked_at'' (PyFloat (Fin now)) (dset ''status'' STATUS_REVOKED e))))"
    by (rule update_device_found [OF assms(3) dev [unfolded revoke_device_def]]) simp
  from device_record [OF this] have off: "is_approved (PyStr k) st1 = Inr False"
    by (simp add: is_approved_def has_status_def as_dict_def dict_simps)
  have each: "revoke_each revoke_with ?args (token_disk a) = (Inr (), token_disk a')"
    and n: "n = length (filter (for_device k) ?live)"
    using sweep_revokes_each [OF run] by auto
  have keys: "fst ` set ?args = fst ` set (filter (for_device k) ?live)" by (rule sweep_args_keys)
  have "is_revoked (PyStr j) (token_disk a') = Inr True" if "(j, u, x, i, PyStr k) \<in> set ts" "now' < of_int x" "j \<noteq> []" for j u x i
  proof -
    have "j \<in> fst ` set ?args" unfolding keys using that(1,2) by (force simp: for_device_def)
    then obtain args where "(j, args) \<in> set ?args" by force
    then show ?thesis using rev.revoke_each_all [OF assms(1) each _ that(3)] by (simp add: on_list_def)
  qed
  moreover have "is_revoked (PyStr j) (token_disk a) = Inr True \<or> (\<exists>u x i. (j, u, x, i, PyStr k) \<in> set ts \<and> now' < of_int x)"
    if "is_revoked (PyStr j) (token_disk a') = Inr True" for j
  proof (cases "j \<in> fst ` set ?args")
    case True
    then have "\<exists>u x i. (j, u, x, i, PyStr k) \<in> set ts \<and> now' < of_int x" unfolding keys by (auto simp: for_device_def) blast
    then show ?thesis ..
  next
    case False
    then show ?thesis using rev.revoke_each_only [OF assms(1) each, of j] that by (simp add: on_list_def)
  qed
  moreover have "filter (for_device k) ?live = filter (\<lambda>(j, u, x, i, dv). dv = PyStr k \<and> now' < of_int x) ts"
    by (auto simp: for_device_def intro!: filter_cong)
  ultimately show ?thesis using code off n st' by auto
qed

text \<open>
  A command that fails changes nothing: whenever \<open>main\<close> exits with a status other than 0, the status is 1 and the registry, the issued and
  the revoked tokens are as they were.
\<close>

theorem failed_command_changes_nothing:
  assumes "manage_main q id cmd a = (Inr n, a')" and "n \<noteq> 0"
  shows "n = 1 \<and> a' = a"
  by (rule failed_command [OF assms])

section \<open>Witnesses\<close>

definition old_laptop :: dict where
  "old_laptop = [(''thumbprint'', PyStr ''0ld''), (''status'', STATUS_PENDING)]"

definition laptop_store :: store where
  "laptop_store = \<lparr>backend = MemoryBackend [(NAMESPACE, [(''lap'', PyDict old_laptop)])], disk = empty_disk\<rparr>"

lemma laptop_waits:
  "device_of laptop_store ''lap'' = Some old_laptop" "dget old_laptop ''status'' = STATUS_PENDING"
  "dget old_laptop ''thumbprint'' = PyStr ''0ld''"
  by (simp_all add: device_of_def laptop_store_def old_laptop_def run_memory dict_simps)

lemma yes_confirms: "confirmed ''y''"
  by code_simp

lemma laptop_approval:
  assumes "device_of (meanwhile laptop_store) ''lap'' \<noteq> None" and "\<exists>m. backend (meanwhile laptop_store) = MemoryBackend m"
  shows "\<exists>code st'. cmd_approve False ''y'' ''admin'' 9 meanwhile ''lap'' laptop_store = (Inr code, st')"
  using assms laptop_waits(2) device_record [OF laptop_waits(1)] yes_confirms
  by (auto simp: cmd_approve_def as_dict_def obind_def approve_device_def update_device_def run_memory oret_def device_of_def Let_def
      split: pyval.splits if_splits)

theorem approval_of_the_shown_key_witness:
  "\<exists>code st'. cmd_approve False ''y'' ''admin'' 9 id ''lap'' laptop_store = (Inr code, st') \<and> approved_key st' ''lap'' ''0ld''"
proof -
  have "device_of (id laptop_store) ''lap'' = Some old_laptop" "\<exists>m. backend (id laptop_store) = MemoryBackend m"
    by (simp_all add: laptop_waits) (simp add: laptop_store_def)
  moreover from this laptop_approval [of id] obtain code st' where
    "cmd_approve False ''y'' ''admin'' 9 id ''lap'' laptop_store = (Inr code, st')" by auto
  ultimately show ?thesis
    using approval_of_the_shown_key [where meanwhile = id, OF laptop_waits(1) _ laptop_waits(3)] laptop_waits(2) yes_confirms by fastforce
qed

theorem approval_of_an_unseen_key_witness:
  "\<exists>code st'. cmd_approve False ''y'' ''admin'' 9
      (\<lambda>st. snd (register_device (toy_prims []) default_config (PyStr ''lap'') (PyStr ''stolen'') 8 st)) ''lap'' laptop_store = (Inr code, st') \<and>
    approved_key st' ''lap'' (sha256_hex ''stolen'')"
proof -
  let ?m = "\<lambda>st. snd (register_device (toy_prims []) default_config (PyStr ''lap'') (PyStr ''stolen'') 8 st)"
  have tp: "key_thumbprint (toy_prims []) (PyStr ''stolen'') = Inr (sha256_hex ''stolen'')"
    by (simp add: key_thumbprint_def as_str_def toy_prims_def)
  have neq: "sha256_hex ''stolen'' \<noteq> ''0ld''"
  proof
    assume "sha256_hex ''stolen'' = ''0ld''"
    from length_sha256_hex [of "''stolen''", unfolded this] show False by simp
  qed
  then obtain new st1 where reg: "register_device (toy_prims []) default_config (PyStr ''lap'') (PyStr ''stolen'') 8 laptop_store = (Inr new, st1)"
    and mem: "\<exists>m. backend st1 = MemoryBackend m"
    by (simp add: register_device_def tp laptop_store_def run_memory old_laptop_def as_dict_def dict_simps)
  then have "device_of (?m laptop_store) ''lap'' \<noteq> None"
    using register_device_spec [OF reg] by auto
  then obtain code st' where run: "cmd_approve False ''y'' ''admin'' 9 ?m ''lap'' laptop_store = (Inr code, st')"
    using laptop_approval [of ?m] mem reg by auto
  have "require_device_approval default_config" by (simp add: default_config_def)
  from approval_of_an_unseen_key [OF this laptop_waits(1,2,3) tp neq reg _ run] yes_confirms run show ?thesis by blast
qed

definition laptop_admin :: admin where
  "laptop_admin = \<lparr>registry_store = laptop_store, token_disk = empty_disk\<lparr>files := [ISSUED_TOKENS_PATH \<mapsto>
     Json (PyList (map token_record [(''t1'', ''bob'', 50, 5, PyStr ''lap''), (''t2'', ''eve'', 60, 6, PyNone)]))]\<rparr>\<rparr>"

theorem revoked_device_loses_its_sessions_witness:
  "\<exists>code n a'. cmd_revoke ''admin'' ''stolen'' 9 10 (\<lambda>_. (10, 10)) ''lap'' laptop_admin = (Inr (code, Some n), a') \<and>
     is_revoked (PyStr ''t1'') (token_disk a') = Inr True"
proof -
  let ?ts = "[(''t1'', ''bob'', 50, 5, PyStr ''lap''), (''t2'', ''eve'', 60, 6, PyNone)] :: (string \<times> string \<times> int \<times> time \<times> pyval) list"
  let ?d = "token_disk laptop_admin"
  have wf: "rev_wf ?d" "tok_wf ?ts ?d"
    by (simp_all add: laptop_admin_def rev_wf_def rev_load_def tok_wf_def tok_load_def)
  have dev: "device_of (registry_store laptop_admin) ''lap'' = Some old_laptop"
    by (simp add: laptop_admin_def laptop_waits)
  have "healthy ?d" "rev_load ?d = PyDict []"
    by (simp_all add: laptop_admin_def empty_disk_def healthy_def rev_load_def)
  then obtain d where "revoke ''t1'' (PyInt 50) (sweep_reason ''lap'') 10 10 ?d = (Inr (), d)"
    using atomic_write_healthy by (fastforce simp: revoke_def rev_save_def)
  then have sw: "sweep (\<lambda>_. (10, 10)) ''lap'' 0 (map token_record ?ts) ?d = (Inr 1, d)"
    by (simp add: as_dict_def dict_simps obind_def oret_def)
  have "\<exists>st1. revoke_device ''lap'' ''admin'' ''stolen'' 9 laptop_store = (Inr True, st1)"
    by (simp add: revoke_device_def update_device_def laptop_store_def old_laptop_def run_memory Let_def dict_simps)
  then obtain st1 where rd: "revoke_device ''lap'' ''admin'' ''stolen'' 9 (registry_store laptop_admin) = (Inr True, st1)"
    by (auto simp: laptop_admin_def)
  have "load_all 10 ?d = Inr (map token_record ?ts)"
    using load_all_wf [OF wf(2), of 10] by simp
  then have run: "cmd_revoke ''admin'' ''stolen'' 9 10 (\<lambda>_. (10, 10)) ''lap'' laptop_admin =
      (Inr (0, Some 1), laptop_admin\<lparr>registry_store := st1, token_disk := d\<rparr>)"
    using device_record [OF dev] by (simp add: cmd_revoke_def on_part_def obind_def rd olift_def sw del: list.map)
  from revoked_device_loses_its_sessions [OF wf dev run] run show ?thesis by auto
qed

theorem failed_command_changes_nothing_witness:
  "manage_main \<lparr>assume_yes = False, typed_answer = ''no'', acting_as = ''admin'', clock_at = 0, clock_sweep = 0, clock_revoke = (\<lambda>_. (0, 0))\<rparr>
     id (ShowDevice []) laptop_admin = (Inr 1, laptop_admin)"
proof -
  let ?q = "\<lparr>assume_yes = False, typed_answer = ''no'', acting_as = ''admin'', clock_at = 0, clock_sweep = 0, clock_revoke = (\<lambda>_. (0, 0))\<rparr>"
  obtain a' where run: "manage_main ?q id (ShowDevice []) laptop_admin = (Inr 1, a')" by (simp add: manage_main_def)
  from failed_command_changes_nothing [OF run] run show ?thesis by simp
qed

end
