(* ===== verification/BackupAuditLog.thy ===== *)
theory BackupAuditLog
  imports AuditLog JsonReader
begin

text \<open>
  \<open>tools/backup_audit_log.py\<close>: backup, verification and restoring of the audit log, over the bytes of the
  log files and the contents of the manifests (\<open>None\<close> for a manifest that is not JSON). The lines of a file are
  what \<open>open(..., encoding="utf-8")\<close> iterates over. That the disk is full or a file may not be written is
  not modelled.
\<close>

record vault =
  vfiles :: "string \<rightharpoonup> string"
  manifests :: "string \<rightharpoonup> pyval option"

definition ACCESS_LOG_PATH :: string where "ACCESS_LOG_PATH = ''logs/access_log.jsonl''"
definition BACKUP_DIR :: string where "BACKUP_DIR = ''logs/backups''"

definition backup_path :: "string \<Rightarrow> string" where
  "backup_path stamp = BACKUP_DIR @ ''/access_log-'' @ stamp @ ''.jsonl''"

definition pre_restore_path :: "string \<Rightarrow> string" where
  "pre_restore_path stamp = BACKUP_DIR @ ''/access_log-pre-restore-'' @ stamp @ ''.jsonl''"

definition manifest_path :: "string \<Rightarrow> string" where
  "manifest_path path = path @ ''.manifest.json''"

section \<open>Reading a log file\<close>

definition line_of :: "string \<Rightarrow> log_line" where
  "line_of s = (let w = strip s in if w = [] then Blank else case json_loads w of None \<Rightarrow> Garbage | Some v \<Rightarrow> Line v)"

definition lines_of :: "string \<Rightarrow> log_line list res" where
  "lines_of bytes =
     (case utf8_decode bytes of
        None \<Rightarrow> Inl ValueError
      | Some text \<Rightarrow> Inr (map line_of (split_on (CHR 0x0A) (universal_newlines text))))"

definition read_events_from :: "string \<Rightarrow> vault \<Rightarrow> pyval list res" where
  "read_events_from path v =
     (case vfiles v path of
        None \<Rightarrow> Inr []
      | Some bytes \<Rightarrow> ebind (lines_of bytes) (\<lambda>ls. Inr (List.map_filter line_value ls)))"

text \<open>The events of a file and the outcome of verifying their chain.\<close>

definition inspect :: "(real \<Rightarrow> string) \<Rightarrow> string \<Rightarrow> vault \<Rightarrow> (pyval list \<times> verdict) res" where
  "inspect fr path v = ebind (read_events_from path v) (\<lambda>vs. ebind (verify_events_chain fr vs) (\<lambda>r. Inr (vs, r)))"

definition intact :: "verdict \<Rightarrow> bool" where
  "intact r = (case r of Intact _ \<Rightarrow> True | Broken _ _ _ \<Rightarrow> False)"

section \<open>Backup\<close>

definition head_hash :: "pyval list \<Rightarrow> pyval res" where
  "head_hash vs = (if vs = [] then Inr (PyStr GENESIS_HASH) else ebind (as_dict (last vs)) (\<lambda>e. Inr (dget e ''hash'')))"

text \<open>The head hash is shown as \<open>head_hash[:32]\<close>, which wants a string or a list.\<close>

definition sliceable :: "pyval \<Rightarrow> unit res" where
  "sliceable v = (case v of PyStr _ \<Rightarrow> Inr () | PyList _ \<Rightarrow> Inr () | _ \<Rightarrow> Inl TypeError)"

text \<open>The details of the verification; the two hashes that the first reason quotes are left out.\<close>

definition chain_detail :: "verdict \<Rightarrow> pyval" where
  "chain_detail r =
     (case r of
        Intact n \<Rightarrow> PyDict [(''count'', PyInt (int n))]
      | Broken i why n \<Rightarrow> PyDict [(''break_line'', PyInt (int i)),
          (''reason'', PyStr (case why of PrevMismatch \<Rightarrow> ''prev_hash mismatch''
             | HashMismatch \<Rightarrow> ''hash does not match recomputed value -- content was likely edited'')),
          (''count'', PyInt (int n))])"

definition manifest :: "time \<Rightarrow> string \<Rightarrow> string \<Rightarrow> nat \<Rightarrow> verdict \<Rightarrow> pyval \<Rightarrow> string \<Rightarrow> dict" where
  "manifest now created dest n r head bytes =
     [(''created_at'', PyFloat (Fin now)), (''created_at_iso'', PyStr created), (''source'', PyStr ACCESS_LOG_PATH),
      (''backup'', PyStr dest), (''event_count'', PyInt (int n)), (''chain_intact'', PyBool (intact r)),
      (''chain_detail'', chain_detail r), (''chain_head_hash'', head), (''file_sha256'', PyStr (sha256_hex bytes))]"

text \<open>From the copy on; \<open>n\<close> is the number of events read before.\<close>

definition copy_and_check :: "(real \<Rightarrow> string) \<Rightarrow> string \<Rightarrow> time \<Rightarrow> string \<Rightarrow> nat \<Rightarrow> (vault, int) op" where
  "copy_and_check fr stamp now created n v =
     (case vfiles v ACCESS_LOG_PATH of
        None \<Rightarrow> (Inl OSError, v)
      | Some bytes \<Rightarrow>
          (let dest = backup_path stamp; v1 = v\<lparr>vfiles := (vfiles v)(dest \<mapsto> bytes)\<rparr> in
           case inspect fr dest v1 of
             Inl x \<Rightarrow> (Inl x, v1)
           | Inr (vs, r) \<Rightarrow>
               if length vs \<noteq> n then (Inr 1, v1\<lparr>vfiles := (vfiles v1)(dest := None)\<rparr>)
               else (case head_hash vs of
                   Inl x \<Rightarrow> (Inl x, v1)
                 | Inr head \<Rightarrow>
                     (ebind (sliceable head) (\<lambda>_. Inr (if intact r then 0 else 2)),
                      v1\<lparr>manifests := (manifests v1)(manifest_path dest \<mapsto> Some (PyDict (manifest now created dest n r head bytes)))\<rparr>))))"

text \<open>\<open>meanwhile\<close> is what the services do to the log between its first reading and the copy.\<close>

definition cmd_backup ::
  "(real \<Rightarrow> string) \<Rightarrow> bool \<Rightarrow> string \<Rightarrow> string \<Rightarrow> time \<Rightarrow> string \<Rightarrow> (vault \<Rightarrow> vault) \<Rightarrow> (vault, int) op" where
  "cmd_backup fr yes answer stamp now created meanwhile v =
     (if vfiles v ACCESS_LOG_PATH = None then (Inr 1, v)
      else case inspect fr ACCESS_LOG_PATH v of
        Inl x \<Rightarrow> (Inl x, v)
      | Inr (vs, r) \<Rightarrow>
          if \<not> intact r \<and> \<not> yes \<and> \<not> confirmed answer then (Inr 1, v)
          else copy_and_check fr stamp now created (length vs) (meanwhile v))"

section \<open>Verifying, listing, restoring\<close>

definition cmd_verify :: "(real \<Rightarrow> string) \<Rightarrow> string \<Rightarrow> vault \<Rightarrow> int res" where
  "cmd_verify fr path v =
     (case vfiles v path of
        None \<Rightarrow> Inr 1
      | Some bytes \<Rightarrow>
          ebind (inspect fr path v) (\<lambda>(vs, r).
            let code = (if intact r then 0 else 1) in
            case manifests v (manifest_path path) of
              None \<Rightarrow> Inr code
            | Some None \<Rightarrow> Inl ValueError
            | Some (Some m) \<Rightarrow> ebind (as_dict m) (\<lambda>e.
                Inr (if py_eq (PyStr (sha256_hex bytes)) (dget e ''file_sha256'') then code else 1))))"

text \<open>A row of the list: the name, the count, the state of the chain and the date.\<close>

definition backup_row :: "vault \<Rightarrow> string \<Rightarrow> (string \<times> pyval \<times> string \<times> pyval) res" where
  "backup_row v name =
     (case manifests v (manifest_path (BACKUP_DIR @ ''/'' @ name)) of
        Some (Some m) \<Rightarrow> ebind (as_dict m) (\<lambda>e.
          Inr (name, dget_or e ''event_count'' (PyStr ''?''),
               if py_truth (dget e ''chain_intact'') then ''intact'' else ''BROKEN'', dget_or e ''created_at_iso'' (PyStr ''?'')))
      | _ \<Rightarrow> Inr (name, PyStr ''?'', ''?'', PyStr ''?''))"

definition cmd_list_backups :: "string list option \<Rightarrow> vault \<Rightarrow> (string \<times> pyval \<times> string \<times> pyval) list res" where
  "cmd_list_backups names v =
     (case names of None \<Rightarrow> Inr [] | Some ns \<Rightarrow> emap (backup_row v) (filter (\<lambda>n. endswith n ''.jsonl'') (sort ns)))"

text \<open>Copying a file onto itself is an error of \<open>shutil\<close>.\<close>

definition put_back :: "(real \<Rightarrow> string) \<Rightarrow> string \<Rightarrow> string \<Rightarrow> (vault, int) op" where
  "put_back fr stamp src v =
     (let v1 = (case vfiles v ACCESS_LOG_PATH of
                  None \<Rightarrow> v
                | Some old \<Rightarrow> v\<lparr>vfiles := (vfiles v)(pre_restore_path stamp \<mapsto> old)\<rparr>)
      in if src = ACCESS_LOG_PATH then (Inl OSError, v1)
         else case vfiles v1 src of
           None \<Rightarrow> (Inl OSError, v1)
         | Some bytes \<Rightarrow>
             (let v2 = v1\<lparr>vfiles := (vfiles v1)(ACCESS_LOG_PATH \<mapsto> bytes)\<rparr> in
              (ebind (inspect fr ACCESS_LOG_PATH v2) (\<lambda>(vs, r). Inr (if intact r then 0 else 1)), v2)))"

definition cmd_restore :: "(real \<Rightarrow> string) \<Rightarrow> bool \<Rightarrow> string \<Rightarrow> string \<Rightarrow> (vault, int) op" where
  "cmd_restore fr force stamp src v =
     (if vfiles v src = None then (Inr 1, v)
      else case inspect fr src v of
        Inl x \<Rightarrow> (Inl x, v)
      | Inr (vs, r) \<Rightarrow>
          if \<not> intact r \<and> \<not> force then (Inr 1, v)
          else (case read_events_from ACCESS_LOG_PATH v of
              Inl x \<Rightarrow> (Inl x, v)
            | Inr current \<Rightarrow>
                if length vs < length current \<and> \<not> force then (Inr 1, v) else put_back fr stamp src v))"

text \<open>\<open>main\<close>: one of the four commands, where an empty path counts for none.\<close>

datatype backup_command = Backup | ListBackups "string list option" | Verify string | Restore string

record backup_env =
  backup_yes :: bool
  use_force :: bool
  backup_answer :: string
  stamp_now :: string
  clock_now :: time
  created_now :: string

definition backup_main :: "(real \<Rightarrow> string) \<Rightarrow> backup_env \<Rightarrow> (vault \<Rightarrow> vault) \<Rightarrow> backup_command \<Rightarrow> (vault, int) op" where
  "backup_main fr q meanwhile cmd v =
     (case cmd of
        Backup \<Rightarrow> cmd_backup fr (backup_yes q) (backup_answer q) (stamp_now q) (clock_now q) (created_now q) meanwhile v
      | ListBackups names \<Rightarrow> (ebind (cmd_list_backups names v) (\<lambda>_. Inr 0), v)
      | Verify path \<Rightarrow> if path = [] then (Inr 1, v) else (cmd_verify fr path v, v)
      | Restore path \<Rightarrow> if path = [] then (Inr 1, v) else cmd_restore fr (use_force q) (stamp_now q) path v)"

section \<open>Files that are equal look equal\<close>

lemma read_events_from_bytes:
  "vfiles v p = Some b \<Longrightarrow> vfiles v' p' = Some b \<Longrightarrow> read_events_from p v = read_events_from p' v'"
  by (simp add: read_events_from_def)

lemma inspect_bytes: "vfiles v p = Some b \<Longrightarrow> vfiles v' p' = Some b \<Longrightarrow> inspect fr p v = inspect fr p' v'"
  using read_events_from_bytes by (metis inspect_def)

lemma paths_differ [simp]:
  "backup_path s \<noteq> ACCESS_LOG_PATH" "pre_restore_path s \<noteq> ACCESS_LOG_PATH"
  "ACCESS_LOG_PATH \<noteq> backup_path s" "ACCESS_LOG_PATH \<noteq> pre_restore_path s"
  by (simp_all add: backup_path_def pre_restore_path_def ACCESS_LOG_PATH_def BACKUP_DIR_def)

text \<open>The events of the file are those of the audit log that its lines make up.\<close>

lemma read_events_from_audit:
  "vfiles v p = Some b \<Longrightarrow> lines_of b = Inr ls \<Longrightarrow>
   read_events_from p v = Inr (read_events \<lparr>log_lines = Some ls, log_writable = w\<rparr>)"
  by (simp add: read_events_from_def read_events_def)

lemma inspect_intact:
  "inspect fr p v = Inr (vs, r) \<and> intact r \<longleftrightarrow> read_events_from p v = Inr vs \<and> r = Intact (length vs) \<and> (\<exists>h. chained fr GENESIS_HASH vs h)"
  by (auto simp: inspect_def ebind_eq_Inr intact_def verify_events_chain_def verify_from_chained split: verdict.splits)

text \<open>What a backup that reports success has left.\<close>

lemma cmd_backup_ok:
  assumes "cmd_backup fr yes reply stamp now created meanwhile v = (Inr code, v')" and "code \<noteq> 1"
  obtains bytes vs r head where "vfiles (meanwhile v) ACCESS_LOG_PATH = Some bytes"
    "inspect fr (backup_path stamp) v' = Inr (vs, r)" "vfiles v' (backup_path stamp) = Some bytes"
    "code = (if intact r then 0 else 2)" "\<And>p. p \<noteq> backup_path stamp \<Longrightarrow> vfiles v' p = vfiles (meanwhile v) p"
    "manifests v' (manifest_path (backup_path stamp)) =
       Some (Some (PyDict (manifest now created (backup_path stamp) (length vs) r head bytes)))"
proof -
  obtain n where run: "copy_and_check fr stamp now created n (meanwhile v) = (Inr code, v')"
    using assms by (auto simp: cmd_backup_def split: if_splits sum.splits prod.splits)
  let ?dest = "backup_path stamp"
  obtain bytes where b: "vfiles (meanwhile v) ACCESS_LOG_PATH = Some bytes"
    using run by (auto simp: copy_and_check_def split: option.splits)
  let ?v1 = "(meanwhile v)\<lparr>vfiles := (vfiles (meanwhile v))(?dest \<mapsto> bytes)\<rparr>"
  obtain vs r where i: "inspect fr ?dest ?v1 = Inr (vs, r)"
    using run b by (cases "inspect fr ?dest ?v1") (auto simp: copy_and_check_def Let_def)
  have n: "n = length vs" using run assms(2) by (auto simp: copy_and_check_def Let_def b i split: if_splits)
  obtain head where h: "head_hash vs = Inr head"
    using run by (cases "head_hash vs") (auto simp: copy_and_check_def Let_def b i n)
  have v': "v' = ?v1\<lparr>manifests := (manifests ?v1)(manifest_path ?dest \<mapsto> Some (PyDict (manifest now created ?dest n r head bytes)))\<rparr>"
    and code: "code = (if intact r then 0 else 2)"
    using run by (auto simp: copy_and_check_def Let_def b i n h ebind_eq_Inr)
  have "inspect fr ?dest v' = inspect fr ?dest ?v1" by (rule inspect_bytes [of _ _ bytes]) (simp_all add: v')
  with b i n code v' show thesis by (intro that) auto
qed

section \<open>Properties\<close>

text \<open>
  C33: Backup and restore are inverse: a backup that exits with 0 is put back byte for byte, with its chain intact, at any later
  time, whatever happened to the log since, unless the log has more events now and no force is used; then nothing changes.
\<close>

theorem backup_restores_exactly:
  assumes "cmd_backup fr yes reply stamp now created meanwhile v = (Inr 0, v1)" and "vfiles (meanwhile v) ACCESS_LOG_PATH = Some bytes"
    and "vfiles v2 (backup_path stamp) = vfiles v1 (backup_path stamp)" and "pre_restore_path stamp' \<noteq> backup_path stamp"
    and "cmd_restore fr force stamp' (backup_path stamp) v2 = (Inr code, v3)"
  shows "(code = 0 \<and> vfiles v3 ACCESS_LOG_PATH = Some bytes \<and> (\<exists>vs r. inspect fr ACCESS_LOG_PATH v3 = Inr (vs, r) \<and> intact r)) \<or>
    (code = 1 \<and> v3 = v2 \<and> \<not> force)"
proof -
  obtain vs r where c: "vfiles v1 (backup_path stamp) = Some bytes" "inspect fr (backup_path stamp) v1 = Inr (vs, r)" "intact r"
    by (rule cmd_backup_ok [OF assms(1)]) (use assms(2) that in \<open>auto split: if_splits\<close>)
  have b2: "vfiles v2 (backup_path stamp) = Some bytes" using assms(3) c(1) by simp
  have look: "inspect fr p u = Inr (vs, r)" if "vfiles u p = Some bytes" for p u
    using inspect_bytes [OF that c(1)] c(2) by simp
  obtain current where cur: "read_events_from ACCESS_LOG_PATH v2 = Inr current"
    using assms(5) b2 c(3) by (cases "read_events_from ACCESS_LOG_PATH v2") (auto simp: cmd_restore_def look [OF b2])
  show ?thesis
  proof (cases "length vs < length current \<and> \<not> force")
    case True
    then show ?thesis using assms(5) b2 c(3) by (auto simp: cmd_restore_def look [OF b2] cur)
  next
    case False
    then have run: "put_back fr stamp' (backup_path stamp) v2 = (Inr code, v3)"
      using assms(5) b2 c(3) by (auto simp: cmd_restore_def look [OF b2] cur split: if_splits)
    let ?v1 = "case vfiles v2 ACCESS_LOG_PATH of None \<Rightarrow> v2 | Some old \<Rightarrow> v2\<lparr>vfiles := (vfiles v2)(pre_restore_path stamp' \<mapsto> old)\<rparr>"
    have "vfiles ?v1 (backup_path stamp) = Some bytes" using b2 assms(4) by (auto split: option.splits)
    with run have v3: "v3 = ?v1\<lparr>vfiles := (vfiles ?v1)(ACCESS_LOG_PATH \<mapsto> bytes)\<rparr>"
      and code: "ebind (inspect fr ACCESS_LOG_PATH v3) (\<lambda>(vs, r). Inr (if intact r then 0 else 1)) = Inr code"
      by (auto simp: put_back_def Let_def)
    have "inspect fr ACCESS_LOG_PATH v3 = Inr (vs, r)" by (rule look) (simp add: v3)
    with code c(3) show ?thesis by (simp add: v3)
  qed
qed

text \<open>
  Restoring destroys no evidence, not even by force: the log that was there is either still in place or preserved under
  the name of the restore, and no file but these two has changed.
\<close>

theorem restore_keeps_the_old_log:
  assumes "cmd_restore fr force stamp src v = (r, v')" and "vfiles v ACCESS_LOG_PATH = Some old"
  shows "(vfiles v' ACCESS_LOG_PATH = Some old \<or> vfiles v' (pre_restore_path stamp) = Some old) \<and>
    (\<forall>p. p \<notin> {ACCESS_LOG_PATH, pre_restore_path stamp} \<longrightarrow> vfiles v' p = vfiles v p) \<and> manifests v' = manifests v"
proof -
  have "v' = v \<or> (r, v') = put_back fr stamp src v"
    using assms(1) by (auto simp: cmd_restore_def split: if_splits sum.splits prod.splits)
  then show ?thesis
    using assms(2) by (auto simp: put_back_def Let_def split: if_splits option.splits)
qed

text \<open>
  A backup that still verifies is the backup that was taken: when \<open>--verify\<close> says 0 for it and its manifest is untouched,
  its bytes are those of the log at the time, or two different files with the same SHA-256 are at hand.
\<close>

theorem verified_backup_is_authentic:
  assumes "cmd_backup fr yes reply stamp now created meanwhile v = (Inr code, v1)" and "code \<noteq> 1"
    and "vfiles (meanwhile v) ACCESS_LOG_PATH = Some bytes"
    and "manifests v2 (manifest_path (backup_path stamp)) = manifests v1 (manifest_path (backup_path stamp))"
    and "cmd_verify fr (backup_path stamp) v2 = Inr 0"
  shows "\<exists>bytes'. vfiles v2 (backup_path stamp) = Some bytes' \<and> (bytes' = bytes \<or> bytes' \<noteq> bytes \<and> sha256_hex bytes' = sha256_hex bytes)"
proof -
  let ?dest = "backup_path stamp"
  obtain n r head where m: "manifests v2 (manifest_path ?dest) = Some (Some (PyDict (manifest now created ?dest n r head bytes)))"
    by (rule cmd_backup_ok [OF assms(1,2)]) (use assms(3,4) that in auto)
  have f: "dget (manifest now created ?dest n r head bytes) ''file_sha256'' = PyStr (sha256_hex bytes)"
    by (simp add: manifest_def dict_simps)
  from assms(5) show ?thesis
    by (auto simp: cmd_verify_def m f as_dict_def ebind_eq_Inr Let_def split: option.splits if_splits)
qed

text \<open>An event that is logged between the first reading and the copy makes the backup fail, and the copy is removed.\<close>

lemma backup_of_a_busy_log_fails:
  assumes "vfiles v ACCESS_LOG_PATH = Some old" and "inspect fr ACCESS_LOG_PATH v = Inr (vs, r)" and "intact r \<or> yes"
    and "vfiles (meanwhile v) ACCESS_LOG_PATH = Some bytes" and "inspect fr ACCESS_LOG_PATH (meanwhile v) = Inr (vs @ [e], r')"
  shows "fst (cmd_backup fr yes reply stamp now created meanwhile v) = Inr 1 \<and>
    vfiles (snd (cmd_backup fr yes reply stamp now created meanwhile v)) (backup_path stamp) = None"
proof -
  let ?v1 = "(meanwhile v)\<lparr>vfiles := (vfiles (meanwhile v))(backup_path stamp \<mapsto> bytes)\<rparr>"
  have "inspect fr (backup_path stamp) ?v1 = Inr (vs @ [e], r')"
    using inspect_bytes [OF _ assms(4), of ?v1 "backup_path stamp" fr] assms(5) by simp
  with assms(1-4) show ?thesis by (auto simp: cmd_backup_def copy_and_check_def Let_def)
qed

section \<open>Witnesses\<close>

definition quiet_vault :: vault where
  "quiet_vault = \<lparr>vfiles = [ACCESS_LOG_PATH \<mapsto> [CHR 0x0A]], manifests = Map.empty\<rparr>"

lemma quiet_lines: "lines_of [CHR 0x0A] = Inr [Blank, Blank]"
  by code_simp

lemma inspect_quiet: "vfiles v p = Some [CHR 0x0A] \<Longrightarrow> inspect fr p v = Inr ([], Intact 0)"
  by (simp add: inspect_def read_events_from_def quiet_lines verify_events_chain_def List.map_filter_def)

definition quiet_backup :: vault where
  "quiet_backup = snd (cmd_backup plain_float False [] ''20260804'' 7 ''2026'' id quiet_vault)"

lemma quiet_backup_run:
  "cmd_backup plain_float False [] ''20260804'' 7 ''2026'' id quiet_vault = (Inr 0, quiet_backup)"
  "vfiles quiet_backup = (vfiles quiet_vault)(backup_path ''20260804'' \<mapsto> [CHR 0x0A])"
  "manifests quiet_backup (manifest_path (backup_path ''20260804'')) =
     Some (Some (PyDict (manifest 7 ''2026'' (backup_path ''20260804'') 0 (Intact 0) (PyStr GENESIS_HASH) [CHR 0x0A])))"
proof -
  have q: "vfiles quiet_vault ACCESS_LOG_PATH = Some [CHR 0x0A]" by (simp add: quiet_vault_def)
  have run: "cmd_backup plain_float False [] ''20260804'' 7 ''2026'' id quiet_vault =
    (Inr 0, quiet_vault\<lparr>vfiles := (vfiles quiet_vault)(backup_path ''20260804'' \<mapsto> [CHR 0x0A]),
       manifests := (manifests quiet_vault)(manifest_path (backup_path ''20260804'') \<mapsto>
         Some (PyDict (manifest 7 ''2026'' (backup_path ''20260804'') 0 (Intact 0) (PyStr GENESIS_HASH) [CHR 0x0A])))\<rparr>)"
    by (simp add: cmd_backup_def copy_and_check_def q inspect_quiet Let_def intact_def head_hash_def sliceable_def)
  then show "cmd_backup plain_float False [] ''20260804'' 7 ''2026'' id quiet_vault = (Inr 0, quiet_backup)"
    "vfiles quiet_backup = (vfiles quiet_vault)(backup_path ''20260804'' \<mapsto> [CHR 0x0A])"
    "manifests quiet_backup (manifest_path (backup_path ''20260804'')) =
     Some (Some (PyDict (manifest 7 ''2026'' (backup_path ''20260804'') 0 (Intact 0) (PyStr GENESIS_HASH) [CHR 0x0A])))"
    by (simp_all add: quiet_backup_def)
qed

text \<open>The log is lost after the backup, and restored from it.\<close>

theorem backup_restores_exactly_witness:
  "\<exists>code v3. cmd_restore plain_float False ''20260805'' (backup_path ''20260804'')
     (quiet_backup\<lparr>vfiles := (vfiles quiet_backup)(ACCESS_LOG_PATH := None)\<rparr>) = (Inr code, v3) \<and>
     vfiles v3 ACCESS_LOG_PATH = Some [CHR 0x0A]"
proof -
  let ?v = "quiet_backup\<lparr>vfiles := (vfiles quiet_backup)(ACCESS_LOG_PATH := None)\<rparr>"
  have b: "vfiles ?v (backup_path ''20260804'') = Some [CHR 0x0A]" by (simp add: quiet_backup_run)
  have "\<exists>v3. cmd_restore plain_float False ''20260805'' (backup_path ''20260804'') ?v = (Inr 0, v3)"
    using b by (simp add: cmd_restore_def inspect_quiet intact_def read_events_from_def put_back_def Let_def)
  then obtain v3 where run: "cmd_restore plain_float False ''20260805'' (backup_path ''20260804'') ?v = (Inr 0, v3)" ..
  have "pre_restore_path ''20260805'' \<noteq> backup_path ''20260804''" by (simp add: pre_restore_path_def backup_path_def)
  moreover have "vfiles (id quiet_vault) ACCESS_LOG_PATH = Some [CHR 0x0A]" by (simp add: quiet_vault_def)
  ultimately show ?thesis
    using backup_restores_exactly [OF quiet_backup_run(1) _ _ _ run, of "[CHR 0x0A]"] run by auto
qed

theorem restore_keeps_the_old_log_witness:
  "\<exists>r v'. cmd_restore plain_float True ''20260805'' (backup_path ''20260804'') quiet_backup = (r, v') \<and>
     (vfiles v' ACCESS_LOG_PATH = Some [CHR 0x0A] \<or> vfiles v' (pre_restore_path ''20260805'') = Some [CHR 0x0A])"
proof -
  obtain r v' where run: "cmd_restore plain_float True ''20260805'' (backup_path ''20260804'') quiet_backup = (r, v')" by fastforce
  have "vfiles quiet_backup ACCESS_LOG_PATH = Some [CHR 0x0A]" by (simp add: quiet_backup_run quiet_vault_def)
  from restore_keeps_the_old_log [OF run this] run show ?thesis by blast
qed

theorem verified_backup_is_authentic_witness:
  "cmd_verify plain_float (backup_path ''20260804'') quiet_backup = Inr 0 \<and>
   (\<exists>bytes'. vfiles quiet_backup (backup_path ''20260804'') = Some bytes' \<and>
     (bytes' = [CHR 0x0A] \<or> bytes' \<noteq> [CHR 0x0A] \<and> sha256_hex bytes' = sha256_hex [CHR 0x0A]))"
proof -
  have b: "vfiles quiet_backup (backup_path ''20260804'') = Some [CHR 0x0A]" by (simp add: quiet_backup_run)
  have run: "cmd_verify plain_float (backup_path ''20260804'') quiet_backup = Inr 0"
    by (simp add: cmd_verify_def b inspect_quiet quiet_backup_run(3) as_dict_def manifest_def dict_simps intact_def)
  have "vfiles (id quiet_vault) ACCESS_LOG_PATH = Some [CHR 0x0A]" by (simp add: quiet_vault_def)
  from verified_backup_is_authentic [OF quiet_backup_run(1) _ this refl run] run show ?thesis by simp
qed

end
