(* ===== verification/Dashboard.thy ===== *)
theory Dashboard
  imports BackupAuditLog IdpServer "HOL-Library.Multiset"
begin

text \<open>
  \<open>dashboard/generate_dashboard.py\<close>: the page that shows the audit log. The local time that the page shows is an argument. The numbers by
  user, which the code counts and does not show, matter only for the exceptions that counting them raises.
\<close>

section \<open>Counting\<close>

text \<open>Dictionary keys: equal values, or the same object (NaN is one object of the parser).\<close>

definition key_same :: "pyval \<Rightarrow> pyval \<Rightarrow> bool" where
  "key_same a b \<longleftrightarrow> py_eq a b \<or> a = b"

fun count_up :: "pyval \<Rightarrow> (pyval \<times> nat) list \<Rightarrow> (pyval \<times> nat) list" where
  "count_up k [] = [(k, 1)]"
| "count_up k ((k', n) # c) = (if key_same k k' then (k', n + 1) # c else (k', n) # count_up k c)"

definition counter :: "pyval list \<Rightarrow> (pyval \<times> nat) list res" where
  "counter ks = (if list_all hashable ks then Inr (fold count_up ks []) else Inl TypeError)"

definition most_common :: "(pyval \<times> nat) list \<Rightarrow> (pyval \<times> nat) list" where
  "most_common c = sort_key (\<lambda>(_, n). - int n) c"

text \<open>\<open>round(n / d)\<close>, half to even.\<close>

definition round_quotient :: "nat \<Rightarrow> nat \<Rightarrow> nat" where
  "round_quotient n d =
     (let q = n div d; r = n mod d in
      if 2 * r < d then q else if d < 2 * r then q + 1 else if even q then q else q + 1)"

section \<open>The template\<close>

definition PAGE_HEAD :: string where
  \<open>PAGE_HEAD = ''<!DOCTYPE html>
<html lang="en">
<head>
<meta charset="utf-8">
<title>PyZTNA Audit Dashboard</title>
<style>
  :root { --navy:#1a2b4c; --muted:#666; --ok:#1e7d34; --bad:#b23b3b; }
  body { font-family: -apple-system, Segoe UI, Arial, sans-serif; margin: 0; background:#f5f7fb; color:#222; }
  header { background: var(--navy); color: white; padding: 20px 28px; }
  header h1 { margin: 0 0 4px 0; font-size: 20px; }
  header p { margin: 0; color: #cbd5e8; font-size: 13px; }
  .wrap { padding: 24px 28px; }
  .cards { display: flex; gap: 16px; margin-bottom: 24px; flex-wrap: wrap; }
  .card { background: white; border-radius: 8px; padding: 16px 20px; box-shadow: 0 1px 3px rgba(0,0,0,.08); min-width: 140px; }
  .card .num { font-size: 28px; font-weight: 700; }
  .card .lbl { color: var(--muted); font-size: 12px; text-transform: uppercase; letter-spacing: .05em; }
  .card.ok .num { color: var(--ok); }
  .card.bad .num { color: var(--bad); }
  .panels { display: flex; gap: 20px; flex-wrap: wrap; margin-bottom: 24px; }
  .panel { background: white; border-radius: 8px; padding: 16px 20px; box-shadow: 0 1px 3px rgba(0,0,0,.08); flex: 1; min-width: 320px; }
  .panel h2 { font-size: 14px; margin: 0 0 12px 0; color: var(--navy); }
  .bar-row { display: flex; align-items: center; gap: 8px; margin-bottom: 6px; font-size: 12px; }
  .bar-label { width: 190px; overflow: hidden; text-overflow: ellipsis; white-space: nowrap; color: #444; }
  .bar-track { flex: 1; background: #eef1f7; border-radius: 4px; height: 14px; overflow: hidden; }
  .bar-fill { height: 100%; }
  .bar-value { width: 28px; text-align: right; color: #444; }
  table { width: 100%; border-collapse: collapse; background: white; border-radius: 8px; overflow: hidden; box-shadow: 0 1px 3px rgba(0,0,0,.08); }
  th, td { text-align: left; padding: 8px 10px; font-size: 12px; border-bottom: 1px solid #eef1f7; }
  th { background: #f0f3fa; color: var(--navy); position: sticky; top: 0; }
  tr.ok td:nth-child(6) { color: var(--ok); font-weight: 600; }
  tr.bad td:nth-child(6) { color: var(--bad); font-weight: 600; }
  tr.warn td:nth-child(6) { color: #a4740a; font-weight: 600; }
  .tablewrap { max-height: 480px; overflow: auto; border-radius: 8px; }
  footer { padding: 16px 28px; color: var(--muted); font-size: 11px; }
</style>
</head>
<body>
<header>
  <h1>PyZTNA Audit Dashboard</h1>
  <p>Generated ''\<close>

definition AFTER_TIME :: string where
  \<open>AFTER_TIME = '' &middot; source: logs/access_log.jsonl &middot; ''\<close>

definition AFTER_HEADER :: string where
  \<open>AFTER_HEADER = '' events</p>
</header>
<div class="wrap">
  <div class="cards">
    <div class="card"><div class="num">''\<close>

definition AFTER_TOTAL :: string where
  \<open>AFTER_TOTAL = ''</div><div class="lbl">Total Events</div></div>
    <div class="card ok"><div class="num">''\<close>

definition AFTER_ALLOWED :: string where
  \<open>AFTER_ALLOWED = ''</div><div class="lbl">Allowed</div></div>
    <div class="card bad"><div class="num">''\<close>

definition AFTER_DENIED :: string where
  \<open>AFTER_DENIED = ''</div><div class="lbl">Denied</div></div>
    <div class="card"><div class="num">''\<close>

definition AFTER_CARDS :: string where
  \<open>AFTER_CARDS = ''</div><div class="lbl">Backend Errors</div></div>
  </div>
  <div class="panels">
    <div class="panel">
      <h2>Access attempts by resource</h2>
      ''\<close>

definition AFTER_RESOURCES :: string where
  \<open>AFTER_RESOURCES = ''
    </div>
    <div class="panel">
      <h2>Denial reasons</h2>
      ''\<close>

definition AFTER_REASONS :: string where
  \<open>AFTER_REASONS = ''
    </div>
  </div>
  <div class="panel" style="margin-bottom:24px;">
    <h2>Recent audit trail (most recent first, up to 300 rows)</h2>
    <div class="tablewrap">
    <table>
      <thead><tr>
        <th>Time</th><th>Event</th><th>User</th><th>Resource</th><th>Source IP</th>
        <th>Decision</th><th>Reason</th><th>Device Trust</th>
      </tr></thead>
      <tbody>
        ''\<close>

definition PAGE_END :: string where
  \<open>PAGE_END = ''
      </tbody>
    </table>
    </div>
  </div>
</div>
<footer>PyZTNA classroom project &middot; regenerate with: python -m dashboard.generate_dashboard</footer>
</body>
</html>
''\<close>

definition NO_RESOURCES :: string where
  \<open>NO_RESOURCES = ''<p style="color:#999;font-size:12px;">No access events yet.</p>''\<close>

definition NO_REASONS :: string where
  \<open>NO_REASONS = ''<p style="color:#999;font-size:12px;">No denials logged yet.</p>''\<close>

definition NO_ROWS :: string where
  \<open>NO_ROWS = ''<tr><td colspan="8" style="text-align:center;color:#999;">No events logged yet -- run the client agent or the test suite first.</td></tr>''\<close>

section \<open>Rendering\<close>

text \<open>\<open>html.escape(s)\<close>, and the lines of the code's own layout.\<close>

definition escape_char :: "char \<Rightarrow> string" where
  \<open>escape_char c =
     (if c = CHR ''&'' then ''&amp;'' else if c = CHR ''<'' then ''&lt;'' else if c = CHR ''>'' then ''&gt;''
      else if c = CHR 0x22 then ''&quot;'' else if c = CHR 0x27 then ''&#x27;'' else [c])\<close>

definition html_escape :: "string \<Rightarrow> string" where
  "html_escape s = concat (map escape_char s)"

definition percent :: "nat \<Rightarrow> nat \<Rightarrow> nat" where
  "percent value max_value = (if max_value = 0 then 0 else round_quotient (100 * value) max_value)"

definition bar_html :: "string \<Rightarrow> nat \<Rightarrow> nat \<Rightarrow> string \<Rightarrow> string" where
  \<open>bar_html label value max_value color =
     ''
        <div class="bar-row">
          <div class="bar-label">'' @ html_escape label @ ''</div>
          <div class="bar-track"><div class="bar-fill" style="width:'' @ dec_nat (percent value max_value) @ ''%;background:'' @ color @ ''"></div></div>
          <div class="bar-value">'' @ dec_nat value @ ''</div>
        </div>''\<close>

definition cell :: "string \<Rightarrow> string" where
  \<open>cell s = ''<td>'' @ html_escape s @ ''</td>''\<close>

definition row_html :: "string \<times> string list \<Rightarrow> string" where
  \<open>row_html = (\<lambda>(css_class, cells).
     ''<tr class='' @ [CHR 0x27] @ css_class @ [CHR 0x27] @ ''>'' @ concat (map cell cells) @ ''</tr>'')\<close>

text \<open>What the page is made of: the numbers, the bars with their labels, and the rows with their class and cells.\<close>

record page_data =
  n_total :: nat
  n_allow :: nat
  n_deny :: nat
  n_error :: nat
  resource_bars :: "(string \<times> nat) list"
  reason_bars :: "(string \<times> nat) list"
  page_rows :: "(string \<times> string list) list"

definition bars_html :: "(string \<times> nat) list \<Rightarrow> string \<Rightarrow> string \<Rightarrow> string" where
  "bars_html bs color none =
     (let m = fold max (map snd bs) 0; h = concat (map (\<lambda>(label, n). bar_html label n m color) bs) in if h = [] then none else h)"

definition render :: "string \<Rightarrow> page_data \<Rightarrow> string" where
  "render generated_at d =
     PAGE_HEAD @ generated_at @ AFTER_TIME @ dec_nat (n_total d) @ AFTER_HEADER @ dec_nat (n_total d) @ AFTER_TOTAL @
     dec_nat (n_allow d) @ AFTER_ALLOWED @ dec_nat (n_deny d) @ AFTER_DENIED @ dec_nat (n_error d) @ AFTER_CARDS @
     bars_html (resource_bars d) ''#2c4a7c'' NO_RESOURCES @ AFTER_RESOURCES @
     bars_html (reason_bars d) ''#b23b3b'' NO_REASONS @ AFTER_REASONS @
     (if page_rows d = [] then NO_ROWS else concat (map row_html (page_rows d))) @ PAGE_END"

section \<open>From the events to the page\<close>

definition load_events :: "string option \<Rightarrow> pyval list res" where
  "load_events content =
     (case content of None \<Rightarrow> Inr [] | Some bytes \<Rightarrow> ebind (lines_of bytes) (\<lambda>ls. Inr (List.map_filter line_value ls)))"

definition with_decision :: "string \<Rightarrow> dict list \<Rightarrow> dict list" where
  "with_decision w es = filter (\<lambda>e. dget e ''decision'' = PyStr w) es"

definition accesses :: "dict list \<Rightarrow> dict list" where
  "accesses es = filter (\<lambda>e. dget e ''event'' = PyStr ''access'') es"

text \<open>One step of the loop over the users: \<open>by_user[e["username"]][e["decision"] if .. else "deny"] += 1\<close>.\<close>

definition count_user :: "dict \<Rightarrow> unit res" where
  "count_user e =
     (if \<not> py_truth (dget e ''username'') then Inr ()
      else if \<not> hashable (dget e ''username'') then Inl TypeError
      else ebind (dreq e ''decision'') (\<lambda>_. Inr ()))"

definition css_of :: "pyval \<Rightarrow> string res" where
  "css_of decision =
     (if \<not> hashable decision then Inl TypeError
      else Inr (if decision = PyStr ''allow'' then ''ok'' else if decision = PyStr ''deny'' then ''bad''
                else if decision = PyStr ''error'' then ''warn'' else []))"

definition or_dash :: "pyval \<Rightarrow> pyval" where
  "or_dash v = py_or v (PyStr ''-'')"

definition event_row :: "prims \<Rightarrow> dict \<Rightarrow> (string \<times> string list) res" where
  "event_row P e =
     (let decision = dget_or e ''decision'' (PyStr []); score = dget e ''device_trust_score'' in
      ebind (css_of decision) (\<lambda>css.
      case dget_or e ''timestamp_iso'' (PyStr []) of
        PyStr ts \<Rightarrow> Inr (css, [ts, py_str P (dget_or e ''event'' (PyStr [])), py_str P (or_dash (dget e ''username'')),
          py_str P (or_dash (dget e ''resource'')), py_str P (or_dash (dget e ''source_ip'')), py_str P decision,
          py_str P (or_dash (dget e ''reason'')), py_str P (if score = PyNone then PyStr ''-'' else score)])
      | _ \<Rightarrow> Inl AttributeError))"

definition labels :: "prims \<Rightarrow> (pyval \<times> nat) list \<Rightarrow> (string \<times> nat) list" where
  "labels P c = map (\<lambda>(k, n). (py_str P k, n)) (most_common c)"

definition page_of :: "prims \<Rightarrow> pyval list \<Rightarrow> page_data res" where
  "page_of P events =
     ebind (emap as_dict events) (\<lambda>es.
     ebind (counter (map (\<lambda>e. dget_or e ''resource'' (PyStr ''-'')) (accesses es))) (\<lambda>by_resource.
     ebind (counter (map (\<lambda>e. dget_or e ''reason'' (PyStr ''-'')) (with_decision ''deny'' es))) (\<lambda>deny_reasons.
     ebind (emap count_user (accesses es)) (\<lambda>_.
     ebind (emap (event_row P) (take 300 (rev es))) (\<lambda>rows.
       Inr \<lparr>n_total = length es, n_allow = length (with_decision ''allow'' es), n_deny = length (with_decision ''deny'' es),
            n_error = length (with_decision ''error'' es), resource_bars = labels P by_resource,
            reason_bars = labels P deny_reasons, page_rows = rows\<rparr>)))))"

definition build_html :: "prims \<Rightarrow> string \<Rightarrow> pyval list \<Rightarrow> string res" where
  "build_html P generated_at events = ebind (page_of P events) (\<lambda>d. Inr (render generated_at d))"

text \<open>The page as it is written; a text with half of a surrogate pair does not encode.\<close>

definition publish :: "prims \<Rightarrow> string \<Rightarrow> pyval list \<Rightarrow> string res" where
  "publish P generated_at events =
     ebind (build_html P generated_at events) (\<lambda>out. if utf8_decode out = None then Inl ValueError else Inr out)"

definition dashboard_main :: "prims \<Rightarrow> string \<Rightarrow> string option \<Rightarrow> string res" where
  "dashboard_main P generated_at content = ebind (load_events content) (publish P generated_at)"

section \<open>Markup\<close>

definition is_markup :: "char \<Rightarrow> bool" where
  "is_markup c \<longleftrightarrow> c \<in> {CHR ''<'', CHR ''>'', CHR 0x22, CHR 0x27}"

abbreviation markup :: "string \<Rightarrow> string" where
  "markup s \<equiv> filter is_markup s"

text \<open>The page with every text from the log taken out.\<close>

definition without_texts :: "page_data \<Rightarrow> page_data" where
  "without_texts d = d\<lparr>resource_bars := map (\<lambda>(_, n). ([], n)) (resource_bars d), reason_bars := map (\<lambda>(_, n). ([], n)) (reason_bars d),
     page_rows := map (\<lambda>(css, cells). (css, map (\<lambda>_. []) cells)) (page_rows d)\<rparr>"

lemma markup_escape: "markup (html_escape s) = []"
proof -
  have "markup (escape_char c) = []" for c by (simp add: escape_char_def is_markup_def)
  then show ?thesis by (induction s) (simp_all add: html_escape_def del: filter.simps)
qed

lemma markup_concat:
  assumes "\<And>x. markup (f x) = markup (g (h x))"
  shows "markup (concat (map f xs)) = markup (concat (map g (map h xs)))"
proof (induction xs)
  case (Cons x xs)
  then show ?case using assms [of x] by (simp only: list.map concat.simps filter_append)
qed simp

lemma markup_bar: "markup (bar_html label n m color) = markup (bar_html [] n m color)"
  unfolding bar_html_def filter_append markup_escape by (rule refl)

lemma bars_empty: "concat (map (\<lambda>(label, n). bar_html label n m color) bs) = [] \<longleftrightarrow> bs = []"
  unfolding concat_eq_Nil_conv by (cases bs) (auto simp: bar_html_def)

lemma markup_bars: "markup (bars_html bs color none) = markup (bars_html (map (\<lambda>(_, n). ([], n)) bs) color none)"
proof -
  have same: "map snd (map (\<lambda>(_, n). ([], n)) bs) = map snd bs" by (induction bs) auto
  have m: "markup (concat (map (\<lambda>(label, n). bar_html label n m color) bs)) =
      markup (concat (map (\<lambda>(label, n). bar_html label n m color) (map (\<lambda>(_, n). ([], n)) bs)))" for m
    by (rule markup_concat) (simp only: prod.case_eq_if fst_conv snd_conv, rule markup_bar)
  show ?thesis
  proof (cases "bs = []")
    case False
    show ?thesis unfolding bars_html_def Let_def same bars_empty map_is_Nil_conv if_not_P [OF False] by (rule m)
  qed simp
qed

lemma markup_row: "markup (row_html r) = markup (row_html (case r of (css, cells) \<Rightarrow> (css, map (\<lambda>_. []) cells)))"
proof (cases r)
  case (Pair css cells)
  have "markup (concat (map cell cells)) = markup (concat (map cell (map (\<lambda>_. []) cells)))"
    by (rule markup_concat) (simp only: cell_def filter_append markup_escape)
  then show ?thesis unfolding Pair row_html_def by (simp only: prod.case filter_append)
qed

lemma markup_rows:
  "markup (if rs = [] then NO_ROWS else concat (map row_html rs)) =
   markup (if map (\<lambda>(css, cells). (css, map (\<lambda>_. []) cells)) rs = [] then NO_ROWS
     else concat (map row_html (map (\<lambda>(css, cells). (css, map (\<lambda>_. [])  cells)) rs)))"
proof (cases "rs = []")
  case False
  show ?thesis unfolding map_is_Nil_conv if_not_P [OF False] by (intro markup_concat markup_row)
qed simp

lemma markup_render: "markup (render stamp d) = markup (render stamp (without_texts d))"
proof -
  have fields: "n_total (without_texts d) = n_total d" "n_allow (without_texts d) = n_allow d" "n_deny (without_texts d) = n_deny d"
    "n_error (without_texts d) = n_error d" "resource_bars (without_texts d) = map (\<lambda>(_, n). ([], n)) (resource_bars d)"
    "reason_bars (without_texts d) = map (\<lambda>(_, n). ([], n)) (reason_bars d)"
    "page_rows (without_texts d) = map (\<lambda>(css, cells). (css, map (\<lambda>_. []) cells)) (page_rows d)"
    by (simp_all add: without_texts_def)
  show ?thesis
    unfolding render_def filter_append fields
    by (intro arg_cong2 [where f = append] refl markup_rows markup_bars)
qed

section \<open>The numbers\<close>

lemma count_up_total: "sum_list (map snd (count_up k c)) = sum_list (map snd c) + 1"
  by (induction k c rule: count_up.induct) auto

lemma counter_total: "counter ks = Inr c \<Longrightarrow> sum_list (map snd c) = length ks"
proof -
  have "sum_list (map snd (fold count_up ks c0)) = sum_list (map snd c0) + length ks" for c0
    by (induction ks arbitrary: c0) (auto simp: count_up_total)
  then show "counter ks = Inr c \<Longrightarrow> ?thesis" by (auto simp: counter_def split: if_splits)
qed

lemma labels_total: "sum_list (map snd (labels P c)) = sum_list (map snd c)"
proof -
  have "map snd (labels P c) = map snd (most_common c)" by (auto simp: labels_def)
  moreover have "mset (map snd (most_common c)) = mset (map snd c)" by (simp add: most_common_def)
  ultimately show ?thesis by (metis sum_mset_sum_list)
qed

lemma emap_as_dict: "emap as_dict vs = Inr es \<longleftrightarrow> vs = map PyDict es"
proof -
  have "(as_dict v = Inr e) = (v = PyDict e)" for v e by (cases v) (auto simp: as_dict_def)
  then show ?thesis by (auto simp: emap_eq_Inr list_all2_conv_all_nth list_eq_iff_nth_eq)
qed

lemma emap_length: "emap f xs = Inr ys \<Longrightarrow> length ys = length xs"
  by (auto simp: emap_eq_Inr dest: list_all2_lengthD)

lemma page_of_spec:
  assumes "page_of P events = Inr d"
  obtains es where "events = map PyDict es" "emap (event_row P) (take 300 (rev es)) = Inr (page_rows d)"
    "n_total d = length es" "sum_list (map snd (resource_bars d)) = length (accesses es)"
    "sum_list (map snd (reason_bars d)) = n_deny d" "n_deny d = length (with_decision ''deny'' es)"
    "n_allow d = length (with_decision ''allow'' es)" "n_error d = length (with_decision ''error'' es)"
  using assms that
  by (auto simp: page_of_def ebind_eq_Inr emap_as_dict labels_total dest!: counter_total)

lemma row_css: "event_row P e = Inr (css, cells) \<Longrightarrow> css \<in> {''ok'', ''bad'', ''warn'', []} \<and> length cells = 8"
  by (cases "dget_or e ''timestamp_iso'' (PyStr [])")
    (auto simp: event_row_def Let_def ebind_eq_Inr css_of_def split: if_splits)

lemma rows_css:
  assumes "emap (event_row P) es = Inr rows" and "(css, cells) \<in> set rows"
  shows "css \<in> {''ok'', ''bad'', ''warn'', []} \<and> length cells = 8"
proof -
  from emap_mem_back [OF assms] obtain e where "event_row P e = Inr (css, cells)" by blast
  then show ?thesis by (rule row_css)
qed

lemma decisions_disjoint: "length (with_decision a es) + length (with_decision b es) + length (with_decision c es) \<le> length es"
  if "distinct [a, b, c]"
  using that by (induction es) (auto simp: with_decision_def)

section \<open>Properties\<close>

text \<open>
  C40: Nothing that a client can get into the log becomes markup. Of the characters that open or close a tag or an attribute, the page has
  exactly those that it has when every text from the log is taken out: they are determined by the number of bars and rows, by the
  counts, and by the classes of the rows, which are one of four. Every row has its eight cells.
\<close>

theorem log_text_adds_no_markup:
  assumes "build_html P stamp events = Inr page"
  shows "\<exists>d. page = render stamp d \<and> markup page = markup (render stamp (without_texts d)) \<and>
    (\<forall>(css, cells) \<in> set (page_rows d). css \<in> {''ok'', ''bad'', ''warn'', []} \<and> length cells = 8)"
proof -
  from assms obtain d where d: "page_of P events = Inr d" "page = render stamp d"
    by (auto simp: build_html_def ebind_eq_Inr)
  obtain es where "emap (event_row P) (take 300 (rev es)) = Inr (page_rows d)" using page_of_spec [OF d(1)] by metis
  then show ?thesis using d(2) markup_render rows_css by blast
qed

text \<open>
  The numbers are those of the log: the total counts every event, the three decisions are counted once each, the bars of the first panel
  add up to the requests for access and those of the second to the denials, and the rows are the last 300 events, the latest first.
\<close>

theorem page_accounts_for_the_log:
  assumes "page_of P events = Inr d"
  shows "n_total d = length events \<and> n_allow d + n_deny d + n_error d \<le> n_total d \<and>
    (\<exists>es. events = map PyDict es \<and> sum_list (map snd (resource_bars d)) = length (accesses es) \<and>
       sum_list (map snd (reason_bars d)) = n_deny d \<and> length (page_rows d) = min 300 (length es) \<and>
       (\<forall>i < length (page_rows d). event_row P (rev es ! i) = Inr (page_rows d ! i)))"
proof -
  obtain es where es: "events = map PyDict es" "emap (event_row P) (take 300 (rev es)) = Inr (page_rows d)"
    "n_total d = length es" "sum_list (map snd (resource_bars d)) = length (accesses es)"
    "sum_list (map snd (reason_bars d)) = n_deny d" "n_deny d = length (with_decision ''deny'' es)"
    "n_allow d = length (with_decision ''allow'' es)" "n_error d = length (with_decision ''error'' es)"
    by (rule page_of_spec [OF assms])
  have "n_allow d + n_deny d + n_error d \<le> n_total d"
    unfolding es(3,6-8) by (rule decisions_disjoint) simp
  moreover have len: "length (page_rows d) = min 300 (length es)" using emap_length [OF es(2)] by simp
  moreover have "event_row P (rev es ! i) = Inr (page_rows d ! i)" if "i < length (page_rows d)" for i
    using es(2) that len by (auto simp: emap_eq_Inr list_all2_conv_all_nth)
  ultimately show ?thesis using es(1,3-5) by auto
qed

text \<open>
  The page is drawn for every log of events that have a time stamp and whose other fields are no lists or objects, with a decision for every
  request for access; no other exception is possible.
\<close>

definition drawable :: "dict \<Rightarrow> bool" where
  "drawable e \<longleftrightarrow> (\<exists>ts. dget_or e ''timestamp_iso'' (PyStr []) = PyStr ts) \<and> hashable (dget_or e ''decision'' (PyStr [])) \<and>
     hashable (dget_or e ''reason'' (PyStr ''-'')) \<and>
     (dget e ''event'' = PyStr ''access'' \<longrightarrow> hashable (dget_or e ''resource'' (PyStr ''-'')) \<and>
        (py_truth (dget e ''username'') \<longrightarrow> hashable (dget e ''username'') \<and> map_of e ''decision'' \<noteq> None))"

theorem drawable_logs_are_drawn:
  assumes "\<forall>v \<in> set events. \<exists>e. v = PyDict e \<and> drawable e"
  shows "\<exists>page. build_html P stamp events = Inr page"
proof -
  have "\<exists>es. events = map PyDict es" using assms by (subst ex_map_conv) blast
  then obtain es where ev: "events = map PyDict es" by blast
  have ok: "\<forall>e \<in> set es. drawable e" using assms by (auto simp: ev)
  have "list_all hashable (map (\<lambda>e. dget_or e ''resource'' (PyStr ''-'')) (accesses es))"
    using ok by (auto simp: list_all_iff accesses_def drawable_def)
  then obtain c1 where c1: "counter (map (\<lambda>e. dget_or e ''resource'' (PyStr ''-'')) (accesses es)) = Inr c1"
    by (simp add: counter_def)
  have "list_all hashable (map (\<lambda>e. dget_or e ''reason'' (PyStr ''-'')) (with_decision ''deny'' es))"
    using ok by (auto simp: list_all_iff with_decision_def drawable_def)
  then obtain c2 where c2: "counter (map (\<lambda>e. dget_or e ''reason'' (PyStr ''-'')) (with_decision ''deny'' es)) = Inr c2"
    by (simp add: counter_def)
  have c3: "emap count_user (accesses es) = Inr (map (\<lambda>_. ()) (accesses es))"
    using ok by (intro emap_total) (auto simp: accesses_def drawable_def count_user_def dreq_def)
  have "\<exists>row. event_row P e = Inr row" if "e \<in> set es" for e
  proof -
    have d: "drawable e" using ok that by blast
    then obtain ts where ts: "dget_or e ''timestamp_iso'' (PyStr []) = PyStr ts" unfolding drawable_def by blast
    have "hashable (dget_or e ''decision'' (PyStr []))" using d unfolding drawable_def by blast
    then obtain css where css: "css_of (dget_or e ''decision'' (PyStr [])) = Inr css" unfolding css_of_def by simp
    show ?thesis unfolding event_row_def Let_def css ts ebind_Inr pyval.case by blast
  qed
  then obtain row where row: "\<forall>e \<in> set es. event_row P e = Inr (row e)" by metis
  have "emap (event_row P) (take 300 (rev es)) = Inr (map row (take 300 (rev es)))"
    by (rule emap_total) (use row in \<open>auto dest: in_set_takeD\<close>)
  with c1 c2 c3 show ?thesis
    using emap_as_dict [of events es] by (simp add: build_html_def page_of_def ev)
qed

section \<open>Half a surrogate pair\<close>

lemma escape_plain: "\<forall>x \<in> set a. escape_char x = [x] \<Longrightarrow> html_escape a = a"
  by (induction a) (simp_all add: html_escape_def)

lemma utf8_valid_escape: "utf8_valid (map of_char (html_escape u)) \<Longrightarrow> utf8_valid (map of_char u)"
proof (induction u rule: length_induct)
  case (1 u)
  show ?case
  proof (cases "\<exists>c \<in> set u. escape_char c \<noteq> [c]")
    case False
    then have "html_escape u = u" by (intro escape_plain) blast
    then show ?thesis using "1.prems" by simp
  next
    case True
    then obtain a c r where u: "u = a @ c # r" and c: "escape_char c \<noteq> [c]" and a: "\<forall>x \<in> set a. \<not> escape_char x \<noteq> [x]"
      by (rule split_list_first_propE)
    have "html_escape a = a" using a by (intro escape_plain) blast
    then have esc: "html_escape u = a @ escape_char c @ html_escape r" by (simp add: u html_escape_def)
    have c128: "(of_char c :: nat) < 128" using c by (auto simp: escape_char_def split: if_splits)
    obtain x y where xy: "escape_char c = x # y" "(of_char x :: nat) < 128" "ascii y"
      using c by (auto simp: escape_char_def split: if_splits)
    have drop: "utf8_valid (map of_char (y @ s)) \<longleftrightarrow> utf8_valid (map of_char s)" if "ascii y" for y s :: string
      using that by (induction y) auto
    have "utf8_valid (map of_char a) \<and> utf8_valid (map of_char (html_escape r))"
      using "1.prems" xy utf8_valid_split [of "of_char x" "map of_char a" "map of_char (y @ html_escape r)"] drop [OF xy(3)]
      by (simp add: esc)
    moreover have "utf8_valid (map of_char (html_escape r)) \<Longrightarrow> utf8_valid (map of_char r)" using "1.IH" by (simp add: u)
    ultimately show ?thesis using utf8_valid_split [of "of_char c" "map of_char a" "map of_char r"] c128 by (simp add: u)
  qed
qed

lemma utf8_valid_between:
  assumes "utf8_valid (map of_char (a @ [x] @ b @ [y] @ c))" and "(of_char x :: nat) < 128" and "(of_char y :: nat) < 128"
  shows "utf8_valid (map of_char b)"
proof -
  have "utf8_valid (map of_char (b @ [y] @ c))"
    using assms(1) utf8_valid_split [OF assms(2), of "map of_char a" "map of_char (b @ [y] @ c)"] by simp
  then show ?thesis using utf8_valid_split [OF assms(3), of "map of_char b" "map of_char c"] by simp
qed

lemma cell_in_page:
  assumes "(css, cells) \<in> set (page_rows d)" and "u \<in> set cells"
  shows "\<exists>a b. render stamp d = a @ [CHR ''>''] @ html_escape u @ [CHR ''<''] @ b"
proof -
  have in_concat: "x \<in> set xs \<Longrightarrow> \<exists>a b. concat (map f xs) = a @ f x @ b" for f :: "'x \<Rightarrow> string" and x xs
    by (metis concat.simps(2) concat_append list.simps(9) map_append split_list)
  have "cell u = ''<td'' @ [CHR ''>''] @ html_escape u @ [CHR ''<''] @ ''/td>''" by (simp add: cell_def)
  with in_concat [OF assms(2), of cell] obtain a1 b1 where c: "concat (map cell cells) = a1 @ [CHR ''>''] @ html_escape u @ [CHR ''<''] @ b1"
    by (metis append.assoc)
  then obtain a2 b2 where r: "row_html (css, cells) = a2 @ [CHR ''>''] @ html_escape u @ [CHR ''<''] @ b2"
    unfolding row_html_def prod.case by (metis append.assoc)
  with in_concat [OF assms(1), of row_html] obtain a3 b3 where
    "concat (map row_html (page_rows d)) = a3 @ [CHR ''>''] @ html_escape u @ [CHR ''<''] @ b3"
    by (metis append.assoc)
  moreover have "page_rows d \<noteq> []" using assms(1) by auto
  ultimately show ?thesis unfolding render_def if_not_P [OF \<open>page_rows d \<noteq> []\<close>] by (metis append.assoc)
qed

lemma broken_name_unpublished:
  assumes "PyDict e \<in> set (take 300 (rev events))" and "dget e ''username'' = PyStr u" and "utf8_decode u = None"
  shows "\<exists>x. publish P stamp events = Inl x"
proof (cases "page_of P events")
  case (Inr d)
  obtain es where es: "events = map PyDict es" "emap (event_row P) (take 300 (rev es)) = Inr (page_rows d)"
    by (rule page_of_spec [OF Inr])
  have "e \<in> set (take 300 (rev es))" using assms(1) by (auto simp: es(1) rev_map take_map)
  then obtain css cells where row: "event_row P e = Inr (css, cells)" "(css, cells) \<in> set (page_rows d)"
    using emap_mem [OF es(2)] by fastforce
  have "u \<noteq> []" using assms(3) by (auto simp: utf8_decode_def)
  then have "u \<in> set cells" using row(1) assms(2)
    by (cases "dget_or e ''timestamp_iso'' (PyStr [])")
      (auto simp: event_row_def Let_def ebind_eq_Inr or_dash_def py_or_def py_str_def split del: if_split)
  then obtain a b where page: "render stamp d = a @ [CHR ''>''] @ html_escape u @ [CHR ''<''] @ b"
    using cell_in_page [OF row(2)] by blast
  have "utf8_decode (render stamp d) = None"
    using utf8_valid_between [of a "CHR ''>''" "html_escape u" "CHR ''<''" b] utf8_valid_escape [of u] assms(3)
    by (auto simp: page utf8_decode_def split: if_splits)
  then show ?thesis by (simp add: publish_def build_html_def Inr)
qed (simp add: publish_def build_html_def)

text \<open>
  A finding: one request by anybody stops the dashboard. A login attempt, answered in whatever way, with a user name that holds half of a
  surrogate pair (\<open>"\ud800"\<close> in the body) is logged under that name, and as long as the event is among the last 300 the page cannot be
  written.
\<close>

theorem one_login_breaks_the_dashboard:
  assumes "handle_login P cfg D q (PyDict b) s = (Inr (code, v), s')"
    and "verify_chain (float_repr P) (idp_audit s) = Inr (Intact k)" and "log_writable (idp_audit s)"
    and "dget_or b ''username'' (PyStr []) = PyStr u" and "utf8_decode u = None" and "length later < 300"
  shows "\<exists>x. publish P stamp (read_events (idp_audit s') @ later) = Inl x"
proof -
  from login_logged [OF assms(1-3)] assms(4) obtain e where
    e: "read_events (idp_audit s') = read_events (idp_audit s) @ [PyDict e]" "map_of e ''username'' = Some (PyStr u)" by auto
  have "PyDict e \<in> set (take 300 (rev (read_events (idp_audit s') @ later)))"
    using assms(6) by (simp add: e(1) take_Cons' take_rev [symmetric])
  then show ?thesis by (rule broken_name_unpublished) (use e(2) assms(5) in \<open>simp_all add: dget_def\<close>)
qed

section \<open>Witnesses\<close>

text \<open>A log with a script for a user name.\<close>

definition script_event :: pyval where
  "script_event = PyDict [(''event'', PyStr ''access''), (''username'', PyStr ''<script>''), (''decision'', PyStr ''deny''),
     (''resource'', PyStr ''docs-app''), (''timestamp_iso'', PyStr ''2026-01-01T00:00:00'')]"

lemma script_drawn: obtains d where "page_of (toy_prims []) [script_event] = Inr d" "n_deny d = 1"
  using that
  by (simp add: page_of_def script_event_def as_dict_def accesses_def with_decision_def dict_simps counter_def count_user_def
      event_row_def css_of_def Let_def)

theorem log_text_adds_no_markup_witness:
  "\<exists>d. build_html (toy_prims []) ''now'' [script_event] = Inr (render ''now'' d) \<and>
     markup (render ''now'' d) = markup (render ''now'' (without_texts d))"
proof -
  obtain d where "page_of (toy_prims []) [script_event] = Inr d" by (rule script_drawn)
  then have run: "build_html (toy_prims []) ''now'' [script_event] = Inr (render ''now'' d)" by (simp add: build_html_def)
  from log_text_adds_no_markup [OF run] run show ?thesis by auto
qed

theorem page_accounts_for_the_log_witness:
  "\<exists>d. page_of (toy_prims []) [script_event] = Inr d \<and> n_total d = 1 \<and> sum_list (map snd (reason_bars d)) = 1"
proof -
  obtain d where run: "page_of (toy_prims []) [script_event] = Inr d" "n_deny d = 1" by (rule script_drawn)
  from page_accounts_for_the_log [OF run(1)] run show ?thesis by auto
qed

theorem drawable_logs_are_drawn_witness: "\<exists>page. build_html (toy_prims []) ''now'' [script_event] = Inr page"
  by (rule drawable_logs_are_drawn) (simp add: script_event_def drawable_def dict_simps)

text \<open>The bytes of U+D800.\<close>

definition half_pair :: string where
  "half_pair = [CHR 0xED, CHR 0xA0, CHR 0x80]"

theorem one_login_breaks_the_dashboard_witness:
  "\<exists>r s' x. handle_login (toy_prims []) default_config no_directory calm (PyDict [(''username'', PyStr half_pair)]) fresh_idp = (r, s') \<and>
     publish (toy_prims []) ''now'' (read_events (idp_audit s')) = Inl x"
proof -
  let ?u = half_pair let ?b = "[(''username'', PyStr ?u)]"
  have c: "check_credentials (toy_prims []) default_config no_directory ?u (PyStr []) (PyStr []) (clk calm 1) = Inr (Inl ''invalid_credentials'')"
    by (simp add: check_credentials_def get_auth_def default_config_def local_get_user_def USERS_def half_pair_def)
  obtain l where l: "is_locked_out ?u (clk calm 0) (idp_limiter fresh_idp) = ((False, 0), l)"
    by (simp add: is_locked_out_def rl_get_def fresh_entry_def fresh_idp_def)
  obtain v s' where run: "handle_login (toy_prims []) default_config no_directory calm (PyDict ?b) fresh_idp = (Inr (401, v), s')"
    using c l
    by (simp add: handle_login_def as_dict_def dict_simps with_limiter_def on_part_def osafe_def obind_def olift_def oret_def idp_log_def
        log_event_def read_last_hash_def audit_append_def compute_hash_def no_log_def fresh_idp_def login_event_def audit_event_def with_audit_def Let_def)
  have u: "utf8_decode ?u = None" by code_simp
  have "verify_chain (float_repr (toy_prims [])) (idp_audit fresh_idp) = Inr (Intact 0)" "log_writable (idp_audit fresh_idp)"
    by (simp_all add: fresh_idp_def no_log_intact no_log_writable)
  from one_login_breaks_the_dashboard [OF run this _ u, of "[]"] run show ?thesis by (simp add: dict_simps)
qed

end
