(* ===== verification/NetworkProbe.thy ===== *)
theory NetworkProbe
  imports ProvisionCerts
begin

text \<open>
  \<open>tools/network_probe.py\<close>: the probe of a deployment from one of its hosts. The network is a record of functions, which does not change
  during the probe: the outcome of a TCP connection, and what the module \<open>ssl\<close> and the peer do with a context, up to the end of the
  handshake and then on the first request. An error carries its place in the exception hierarchy, the name of its class and its text.
\<close>

section \<open>Connections\<close>

datatype error_kind = Timeout | Refused | Reset | BadCertificate string | SslFailure "string option" | OtherOsError

record sock_error =
  err_kind :: error_kind
  type_name :: string
  err_text :: string

text \<open>The peer after a handshake: the relative names of its subject (none when it was not verified), and the first 64 bytes it answers.\<close>

record tls_peer =
  peer_subject :: "(string \<times> string) list list"
  tls_version :: string
  first_data :: "sock_error + string"

record probe_net =
  tcp_connect :: "string \<Rightarrow> int \<Rightarrow> sock_error + real"
  dial :: "string \<Rightarrow> int \<Rightarrow> tls_context \<Rightarrow> sock_error + tls_peer"

datatype probe_note =
    ConnectedIn real
  | TimedOut
  | ConnectionRefused
  | OsNote string string
  | ClosedWithoutResponse
  | Answered string string
  | HandshakeOk string string
  | VerificationFailed string
  | TlsRefused string
  | ResetAfterHandshake string

definition try_tcp :: "probe_net \<Rightarrow> string \<Rightarrow> int \<Rightarrow> bool \<times> probe_note" where
  "try_tcp w host port =
     (case tcp_connect w host port of
        Inr ms \<Rightarrow> (True, ConnectedIn ms)
      | Inl e \<Rightarrow> (False,
          case err_kind e of
            Timeout \<Rightarrow> TimedOut
          | Refused \<Rightarrow> ConnectionRefused
          | _ \<Rightarrow> OsNote (type_name e) (err_text e)))"

text \<open>The last common name of a subject.\<close>

definition common_name :: "(string \<times> string) list list \<Rightarrow> string" where
  "common_name subject = fold (\<lambda>(k, v) cn. if k = ''commonName'' then v else cn) (concat subject) []"

definition shown_name :: "(string \<times> string) list list \<Rightarrow> string" where
  "shown_name subject = (let cn = common_name subject in if cn = [] then ''unknown'' else cn)"

definition tls_note :: "sock_error \<Rightarrow> probe_note" where
  "tls_note e =
     (case err_kind e of
        BadCertificate why \<Rightarrow> VerificationFailed why
      | SslFailure why \<Rightarrow> TlsRefused (case why of Some r \<Rightarrow> if r = [] then err_text e else r | None \<Rightarrow> err_text e)
      | Reset \<Rightarrow> ResetAfterHandshake (type_name e)
      | Timeout \<Rightarrow> TimedOut
      | _ \<Rightarrow> OsNote (type_name e) (err_text e))"

text \<open>\<open>client_cert\<close> is the pair of the key file and the certificate file.\<close>

definition probe_context :: "keystore \<Rightarrow> (string \<times> string) option \<Rightarrow> bool \<Rightarrow> tls_context" where
  "probe_context s client_cert verify =
     (let ca = (if verify then kfiles s CA_CERT_PATH else None) in
      \<lparr>chain = client_cert, trusted = ca, peer_required = (ca \<noteq> None)\<rparr>)"

definition try_tls :: "probe_net \<Rightarrow> keystore \<Rightarrow> string \<Rightarrow> int \<Rightarrow> (string \<times> string) option \<Rightarrow> bool \<Rightarrow> bool \<Rightarrow> bool \<times> probe_note" where
  "try_tls w s host port client_cert verify do_io =
     (case dial w host port (probe_context s client_cert verify) of
        Inl e \<Rightarrow> (False, tls_note e)
      | Inr peer \<Rightarrow>
          if do_io then
            (case first_data peer of
               Inl e \<Rightarrow> (False, tls_note e)
             | Inr bytes \<Rightarrow>
                 if bytes = [] then (False, ClosedWithoutResponse)
                 else (True, Answered (shown_name (peer_subject peer)) (tls_version peer)))
          else (True, HandshakeOk (shown_name (peer_subject peer)) (tls_version peer)))"

section \<open>The probe\<close>

datatype probe_role = AgentHost | GatewayHost

record probe_args =
  probe_role :: probe_role
  probe_gateway :: "string \<times> int"
  probe_idp :: "string option"
  probe_idp_port :: int
  probe_resource :: "string \<times> int"

record probe_row =
  row_name :: string
  actual :: bool
  expected :: bool
  note_of :: probe_note

definition check_row :: "string \<Rightarrow> bool \<times> probe_note \<Rightarrow> bool \<Rightarrow> probe_row" where
  "check_row name r expect = \<lparr>row_name = name, actual = fst r, expected = expect, note_of = snd r\<rparr>"

definition probe_certificate :: "ca_prims \<Rightarrow> string list \<Rightarrow> int \<Rightarrow> probe_role \<Rightarrow> keystore \<Rightarrow> (string \<times> string) option \<times> keystore" where
  "probe_certificate C env_sans t role s =
     (case role of
        AgentHost \<Rightarrow> (None, s)
      | GatewayHost \<Rightarrow>
          (case issue_cert C GATEWAY_CLIENT_CERT_CN True env_sans t s of
             (Inl _, s') \<Rightarrow> (None, s')
           | (Inr kc, s') \<Rightarrow> (Some kc, s')))"

definition probe_rows :: "probe_net \<Rightarrow> probe_args \<Rightarrow> (string \<times> string) option \<Rightarrow> keystore \<Rightarrow> probe_row list" where
  "probe_rows w a client_cert s =
     (let (gh, gp) = probe_gateway a; (rh, rp) = probe_resource a in
      [check_row ''Gateway reachable over TLS'' (try_tls w s gh gp None True True) True] @
      (case probe_idp a of
         None \<Rightarrow> []
       | Some ih \<Rightarrow> if ih = [] then [] else [check_row ''IdP reachable over TLS'' (try_tls w s ih (probe_idp_port a) None True True) True]) @
      [check_row ''Direct TCP to protected resource'' (try_tcp w rh rp) (probe_role a = GatewayHost),
       check_row ''TLS to resource WITHOUT client cert'' (try_tls w s rh rp None True True) False] @
      (if probe_role a = GatewayHost \<and> client_cert \<noteq> None
       then [check_row ''TLS to resource WITH client cert'' (try_tls w s rh rp client_cert True True) True] else []))"

definition probe_main :: "ca_prims \<Rightarrow> string list \<Rightarrow> int \<Rightarrow> probe_net \<Rightarrow> probe_args \<Rightarrow> keystore \<Rightarrow> (int \<times> probe_row list) \<times> keystore" where
  "probe_main C env_sans t w a s =
     (case probe_certificate C env_sans t (probe_role a) s of
        (client_cert, s') \<Rightarrow>
          (let rows = probe_rows w a client_cert s'; failures = length (filter (\<lambda>r. actual r \<noteq> expected r) rows) in
           ((if failures \<noteq> 0 then 1 else 0, rows), s')))"

section \<open>What a pass shows\<close>

text \<open>A peer answers a request made with this certificate.\<close>

definition answers_with :: "probe_net \<Rightarrow> keystore \<Rightarrow> string \<times> int \<Rightarrow> (string \<times> string) option \<Rightarrow> bool" where
  "answers_with w s = (\<lambda>(host, port) client_cert.
     \<exists>peer bytes. dial w host port (probe_context s client_cert True) = Inr peer \<and> first_data peer = Inr bytes \<and> bytes \<noteq> [])"

lemma try_tls_iff: "fst (try_tls w s host port client_cert True True) \<longleftrightarrow> answers_with w s (host, port) client_cert"
  by (auto simp: try_tls_def answers_with_def split: sum.splits)

lemma try_tcp_iff: "fst (try_tcp w host port) \<longleftrightarrow> (\<exists>ms. tcp_connect w host port = Inr ms)"
  by (auto simp: try_tcp_def split: sum.splits)

lemma probe_passes_iff:
  "fst (fst (probe_main C env_sans t w a s)) = 0 \<longleftrightarrow> (\<forall>r \<in> set (snd (fst (probe_main C env_sans t w a s))). actual r = expected r)"
  by (auto simp: probe_main_def Let_def filter_empty_conv split: prod.splits)

lemma probe_rows_ok:
  "(\<forall>r \<in> set (probe_rows w a client_cert s). actual r = expected r) \<longleftrightarrow>
     answers_with w s (probe_gateway a) None \<and>
     (\<forall>ih. probe_idp a = Some ih \<and> ih \<noteq> [] \<longrightarrow> answers_with w s (ih, probe_idp_port a) None) \<and>
     ((\<exists>ms. tcp_connect w (fst (probe_resource a)) (snd (probe_resource a)) = Inr ms) \<longleftrightarrow> probe_role a = GatewayHost) \<and>
     \<not> answers_with w s (probe_resource a) None \<and>
     (probe_role a = GatewayHost \<and> client_cert \<noteq> None \<longrightarrow> answers_with w s (probe_resource a) client_cert)"
  by (cases "probe_gateway a"; cases "probe_resource a"; cases "probe_idp a")
    (auto simp: probe_rows_def check_row_def try_tls_iff try_tcp_iff)

lemma probe_passes:
  assumes "probe_certificate C env_sans t (probe_role a) s = (client_cert, s')"
  shows "fst (fst (probe_main C env_sans t w a s)) = 0 \<longleftrightarrow> (\<forall>r \<in> set (probe_rows w a client_cert s'). actual r = expected r)"
  unfolding probe_passes_iff by (simp add: probe_main_def assms Let_def)

section \<open>Properties\<close>

text \<open>
  What a pass on the Gateway's host shows of the resource: it answers a request made with the Gateway's client certificate and none made
  without, so the certificate is what it asks for. This holds provided that the certificate could be loaded.
\<close>

theorem gateway_probe_shows_mtls:
  assumes "probe_role a = GatewayHost" and "issue_cert C GATEWAY_CLIENT_CERT_CN True env_sans t s = (Inr kc, s')"
    and "fst (fst (probe_main C env_sans t w a s)) = 0"
  shows "answers_with w s' (probe_gateway a) None \<and> \<not> answers_with w s' (probe_resource a) None \<and>
    answers_with w s' (probe_resource a) (Some (service_key_path GATEWAY_CLIENT_CERT_CN, service_cert_path GATEWAY_CLIENT_CERT_CN))"
proof -
  have cert: "probe_certificate C env_sans t (probe_role a) s = (Some kc, s')"
    using assms(1,2) by (simp add: probe_certificate_def)
  show ?thesis using assms(1,3) issue_paths [OF assms(2)] by (simp add: probe_passes [OF cert] probe_rows_ok)
qed

text \<open>
  When it could not be loaded, the check with the certificate is left out and the probe can still pass: whether the resource ever answers
  the Gateway does not matter.
\<close>

theorem probe_passes_without_certificate:
  assumes "probe_role a = GatewayHost" and "issue_cert C GATEWAY_CLIENT_CERT_CN True env_sans t s = (Inl x, s')" and "probe_idp a = None"
    and "answers_with w s' (probe_gateway a) None" and "tcp_connect w (fst (probe_resource a)) (snd (probe_resource a)) = Inr ms"
    and "\<And>cert. \<not> answers_with w s' (probe_resource a) cert"
  shows "fst (fst (probe_main C env_sans t w a s)) = 0"
proof -
  have cert: "probe_certificate C env_sans t (probe_role a) s = (None, s')"
    using assms(1,2) by (simp add: probe_certificate_def)
  show ?thesis using assms by (simp add: probe_passes [OF cert] probe_rows_ok)
qed

text \<open>
  On any other host a pass is about the network alone: a handshake needs a connection, so once the connection to the resource fails the
  attempt without a certificate fails with it, and the verdict is the same whether the resource asks for certificates or not.
\<close>

theorem agent_probe_is_about_the_network:
  assumes "probe_role a = AgentHost"
    and "\<And>host port ctx peer. dial w host port ctx = Inr peer \<Longrightarrow> \<exists>ms. tcp_connect w host port = Inr ms"
  shows "fst (fst (probe_main C env_sans t w a s)) = 0 \<longleftrightarrow>
    answers_with w s (probe_gateway a) None \<and>
    (\<forall>ih. probe_idp a = Some ih \<and> ih \<noteq> [] \<longrightarrow> answers_with w s (ih, probe_idp_port a) None) \<and>
    (\<nexists>ms. tcp_connect w (fst (probe_resource a)) (snd (probe_resource a)) = Inr ms)"
proof -
  have cert: "probe_certificate C env_sans t (probe_role a) s = (None, s)"
    using assms(1) by (simp add: probe_certificate_def)
  have "\<exists>ms. tcp_connect w (fst (probe_resource a)) (snd (probe_resource a)) = Inr ms" if "answers_with w s (probe_resource a) None"
    using that assms(2) by (auto simp: answers_with_def split: prod.splits)
  then show ?thesis using assms(1) by (auto simp: probe_passes [OF cert] probe_rows_ok)
qed

section \<open>Witnesses\<close>

text \<open>A Gateway that answers everyone, and a resource that answers whoever presents a certificate.\<close>

definition mtls_net :: probe_net where
  "mtls_net = \<lparr>tcp_connect = (\<lambda>_ _. Inr 1),
     dial = (\<lambda>host _ ctx. Inr \<lparr>peer_subject = [], tls_version = ''TLSv1.3'',
       first_data = (if host = ''res'' \<and> chain ctx = None then Inr [] else Inr ''HTTP/1.1 200 OK'')\<rparr>)\<rparr>"

definition probe_of :: "probe_role \<Rightarrow> probe_args" where
  "probe_of role = \<lparr>probe_role = role, probe_gateway = (''gw'', 9200), probe_idp = None, probe_idp_port = 9000, probe_resource = (''res'', 9101)\<rparr>"

lemma mtls_net_answers: "answers_with mtls_net s p cert \<longleftrightarrow> \<not> (fst p = ''res'' \<and> cert = None)"
  by (cases p) (simp add: answers_with_def mtls_net_def probe_context_def Let_def)

theorem gateway_probe_shows_mtls_witness:
  "\<exists>s'. answers_with mtls_net s' (''gw'', 9200) None \<and> \<not> answers_with mtls_net s' (''res'', 9101) None \<and>
     answers_with mtls_net s' (''res'', 9101) (Some (service_key_path GATEWAY_CLIENT_CERT_CN, service_cert_path GATEWAY_CLIENT_CERT_CN))"
proof -
  obtain kc s' where run: "issue_cert toy_ca GATEWAY_CLIENT_CERT_CN True [] 5 empty_keys = (Inr kc, s')"
    by (rule toy_issue_any)
  have cert: "probe_certificate toy_ca [] 5 (probe_role (probe_of GatewayHost)) empty_keys = (Some kc, s')"
    by (simp add: probe_certificate_def run probe_of_def)
  have "fst (fst (probe_main toy_ca [] 5 mtls_net (probe_of GatewayHost) empty_keys)) = 0"
    unfolding probe_passes [OF cert] probe_rows_ok by (simp add: mtls_net_answers probe_of_def) (simp add: mtls_net_def)
  from gateway_probe_shows_mtls [OF _ run this] show ?thesis by (auto simp: probe_of_def)
qed

text \<open>A resource that accepts connections and answers nobody, and one behind a firewall.\<close>

definition dead_net :: "bool \<Rightarrow> probe_net" where
  "dead_net firewall = \<lparr>tcp_connect = (\<lambda>host _. if firewall \<and> host = ''res'' then Inl \<lparr>err_kind = Timeout, type_name = ''timeout'', err_text = ''timed out''\<rparr> else Inr 1),
     dial = (\<lambda>host _ ctx. if host = ''res'' then Inl \<lparr>err_kind = Timeout, type_name = ''timeout'', err_text = ''timed out''\<rparr>
       else Inr \<lparr>peer_subject = [], tls_version = ''TLSv1.3'', first_data = Inr ''HTTP/1.1 200 OK''\<rparr>)\<rparr>"

lemma dead_net_answers: "answers_with (dead_net fw) s p cert \<longleftrightarrow> fst p \<noteq> ''res''"
  by (cases p) (simp add: answers_with_def dead_net_def)

theorem probe_passes_without_certificate_witness:
  "fst (fst (probe_main (toy_ca\<lparr>key_valid := \<lambda>_. False\<rparr>) [] 5 (dead_net False) (probe_of GatewayHost) empty_keys)) = 0"
proof -
  let ?C = "toy_ca\<lparr>key_valid := \<lambda>_. False\<rparr>"
  have "ensure_ca ?C 5 empty_keys = write_file CA_CERT_PATH (cert_pem ?C (ca_certificate ?C (gen_key ?C 0) 5))
      (write_file CA_KEY_PATH (gen_key ?C 0) (empty_keys\<lparr>generated := 1\<rparr>))"
    by (simp add: ensure_ca_def on_disk_def empty_keys_def generate_key_def)
  then obtain s' where "load_ca ?C 5 empty_keys = (Inl ValueError, s')"
    by (simp add: load_ca_def Let_def read_file_def)
  then have run: "issue_cert ?C GATEWAY_CLIENT_CERT_CN True [] 5 empty_keys = (Inl ValueError, s')"
    by (simp add: issue_cert_def Let_def on_disk_def empty_keys_def obind_def)
  show ?thesis
    by (rule probe_passes_without_certificate [OF _ run, where ms = 1]) (simp_all add: probe_of_def dead_net_answers, simp add: dead_net_def)
qed

theorem agent_probe_is_about_the_network_witness:
  "fst (fst (probe_main toy_ca [] 5 (dead_net True) (probe_of AgentHost) empty_keys)) = 0"
proof -
  have "\<exists>ms. tcp_connect (dead_net True) host port = Inr ms" if "dial (dead_net True) host port ctx = Inr peer" for host port ctx peer
    using that by (auto simp: dead_net_def split: if_splits)
  from agent_probe_is_about_the_network [where a = "probe_of AgentHost" and C = toy_ca and env_sans = "[]" and t = 5 and s = empty_keys, OF _ this]
  show ?thesis
    by (simp add: probe_of_def dead_net_answers) (simp add: dead_net_def)
qed

end
