(* ===== verification/VerifyInstall.thy ===== *)
theory VerifyInstall
  imports PyStrings
begin

text \<open>
  \<open>VERIFY_INSTALL.py\<close>: the self-check of a copy of the project. The copy is the map of its files to their bytes; a path that exists and
  cannot be read, a directory for example, is not modelled. What is printed for each failure is data.
\<close>

type_synonym file_check = "string \<times> string \<times> string"

definition CHECKS :: "file_check list" where
  "CHECKS =
     [(''idp/idp_server.py'', ''rate_limiter'', ''IdP calls the login rate limiter''),
      (''idp/idp_server.py'', ''auth_backends'', ''IdP uses the pluggable auth backend''),
      (''idp/idp_server.py'', ''account_locked'', ''IdP returns 429 on lockout''),
      (''common/config.py'', (''JWT_ALGORITHM = '' @ [CHR 0x22] @ ''RS256'' @ [CHR 0x22] @ ''''), ''Tokens are RS256, not HS256''),
      (''common/config.py'', ''MTLS_ENABLED'', ''mTLS configuration present''),
      (''common/config.py'', ''LOGIN_MAX_ATTEMPTS'', ''Rate-limit thresholds configured''),
      (''common/jwt_utils.py'', ''jti'', ''Tokens carry a revocable token id''),
      (''common/jwt_utils.py'', ''load_private_key_pem'', ''Signing uses the RSA private key''),
      (''gateway/gateway_server.py'', ''revocation.is_revoked'', ''Gateway checks the revocation list''),
      (''gateway/gateway_server.py'', ''HTTPSConnection'', ''Gateway proxies over TLS''),
      (''common/audit_log.py'', ''prev_hash'', ''Audit log is hash-chained''),
      (''common/audit_log.py'', ''verify_chain'', ''Audit chain verification available''),
      (''pdp/policy_engine.py'', ''POLICIES_FILE'', ''Policy loads from pdp/policies.json''),
      (''agent/device_attestation.py'', ''CERT_B64'', ''TPM path uses RawData export (PS 5.1 compatible)''),
      (''agent/device_attestation.py'', ''_debug('', ''Attestation failures are diagnosable''),
      (''agent/device_posture.py'', ''fdesetup'', ''Posture checks cover macOS''),
      (''agent/device_posture.py'', ''cryptsetup'', ''Posture checks cover Linux''),
      (''common/http_utils.py'', ''PyZTNA/2.1'', ''Server version string is current''),
      (''common/jwt_utils.py'', ''auth_time'', ''Tokens carry auth_time for step-up policy''),
      (''common/jwt_utils.py'', ''cnf_jkt'', ''Tokens can be bound to a device key''),
      (''common/http_utils.py'', ''_builtin_ready'', ''Readiness endpoint is present''),
      (''common/http_utils.py'', ''_drain_and_stop'', ''Graceful shutdown is wired up''),
      (''idp/device_registry.py'', ''STATUS_PENDING'', ''Device enrollment requires approval''),
      (''pdp/policy_engine.py'', ''max_auth_age'', ''PDP enforces step-up freshness''),
      (''gateway/gateway_server.py'', ''token_requires_proof'', ''Gateway enforces token binding'')]"

definition REQUIRED_FILES :: "string list" where
  "REQUIRED_FILES =
     [''common/rate_limiter.py'',
      ''common/revocation.py'',
      ''common/rsa_utils.py'',
      ''common/ca_utils.py'',
      ''common/token_store.py'',
      ''common/totp.py'',
      ''idp/auth_backends.py'',
      ''pdp/policies.json'',
      ''tools/revoke_token.py'',
      ''tools/verify_audit_log.py'',
      ''docs/HARDENING.md'',
      ''common/storage.py'',
      ''common/obs.py'',
      ''common/preflight.py'',
      ''common/token_binding.py'',
      ''tools/manage_devices.py'',
      ''tools/rotate_keys.py'',
      ''tools/backup_audit_log.py'',
      ''tools/check_no_secrets.py'',
      ''docs/PRODUCTION_READINESS.md'',
      ''docs/KEY_ROTATION.md'',
      ''LICENSE'',
      ''.github/workflows/ci.yml'']"

definition FORBIDDEN :: "file_check list" where
  "FORBIDDEN =
     [(''common/config.py'', (''JWT_ALGORITHM = '' @ [CHR 0x22] @ ''HS256'' @ [CHR 0x22] @ ''''), ''config.py is the OLD pre-hardening version''),
      (''common/config.py'', ''JWT_SECRET = os.environ'', ''config.py still uses a shared secret'')]"

datatype failure = MissingFile string | StaleFile string string | OldCode string string

text \<open>\<open>f.read()\<close> with \<open>errors="replace"\<close>.\<close>

definition read_text :: "string \<Rightarrow> string" where
  "read_text bytes = universal_newlines (decode_lenient replacement_char bytes)"

definition check_marker :: "(string \<rightharpoonup> string) \<Rightarrow> file_check \<Rightarrow> failure list" where
  "check_marker fs = (\<lambda>(rel, marker, desc). case fs rel of
       None \<Rightarrow> [MissingFile rel]
     | Some bytes \<Rightarrow> if contains marker (read_text bytes) then [] else [StaleFile rel desc])"

definition check_forbidden :: "(string \<rightharpoonup> string) \<Rightarrow> file_check \<Rightarrow> failure list" where
  "check_forbidden fs = (\<lambda>(rel, marker, desc). case fs rel of
       None \<Rightarrow> []
     | Some bytes \<Rightarrow> if contains marker (read_text bytes) then [OldCode rel desc] else [])"

text \<open>The exit status and the failures.\<close>

definition verify_main :: "(string \<rightharpoonup> string) \<Rightarrow> int \<times> failure list" where
  "verify_main fs =
     (let failures =
            map MissingFile (filter (\<lambda>rel. fs rel = None) REQUIRED_FILES) @
            concat (map (check_marker fs) CHECKS) @ concat (map (check_forbidden fs) FORBIDDEN)
      in (if failures \<noteq> [] then 1 else 0, failures))"

section \<open>What a pass means\<close>

definition has_marker :: "(string \<rightharpoonup> string) \<Rightarrow> string \<Rightarrow> string \<Rightarrow> bool" where
  "has_marker fs rel marker \<longleftrightarrow> (\<exists>bytes. fs rel = Some bytes \<and> contains marker (read_text bytes))"

lemma marker_failures:
  "f \<in> set (check_marker fs (rel, marker, desc)) \<longleftrightarrow>
     (fs rel = None \<and> f = MissingFile rel) \<or> (fs rel \<noteq> None \<and> \<not> has_marker fs rel marker \<and> f = StaleFile rel desc)"
  "f \<in> set (check_forbidden fs (rel, marker, desc)) \<longleftrightarrow> has_marker fs rel marker \<and> f = OldCode rel desc"
  by (cases "fs rel"; auto simp: check_marker_def check_forbidden_def has_marker_def)+

lemma passes:
  "check_marker fs c = [] \<longleftrightarrow> (case c of (rel, marker, desc) \<Rightarrow> has_marker fs rel marker)"
  "check_forbidden fs c = [] \<longleftrightarrow> (case c of (rel, marker, desc) \<Rightarrow> \<not> has_marker fs rel marker)"
  by (cases c; cases "fs (fst c)"; simp add: check_marker_def check_forbidden_def has_marker_def)+

text \<open>
  The check passes exactly for a complete copy: every required file is there, every file of the table is there with its marker, and no
  file has a marker of the old code. Every failure that it names is one.
\<close>

theorem install_check_is_exact:
  "fst (verify_main fs) = 0 \<longleftrightarrow>
     (\<forall>rel \<in> set REQUIRED_FILES. fs rel \<noteq> None) \<and> (\<forall>(rel, marker, desc) \<in> set CHECKS. has_marker fs rel marker) \<and>
     (\<forall>(rel, marker, desc) \<in> set FORBIDDEN. \<not> has_marker fs rel marker)"
proof -
  have m: "concat (map (check_marker fs) cs) = [] \<longleftrightarrow> (\<forall>(rel, marker, desc) \<in> set cs. has_marker fs rel marker)" for cs
    by (induction cs) (simp_all add: passes)
  have f: "concat (map (check_forbidden fs) cs) = [] \<longleftrightarrow> (\<forall>(rel, marker, desc) \<in> set cs. \<not> has_marker fs rel marker)" for cs
    by (induction cs) (simp_all add: passes)
  have r: "map MissingFile (filter (\<lambda>rel. fs rel = None) rs) = [] \<longleftrightarrow> (\<forall>rel \<in> set rs. fs rel \<noteq> None)" for rs
    by (simp add: filter_empty_conv)
  have "fst (verify_main fs) = 0 \<longleftrightarrow> snd (verify_main fs) = []" by (simp add: verify_main_def Let_def)
  also have "\<dots> \<longleftrightarrow> map MissingFile (filter (\<lambda>rel. fs rel = None) REQUIRED_FILES) = [] \<and>
      concat (map (check_marker fs) CHECKS) = [] \<and> concat (map (check_forbidden fs) FORBIDDEN) = []"
    by (simp only: verify_main_def Let_def snd_conv append_is_Nil_conv)
  finally show ?thesis unfolding m f r .
qed

end
