(* ===== verification/ServiceInvariants.thy ===== *)
theory ServiceInvariants
  imports EndToEnd
begin

text \<open>
  What no sequence of requests can change. A service is a family of applications, one for what surrounds each request; the locale
  \<open>service_invariant\<close> asks its handlers and its store probe to preserve an invariant, and shows that serving preserves it. It is
  interpreted on the Gateway and on the identity provider.
\<close>

section \<open>Serving one request after the other\<close>

fun serve_all ::
  "prims \<Rightarrow> config \<Rightarrow> ('i \<Rightarrow> 'a application) \<Rightarrow> ('i \<times> surroundings \<times> http_request) list \<Rightarrow> 'a server \<Rightarrow> 'a server" where
  "serve_all P cfg A [] s = s"
| "serve_all P cfg A ((i, q, req) # rs) s = serve_all P cfg A rs (snd (dispatch P cfg q (A i) req s))"

locale service_invariant =
  fixes A :: "'i \<Rightarrow> 'a application" and I :: "'a \<Rightarrow> bool"
  assumes handler_preserves: "preserves I (handlers (A i) name params body)"
    and probe_preserves: "I a \<Longrightarrow> I (snd (store_health (A i) a))"
begin

lemma dispatch_preserves: "dispatch P cfg q (A i) req s = (r, s') \<Longrightarrow> I (app s) \<Longrightarrow> I (app s')"
  by (erule dispatch_app) (auto simp: probe_preserves dest: preservesD [OF handler_preserves])

lemma serving_preserves: "I (app s) \<Longrightarrow> I (app (serve_all P cfg A rs s))"
proof (induction rs arbitrary: s)
  case (Cons r rs)
  obtain i q req where r: "r = (i, q, req)" by (cases r)
  obtain x s1 where "dispatch P cfg q (A i) req s = (x, s1)" by fastforce
  with dispatch_preserves [OF this Cons.prems] Cons.IH show ?case by (simp add: r)
qed simp

end

section \<open>The audit log of a service\<close>

definition audited_chain :: "(real \<Rightarrow> string) \<Rightarrow> audit \<Rightarrow> bool" where
  "audited_chain fr a \<longleftrightarrow> (\<exists>n. verify_chain fr a = Inr (Intact n))"

definition loggable :: "dict \<Rightarrow> bool" where
  "loggable given \<longleftrightarrow> map_of given ''hash'' = None \<and> odict_ok given"

text \<open>Logging preserves the chain, and so does a write that fails.\<close>

lemma log_event_chain: "loggable given \<Longrightarrow> preserves (audited_chain fr) (log_event fr now stamp given)"
proof (rule preservesI)
  fix a r a'
  assume g: "loggable given" and a: "audited_chain fr a" and run: "log_event fr now stamp given a = (r, a')"
  show "audited_chain fr a'"
  proof (cases "log_writable a")
    case True
    then show ?thesis using g a log_event_keeps [OF _ _ _ True run] by (auto simp: audited_chain_def loggable_def)
  next
    case False
    then have "a' = a" using run by (auto simp: log_event_def audit_append_def Let_def split: sum.splits)
    then show ?thesis using a by simp
  qed
qed

lemma gw_log_chain: "loggable given \<Longrightarrow> preserves (\<lambda>s. audited_chain (float_repr P) (gw_audit s)) (gw_log P q given)"
  unfolding gw_log_def by (rule preserves_on_part) (simp_all add: log_event_chain)

lemma idp_log_chain: "loggable given \<Longrightarrow> preserves (\<lambda>s. audited_chain (float_repr P) (idp_audit s)) (idp_log P q n given)"
  unfolding idp_log_def with_audit_def by (rule preserves_on_part) (simp_all add: log_event_chain)

lemma access_event_loggable: "plain_extra extra \<Longrightarrow> loggable (access_event q res dec why extra)"
  by (simp add: loggable_def access_event_ok)

lemma login_event_loggable:
  "distinct (map fst extra) \<Longrightarrow> set (map fst extra) \<subseteq> {''role'', ''role_level'', ''device_id'', ''device_trust_score'', ''attested'', ''jti'',
     ''token_bound'', ''correlation_id'', ''thumbprint''} \<Longrightarrow> loggable (login_event q u dec why extra)"
  by (auto simp: loggable_def login_event_def map_of_eq_None_iff)

section \<open>The Gateway\<close>

abbreviation gw_chain :: "prims \<Rightarrow> gateway \<Rightarrow> bool" where
  "gw_chain P s \<equiv> audited_chain (float_repr P) (gw_audit s)"

lemma plain_extras:
  "plain_extra []" "plain_extra [(''username'', v)]" "plain_extra (who q claims)"
  "plain_extra [(''username'', a), (''role'', b), (''device_id'', c), (''device_trust_score'', d), (''correlation_id'', e)]"
  by (simp_all add: plain_extra_def who_def)

lemma gw_event_chain: "plain_extra extra \<Longrightarrow> preserves (gw_chain P) (gw_log P q (access_event q res dec why extra))"
  by (rule gw_log_chain [OF access_event_loggable])

lemma handle_access_chain: "preserves (gw_chain P) (handle_access P cfg upstream q req)"
proof -
  have proxy: "preserves (gw_chain P) (proxy_to_backend cfg upstream res resource)" for res resource
    unfolding proxy_to_backend_def Let_def by (intro preserves_intros) (simp add: preserves_def)
  have relay: "preserves (gw_chain P) (relay P q res claims reply)" for res claims reply
    unfolding relay_def by (cases reply) (auto intro!: preserves_intros gw_event_chain plain_extras)
  have possession: "preserves (gw_chain P) (require_proof P cfg q req claims)" for claims
    by (rule preservesI) (auto dest: require_proof_cases(2))
  have decide: "preserves (gw_chain P) (decide P cfg upstream q res claims)" for res claims
    unfolding decide_def forward_def by (intro preserves_intros gw_event_chain plain_extras proxy relay)
  show ?thesis
    unfolding handle_access_def Let_def by (intro preserves_intros gw_event_chain plain_extras possession decide)
qed

text \<open>The Gateway with what surrounds a request: the backends, its clock and identifiers, the health error, the path and the headers.\<close>

definition gateway_family ::
  "prims \<Rightarrow> config \<Rightarrow> (pyval \<Rightarrow> pyval \<Rightarrow> bool \<Rightarrow> backend_reply) \<times> request_env \<times> string \<times> string \<times> access_headers \<Rightarrow> gateway application" where
  "gateway_family P cfg = (\<lambda>(upstream, q, err, path, h). gateway_app P cfg upstream q err path h)"

interpretation gw_log_service: service_invariant "gateway_family P cfg" "gw_chain P" for P cfg
proof
  show "preserves (gw_chain P) (handlers (gateway_family P cfg i) name params body)" for i name params body
    by (cases i) (auto simp: gateway_family_def gateway_app_def intro!: preserves_intros handle_access_chain)
  show "gw_chain P (snd (store_health (gateway_family P cfg i) s))" if "gw_chain P s" for i s
    using that by (cases i) (simp add: gateway_family_def gateway_app_def on_part_def split: prod.split)
qed

section \<open>The identity provider\<close>

text \<open>The second invariant: no device is approved with a key that was not approved in a given store.\<close>

definition no_new_approval :: "store \<Rightarrow> idp \<Rightarrow> bool" where
  "no_new_approval st0 s \<longleftrightarrow> (\<forall>k tp. approved_key (reg_store (idp_registry s)) k tp \<longrightarrow> approved_key st0 k tp)"

abbreviation idp_chain :: "prims \<Rightarrow> idp \<Rightarrow> bool" where
  "idp_chain P s \<equiv> audited_chain (float_repr P) (idp_audit s)"

text \<open>Operations on the other parts.\<close>

lemma idp_parts_chain [preserves_intros]:
  "preserves (idp_chain P) (with_limiter f)" "preserves (idp_chain P) (with_registry m)" "preserves (idp_chain P) (with_store n)"
  "preserves (idp_chain P) (with_disk k)" "preserves (idp_chain P) (read_store g)"
  by (auto simp: preserves_def with_limiter_def with_registry_def with_store_def with_disk_def read_store_def on_part_def split: prod.splits)

lemma idp_event_chain:
  "distinct (map fst extra) \<Longrightarrow> set (map fst extra) \<subseteq> {''role'', ''role_level'', ''device_id'', ''device_trust_score'', ''attested'', ''jti'',
     ''token_bound'', ''correlation_id'', ''thumbprint''} \<Longrightarrow> preserves (idp_chain P) (idp_log P q n (login_event q u dec why extra))"
  by (rule idp_log_chain [OF login_event_loggable])

lemma handle_login_chain: "preserves (idp_chain P) (handle_login P cfg D q body)"
  unfolding handle_login_def grant_login_def Let_def
  by (intro preserves_intros idp_event_chain) (auto intro: preserves_intros)

lemma handle_challenge_chain: "preserves (idp_chain P) (handle_challenge q body)"
  unfolding handle_challenge_def Let_def by (intro preserves_intros)

text \<open>A handler that catches the \<open>ValueError\<close> of its first step.\<close>

lemma preserves_catch:
  assumes "preserves I m" and "preserves I h" and "\<And>a. preserves I (f a)"
  shows "preserves I (\<lambda>s. case m s of (Inl ValueError, s1) \<Rightarrow> h s1 | (Inl x, s1) \<Rightarrow> (Inl x, s1) | (Inr a, s1) \<Rightarrow> f a s1)"
proof (rule preservesI)
  fix s r s'
  assume s: "I s" and run: "(case m s of (Inl ValueError, s1) \<Rightarrow> h s1 | (Inl x, s1) \<Rightarrow> (Inl x, s1) | (Inr a, s1) \<Rightarrow> f a s1) = (r, s')"
  obtain x s1 where m: "m s = (x, s1)" by fastforce
  then have s1: "I s1" using preservesD [OF assms(1) s] by simp
  show "I s'"
    using run s1 preservesD [OF assms(2) s1] preservesD [OF assms(3) s1]
    by (auto simp: m split: sum.splits exn.splits) (metis snd_conv)+
qed

lemma enroll_event_chain:
  "distinct (map fst extra) \<Longrightarrow> set (map fst extra) \<subseteq> {''thumbprint''} \<Longrightarrow>
   preserves (idp_chain P) (idp_log P q n ([(''event'', e), (''device_id'', d), (''source_ip'', i), (''decision'', c), (''reason'', w)] @ extra))"
  by (rule idp_log_chain) (auto simp: loggable_def map_of_eq_None_iff)

lemma handle_enroll_chain: "preserves (idp_chain P) (handle_enroll P cfg q body)"
  unfolding handle_enroll_def Let_def
  by (intro preserves_intros preserves_catch enroll_event_chain) auto

section \<open>Approvals\<close>

lemma device_of_disk:
  assumes "\<And>dir. backend st = FileBackend dir \<Longrightarrow> file_load dir d NAMESPACE = file_load dir (store.disk st) NAMESPACE"
  shows "device_of (st\<lparr>store.disk := d\<rparr>) k = device_of st k"
  using assms by (cases "backend st") (simp_all add: device_of_def store_get.simps file_get_def)

lemma issued_path_no_devices: "ISSUED_TOKENS_PATH \<noteq> file_path dir NAMESPACE"
proof -
  have "endswith (file_path dir NAMESPACE) ''devices.json''"
    by (simp add: file_path_def NAMESPACE_def file_safe_def is_alnum_def is_lower_def endswith_def)
  moreover have "\<not> endswith ISSUED_TOKENS_PATH ''devices.json''" by (simp add: ISSUED_TOKENS_PATH_def endswith_def)
  ultimately show ?thesis by metis
qed

lemma record_issued_devices:
  assumes "record_issued jti u x dev now d = (r, d')"
  shows "file_load dir d' NAMESPACE = file_load dir d NAMESPACE"
proof -
  have "files d' (file_path dir NAMESPACE) = files d (file_path dir NAMESPACE)"
    if "atomic_write_json ISSUED_TOKENS_PATH v d = (r, d')" for v
    using atomic_write_read [OF that, of "file_path dir NAMESPACE"] issued_path_no_devices [of dir]
    by (auto simp: file_path_def endswith_def)
  then show ?thesis
    using assms by (auto simp: record_issued_def tok_save_def file_load_def split: sum.splits)
qed

lemma no_new_approval_devices:
  "(\<And>s r s' k. m s = (r, s') \<Longrightarrow> device_of (reg_store (idp_registry s')) k = device_of (reg_store (idp_registry s)) k) \<Longrightarrow>
   preserves (no_new_approval st0) m"
  by (rule preservesI) (auto simp: no_new_approval_def approved_key_def)

lemma issue_token_devices:
  assumes "issue_token P cfg u role dev n att cnf auth amr t t' jti d = (r, d')"
  shows "file_load dir d' NAMESPACE = file_load dir d NAMESPACE"
  using assms by (auto simp: issue_token_def obind_def olift_def oret_def split: sum.splits prod.splits dest: record_issued_devices)

lemma approval_intros [preserves_intros]:
  "preserves (no_new_approval st0) (with_limiter f)" "preserves (no_new_approval st0) (idp_log P q n given)"
  "preserves (no_new_approval st0) (read_store g)"
  "preserves (no_new_approval st0) (with_registry (verify_and_consume P d sig t))"
  "preserves (no_new_approval st0) (with_registry (issue_challenge d nonce t))"
  "preserves (no_new_approval st0) (with_disk (issue_token P cfg u role dev k att cnf auth amr t' t'' jti))"
proof -
  show "preserves (no_new_approval st0) (with_disk (issue_token P cfg u role dev k att cnf auth amr t' t'' jti))"
    by (rule no_new_approval_devices)
      (auto simp: with_disk_def with_store_def on_part_def intro!: device_of_disk split: prod.splits dest: issue_token_devices)
qed (rule no_new_approval_devices; auto simp: with_limiter_def idp_log_def with_audit_def read_store_def with_registry_def on_part_def
       verify_and_consume_def issue_challenge_def split: prod.splits sum.splits)+

lemma register_no_new_approval:
  "require_device_approval cfg \<Longrightarrow> preserves (no_new_approval st0) (with_store (register_device P cfg d pem t))"
  by (rule preservesI) (auto simp: no_new_approval_def with_store_def on_part_def split: prod.splits dest: register_approved)

lemma handlers_no_new_approval:
  "preserves (no_new_approval st0) (handle_login P cfg D q body)"
  "preserves (no_new_approval st0) (handle_challenge q body)"
  "require_device_approval cfg \<Longrightarrow> preserves (no_new_approval st0) (handle_enroll P cfg q body)"
  unfolding handle_login_def grant_login_def handle_challenge_def handle_enroll_def Let_def
  by (intro preserves_intros preserves_catch register_no_new_approval; auto intro: preserves_intros)+

lemma health_devices:
  assumes "backend_health now err st = (r, st')"
  shows "device_of st' k = device_of st k"
proof (cases "backend st")
  case (FileBackend dir)
  have ns: "file_safe NAMESPACE \<noteq> file_safe ''_healthcheck''"
    by (simp add: NAMESPACE_def file_safe_def is_alnum_def is_lower_def)
  have step: "file_load dir d' NAMESPACE = file_load dir d NAMESPACE" if "file_save dir d ''_healthcheck'' e = (x, d')" for d e x d'
    using file_load_save [OF that, where ns' = NAMESPACE] ns by (cases x) auto
  obtain ok d where h: "file_health dir now (store.disk st) = (ok, d)" by fastforce
  then have "file_load dir d NAMESPACE = file_load dir (store.disk st) NAMESPACE"
    by (auto simp: file_health_def file_set_def file_delete_def Let_def split: prod.splits sum.splits if_splits dest!: step)
  then have "device_of (st\<lparr>store.disk := d\<rparr>) k = device_of st k" by (intro device_of_disk) (simp add: FileBackend)
  then show ?thesis using assms by (simp add: backend_health_def FileBackend h)
qed (use assms in \<open>simp add: backend_health_def\<close>)

lemma preserves_conj: "preserves I m \<Longrightarrow> preserves J m \<Longrightarrow> preserves (\<lambda>s. I s \<and> J s) m"
  by (simp add: preserves_def)

text \<open>The identity provider with what surrounds a request, approval being required.\<close>

definition idp_family :: "prims \<Rightarrow> config \<Rightarrow> directory \<times> request_env \<times> string \<Rightarrow> idp application" where
  "idp_family P cfg = (\<lambda>(D, q, err). idp_app P cfg D q err)"

abbreviation approving :: "config \<Rightarrow> config" where
  "approving cfg \<equiv> cfg\<lparr>require_device_approval := True\<rparr>"

interpretation idp_service: service_invariant
  "idp_family P (approving cfg)" "\<lambda>s. idp_chain P s \<and> no_new_approval st0 s" for P cfg st0
proof
  fix i :: "directory \<times> request_env \<times> string" and name params body
  obtain D q err where i: "i = (D, q, err)" by (cases i)
  have req: "require_device_approval (approving cfg)" by simp
  show "preserves (\<lambda>s. idp_chain P s \<and> no_new_approval st0 s) (handlers (idp_family P (approving cfg) i) name params body)"
    unfolding i idp_family_def prod.case idp_app_def application.simps
    by (intro preserves_if preserves_conj handle_login_chain handle_enroll_chain handle_challenge_chain handlers_no_new_approval
        req preserves_oret)
next
  fix i :: "directory \<times> request_env \<times> string" and s
  assume s: "idp_chain P s \<and> no_new_approval st0 s"
  obtain D q err where i: "i = (D, q, err)" by (cases i)
  have "preserves (no_new_approval st0) (with_store (backend_health now err))" for now
    by (rule no_new_approval_devices) (auto simp: with_store_def on_part_def split: prod.splits dest: health_devices)
  then show "idp_chain P (snd (store_health (idp_family P (approving cfg) i) s)) \<and> no_new_approval st0 (snd (store_health (idp_family P (approving cfg) i) s))"
    using s preservesD [OF idp_parts_chain(3)] by (auto simp: i idp_family_def idp_app_def dest: preservesD)
qed

section \<open>Properties\<close>

text \<open>
  C9: The Gateway's log stays intact whatever is sent to it. After any number of HTTP requests, of any shape, with any headers, bodies, policies
  in force and answers of the resources, and with writes to the log that fail or not, the hash chain of the log verifies if it did before.
\<close>

theorem gateway_log_survives_all_requests:
  assumes "audited_chain (float_repr P) (gw_audit (app s))"
  shows "audited_chain (float_repr P) (gw_audit (app (serve_all P cfg (gateway_family P cfg) rs s)))"
  by (rule gw_log_service.serving_preserves [OF assms])

text \<open>
  C8: No request approves a device. While approval is required, any number of HTTP requests to the identity provider, to every route and with every
  body, leaves no device approved with a key that was not approved before, in whichever backend the registry is kept; and the chain of its
  log stays intact.
\<close>

theorem no_request_approves_a_device:
  assumes "require_device_approval cfg" and "audited_chain (float_repr P) (idp_audit (app s))"
    and "s' = serve_all P cfg (idp_family P cfg) rs s"
  shows "{(k, tp). approved_key (reg_store (idp_registry (app s'))) k tp} \<subseteq> {(k, tp). approved_key (reg_store (idp_registry (app s))) k tp} \<and>
    audited_chain (float_repr P) (idp_audit (app s'))"
proof -
  have cfg: "approving cfg = cfg" using assms(1) by (cases cfg) simp
  have "no_new_approval (reg_store (idp_registry (app s))) (app s)" by (simp add: no_new_approval_def)
  then have "idp_chain P (app (serve_all P cfg (idp_family P (approving cfg)) rs s)) \<and>
      no_new_approval (reg_store (idp_registry (app s))) (app (serve_all P cfg (idp_family P (approving cfg)) rs s))"
    by (intro idp_service.serving_preserves) (simp add: assms(2))
  then show ?thesis by (auto simp: assms(3) cfg no_new_approval_def)
qed

section \<open>Witnesses\<close>

definition idp_server :: "idp server" where
  "idp_server = \<lparr>life = Some ((new_service ''idp'' 0)\<lparr>ready := True\<rparr>), thread = None, answers = [], log_lines = [], app = fresh_idp\<rparr>"

definition enroll_post :: http_request where
  "enroll_post = \<lparr>verb = ''POST'', raw_path = ''/enroll'', hdr_correlation = None, content_length = Some ''2'', wire = ''{}''\<rparr>"

theorem gateway_log_survives_all_requests_witness:
  "audited_chain (float_repr (toy_prims []))
     (gw_audit (app (serve_all (toy_prims []) default_config (gateway_family (toy_prims []) default_config)
        [((\<lambda>host port mtls. Replied 200 (PyDict []), calm, [], ''/access/finance-app'', carol_headers), quiet, finance_get)] idle_server)))"
  by (rule gateway_log_survives_all_requests) (simp add: idle_server_def idle_gateway_log audited_chain_def)

theorem no_request_approves_a_device_witness:
  "{(k, tp). approved_key (reg_store (idp_registry (app (serve_all (toy_prims []) default_config (idp_family (toy_prims []) default_config)
       [((no_directory, calm, []), quiet, enroll_post)] idp_server)))) k tp} \<subseteq>
   {(k, tp). approved_key (reg_store (idp_registry (app idp_server))) k tp}"
proof -
  have "require_device_approval default_config" by (simp add: default_config_def)
  moreover have "audited_chain (float_repr (toy_prims [])) (idp_audit (app idp_server))"
    by (simp add: idp_server_def fresh_idp_def audited_chain_def no_log_intact)
  ultimately show ?thesis using no_request_approves_a_device [OF _ _ refl] by blast
qed

end
