(* ===== verification/Spec2Isabelle.thy ===== *)
theory Spec2Isabelle
  imports RateLimiter Revocation AuditLog AgentSession ServiceLife Preflight ManageDevices Dashboard CheckNoSecrets NetworkProbe VerifyInstall ServiceInvariants
begin

text \<open>
  PyZTNA, a zero-trust access system in Python: an identity provider, a Gateway, two protected resources, an agent on the user's machine,
  and the administrator's tools. This development models its implementation function by function and proves what makes it correct.
  Definitions carry the names of the code, with a prefix where a name clashes; file names below are those under \<open>src/\<close>.
\<close>

section \<open>The program and its theories\<close>

text \<open>
  A session. The agent measures the posture of its machine, proves possession of its device key, and logs in at the identity
  provider with a password and a one-time code. It gets a short-lived signed token, with which it asks the Gateway for a resource. The
  Gateway checks the token, the revocation list, the proof of possession and the policy, writes its decision to the audit log, and
  fetches the document from the resource over mutual TLS. The processes share files: the audit log, the revocation list, the registry of
  devices and the issued tokens. Tools on the same files revoke, approve, back up, rotate and inspect.

  The base. \<open>Prelude\<close>: the result type (\<open>error + 'a\<close>, \<open>Inl\<close> an exception), operations with state that may raise (\<open>op\<close>, sequenced by
  \<open>obind\<close>), dictionaries in insertion order, the lemma collections. \<open>PyStrings\<close>, \<open>PyValues\<close>, \<open>Encoding\<close>, \<open>Hashes\<close>, \<open>Json\<close>,
  \<open>JsonReader\<close>: what the code uses of Python's standard library, written out as functions that compute: string methods, UTF-8, the values
  of parsed JSON with the exceptions of each primitive on the wrong type, base 64 and base 32, SHA-256 and HMAC-SHA1 on words,
  \<open>json.dumps\<close> and \<open>json.loads\<close>. \<open>Prims\<close>: third-party packages as a record of functions, the argument \<open>P\<close>.

  \<^item> \<open>Config\<close>: \<open>common/config.py\<close>. \<open>Storage\<close>: \<open>common/storage.py\<close>, the atomic writer and the two backends; its contract is the locale
    \<open>kv_store\<close>, which the memory backend, the file backend and the selected one interpret; the file backend refines the memory one.
  \<^item> \<open>RateLimiter\<close>: \<open>common/rate_limiter.py\<close>. The locale \<open>keyed_machine\<close> reduces the run of a table to the runs of its entries.
  \<^item> \<open>Revocation\<close>: \<open>common/revocation.py\<close>, \<open>common/token_store.py\<close>, \<open>tools/revoke_token.py\<close>, with the locale \<open>revocation_list\<close>.
  \<^item> \<open>AuditLog\<close>: \<open>common/audit_log.py\<close>, \<open>tools/verify_audit_log.py\<close>. \<open>BackupAuditLog\<close>: \<open>tools/backup_audit_log.py\<close>. \<open>Dashboard\<close>:
    \<open>dashboard/generate_dashboard.py\<close>.
  \<^item> \<open>Totp\<close>, \<open>JwtUtils\<close>: \<open>common/totp.py\<close>, \<open>common/jwt_utils.py\<close>. \<open>AuthBackends\<close>: \<open>idp/users_db.py\<close> and \<open>idp/auth_backends.py\<close>, whose
    common contract is the locale \<open>auth_backend\<close>.
  \<^item> \<open>DeviceRegistry\<close>: \<open>idp/device_registry.py\<close>. \<open>TokenBinding\<close>: \<open>common/token_binding.py\<close>. \<open>PolicyEngine\<close>: \<open>pdp/policy_engine.py\<close>.
  \<^item> \<open>Requests\<close>, \<open>Obs\<close>, \<open>HttpUtils\<close>, \<open>ServiceLife\<close>: \<open>common/obs.py\<close> and \<open>common/http_utils.py\<close>, one request and the life of a service
    with its threads, as an inductive step relation.
  \<^item> \<open>IdpServer\<close>, \<open>Gateway\<close>: the handlers of \<open>idp/idp_server.py\<close> and \<open>gateway/gateway_server.py\<close> on the state of their process.
    \<open>Services\<close>: these and \<open>resources/*.py\<close> as applications of \<open>HttpUtils\<close>. \<open>EndToEnd\<close>: properties that span services.
    \<open>ServiceInvariants\<close>: what no sequence of requests changes, by the locale \<open>service_invariant\<close>.
  \<^item> \<open>KeyFiles\<close>, \<open>ProvisionCerts\<close>, \<open>RotateKeys\<close>, \<open>Preflight\<close>: \<open>common/rsa_utils.py\<close>, \<open>common/ca_utils.py\<close>, \<open>common/tls_utils.py\<close>,
    \<open>tools/provision_certs.py\<close>, \<open>tools/rotate_keys.py\<close>, \<open>common/preflight.py\<close>, over a map from paths to contents.
  \<^item> \<open>DevicePosture\<close>, \<open>DeviceAttestation\<close>, \<open>ClientAgent\<close>: \<open>agent/*.py\<close>. \<open>AgentSession\<close>: the agent against the modelled services.
  \<^item> \<open>ManageDevices\<close>, \<open>CheckNoSecrets\<close>, \<open>NetworkProbe\<close>, \<open>VerifyInstall\<close>: \<open>tools/manage_devices.py\<close>, \<open>tools/check_no_secrets.py\<close>,
    \<open>tools/network_probe.py\<close>, \<open>VERIFY_INSTALL.py\<close>.
\<close>

section \<open>How code becomes definitions\<close>

text \<open>
  State. What a module keeps in global variables, in files or in a database is a record, passed and returned. A lock held around a body
  makes that body one step; where an operation is several critical sections, a schedule is a list of steps. State that processes share
  is read and written through the same files of the model.

  Errors. Every exception that the code lets out of a function is a value \<open>Inl x\<close>; state changes made before it are kept, as in Python.
  Request bodies, token claims, stored records and policies are untyped values, and every primitive on them has a branch for each type.

  The clock, random bytes, the correlation ids and the answers of the outside world are arguments. Times are real numbers and the
  clock may do anything, so nothing is assumed of its order unless a theorem says so; each call of \<open>time.time()\<close> is a reading of its own.

  Bounds. All loops are recursions with a measure (of the list, the number or the value they take apart), but for three. The JSON
  scanner runs on fuel; \<open>json_loads\<close> supplies \<open>2 * length + 1\<close>, and more gives the same (\<open>json_loads_has_fuel\<close>). The rounds of the drain
  loop are bounded by the grace period (\<open>drain_terminates\<close>). \<open>--watch\<close>, which only the user ends, is a function of the number of cycles. \<open>'w word\<close> is used where the code is modular: in the
  hash functions and in the truncation of the one-time code. All other integers are Python's, without bounds.
\<close>

section \<open>What is proved\<close>

text \<open>
  \<^item> Access control: the Gateway contacts a resource only after token, revocation, possession and policy were checked, at its handler and
    over the wire; a login takes both factors; the policy decision is exactly least privilege; an accepted proof shows possession of the
    key; revoked users, revoked devices and compromised machines are shut out; no sequence of requests approves a device. And the
    positive side: what is permitted is served, from the agent to the document.
  \<^item> Audit: the chain detects tampering up to collisions, every answered login and access is recorded, and the chain survives every
    sequence of requests; backup and restoring lose nothing; the dashboard shows no markup of others.
  \<^item> Attestation and tokens: challenges are used once and signatures are over them; guessing is bounded as long as logins do not overlap.
  \<^item> Services: requests are answered once, errors disclose nothing, answers are read back by the peer, draining ends; a service starts
    exactly on a host that is fit; every host gets only the keys it needs.
  \<^item> Where the code falls short of its purpose the theorem states what it does: overlapping guesses, postdated proofs, concurrent writers
    of the log, provisioning and rotation of keys, enrolment by strangers, and others beside these.

  A theorem about a concrete use of a general property ends in \<open>_witness\<close>: it applies the property to a run of the modelled code.
\<close>

section \<open>Not modelled\<close>

text \<open>
  \<^item> Third-party code is a parameter: \<open>bcrypt\<close>, \<open>PyJWT\<close>, \<open>cryptography\<close>, \<open>ldap3\<close>, \<open>requests\<close>, PowerShell with the TPM, \<open>git\<close>, \<open>openssl\<close>.
    What theorems use of it is a hypothesis: that a signature by a key verifies under it, that a token decodes to the claims it was made of.
  \<^item> Sockets, TLS and the parsing of HTTP messages belong to the standard library: a request is its verb, path, headers and body, and a
    connection made with or without a certificate is a function of the network.
  \<^item> The lines that the registry, the token binding, the key tools and preflight write to the operational log: they are kept for
    \<open>common/http_utils.py\<close> alone, and no other code reads them. With them goes the exception of \<open>register_device\<close> when it reports a
    changed key whose old thumbprint is no string, which nothing but an edit of the file by hand can bring about.
  \<^item> The parsers of command lines, the messages printed, and the examples under \<open>__main__\<close>: a command is the record of its options.
  \<^item> Rounding of floating-point arithmetic: numbers are exact, and their decimal form is a parameter.
  \<^item> Character classes and case beyond ASCII: strings are the bytes of their UTF-8 encoding, and \<open>upper\<close>, \<open>isalnum\<close> and the like are those of ASCII.
  \<^item> The tests, documents, deployment files and the empty package markers.
\<close>

end
